theory Spec2Isabelle
  imports Complex_Main
begin

section \<open>Hide-and-seek simulation: data model\<close>

text \<open>
  A shallow embedding of the per-episode simulation logic of the hide-and-seek
  environment (sim.hpp, sim.cpp, level_gen.cpp, geo_gen.inl).

  Conventions.
  \<^item> An \<open>Entity\<close> handle is a natural number; a field that may hold
    \<open>Entity::none()\<close> is an \<open>Entity option\<close> with \<open>None\<close> for the null handle.
  \<^item> \<open>float\<close> values are modelled as \<open>real\<close>. Every constant the code compares
    against or stores (0, 1, -1, 5, 10, 18, 1.5, 8, 2.5) is a dyadic rational, so
    these comparisons and the sign flip of the reward are exact in binary32.
  \<^item> \<open>int32_t\<close> and \<open>CountT\<close> values are modelled as \<open>int\<close>; no claim depends on
    wrap-around.
  \<^item> A component column \<open>ctx.get<T>(e)\<close> is a total function from handles to \<open>T\<close>;
    writing it is a function update.
  \<^item> Library services that are not part of this repository (quaternion
    algebra, the functions of the C math library, ray casts against the BVH,
    bounding boxes, the random number generator, the physics step) are the
    fields of a record \<open>Ext\<close> that every function of the model takes as its
    first argument.
\<close>

type_synonym Entity = nat
type_synonym Vector2 = "real \<times> real"
type_synonym Vector3 = "real \<times> real \<times> real"
type_synonym Quat = "real \<times> real \<times> real \<times> real"
type_synonym AABB = "Vector3 \<times> Vector3"
type_synonym RandKey = "int \<times> int"

datatype SimObject = Sphere | Plane | Cube | Wall | Agent | Ramp | Box

datatype OwnerTeam = None_owner | Seeker_owner | Hider_owner | Unownable

datatype AgentType = Seeker | Hider

text \<open>The physics library's response types; this code names only \<open>Static\<close> and
  \<open>Dynamic\<close> and treats everything that is not \<open>Static\<close> alike.\<close>

datatype ResponseType = Dynamic | Kinematic | Static

text \<open>\<open>struct Action { int32_t x, y, r, g, l; }\<close>\<close>

record Action =
  act_x :: int
  act_y :: int
  act_r :: int
  act_g :: int
  act_l :: int

text \<open>The fixed joint a grab creates: the arguments of \<open>PhysicsSystem::makeFixedJoint\<close>.\<close>

record FixedJoint =
  joint_e1 :: Entity
  joint_e2 :: Entity
  joint_attach1 :: Quat
  joint_attach2 :: Quat
  joint_r1 :: Vector3
  joint_r2 :: Vector3
  joint_separation :: real

text \<open>The random number generator of a world: the key of the episode's stream and
  the number of samples drawn from it so far.\<close>

record RNG =
  rng_key :: RandKey
  rng_count :: nat

record AgentObservation =
  ao_pos :: Vector2
  ao_vel :: Vector2

record BoxObservation =
  bo_pos :: Vector2
  bo_vel :: Vector2
  bo_boxSize :: Vector2
  bo_boxRotation :: real

record RampObservation =
  ro_pos :: Vector2
  ro_vel :: Vector2
  ro_rampRotation :: real

text \<open>One row of the \<open>AgentInterface\<close> archetype (the components the modelled systems
  read or write).\<close>

record AgentInterface =
  sim_e :: "Entity option"
  prep_counter :: int
  action :: Action
  agent_type :: AgentType
  mask :: real
  agent_obs :: "AgentObservation list"
  box_obs :: "BoxObservation list"
  ramp_obs :: "RampObservation list"
  agent_vis :: "real list"
  box_vis :: "real list"
  ramp_vis :: "real list"
  seed :: RandKey
  reward_v :: real
  done_v :: int

text \<open>
  The world: the fields of \<open>struct Sim\<close> (\<open>ctx.data()\<close>), the singletons, the rows of
  the agent interfaces (row \<open>i\<close> is the entity \<open>agentInterfaces[i]\<close>) and the component
  columns of the simulated entities (archetypes \<open>DynamicObject\<close> and \<open>DynAgent\<close>).
  \<open>alive\<close> is the set of simulated or constraint entities that exist;
  \<open>nextEntity\<close> is the next fresh handle.
\<close>

record Engine =
  useFixedWorld :: bool
  ignoreEpisodeLength :: bool
  initRandKey :: RandKey
  curWorldEpisode :: int
  curEpisodeRNDCounter :: RandKey
  rng :: RNG
  worldID :: int
  hiders :: "Entity list"
  numHiders :: int
  seekers :: "Entity list"
  numSeekers :: int
  numActiveAgents :: int
  obstacles :: "Entity list"
  numObstacles :: int
  boxes :: "Entity list"
  boxSizes :: "Vector2 list"
  boxRotations :: "real list"
  ramps :: "Entity list"
  rampRotations :: "real list"
  numActiveBoxes :: int
  numActiveRamps :: int
  curEpisodeStep :: int
  minHiders :: int
  maxHiders :: int
  minSeekers :: int
  maxSeekers :: int
  maxAgentsPerWorld :: int
  hiderTeamReward :: real
  resetLevel :: int
  loadCheckpoint :: int
  checkpoint :: RandKey
  agents :: "AgentInterface list"
  nextEntity :: Entity
  alive :: "Entity set"
  get_Position :: "Entity \<Rightarrow> Vector3"
  get_Rotation :: "Entity \<Rightarrow> Quat"
  get_Scale :: "Entity \<Rightarrow> Vector3"
  get_ObjectID :: "Entity \<Rightarrow> SimObject"
  get_Velocity :: "Entity \<Rightarrow> Vector3 \<times> Vector3"
  get_ResponseType :: "Entity \<Rightarrow> ResponseType"
  get_OwnerTeam :: "Entity \<Rightarrow> OwnerTeam"
  get_ExternalForce :: "Entity \<Rightarrow> Vector3"
  get_ExternalTorque :: "Entity \<Rightarrow> Vector3"
  get_GrabData :: "Entity \<Rightarrow> Entity option"
  joints :: "Entity \<Rightarrow> FixedJoint option"

text \<open>
  The services of the engine library.
  \<^item> \<open>traceRay X ctx o d t_max\<close> is \<open>bvh.traceRay\<close>: the first entity hit and the hit
    distance, or \<open>None\<close> for \<open>Entity::none()\<close>.
  \<^item> \<open>sampleI32 X g a b\<close> and \<open>sampleUniform X g\<close> are the values the generator in
    state \<open>g\<close> returns; drawing advances \<open>rng_count\<close> by one.
  \<^item> \<open>populateStaticGeometry\<close> gives the static walls of the arena (position,
    rotation, scale) and the generator after placing them.
  \<^item> \<open>physicsStep\<close> gives the position, rotation and velocity columns after the
    physics substeps of one tick.
  \<^item> \<open>gpu_mode\<close> says whether the build defines \<open>MADRONA_GPU_MODE\<close>; it selects the
    branch of \<open>computeVisibilitySystem\<close>.
\<close>

record Ext =
  rotateVec :: "Quat \<Rightarrow> Vector3 \<Rightarrow> Vector3"
  quat_inv :: "Quat \<Rightarrow> Quat"
  quat_mul :: "Quat \<Rightarrow> Quat \<Rightarrow> Quat"
  quat_normalize :: "Quat \<Rightarrow> Quat"
  angleAxis :: "real \<Rightarrow> Vector3 \<Rightarrow> Quat"
  atan2f :: "real \<Rightarrow> real \<Rightarrow> real"
  atanf :: "real \<Rightarrow> real"
  sqrtf :: "real \<Rightarrow> real"
  vec_normalize :: "Vector3 \<Rightarrow> Vector3"
  cos_angle_threshold :: real
  pi_f :: real
  traceRay :: "Engine \<Rightarrow> Vector3 \<Rightarrow> Vector3 \<Rightarrow> real \<Rightarrow> (Entity \<times> real) option"
  split_i :: "RandKey \<Rightarrow> int \<Rightarrow> int \<Rightarrow> RandKey"
  sampleI32 :: "RNG \<Rightarrow> int \<Rightarrow> int \<Rightarrow> int"
  sampleUniform :: "RNG \<Rightarrow> real"
  rigidBodyAABBs :: "SimObject \<Rightarrow> AABB"
  applyTRS :: "AABB \<Rightarrow> Vector3 \<Rightarrow> Quat \<Rightarrow> Vector3 \<Rightarrow> AABB"
  overlaps :: "AABB \<Rightarrow> AABB \<Rightarrow> bool"
  populateStaticGeometry :: "RNG \<Rightarrow> Vector2 \<Rightarrow> (Vector3 \<times> Quat \<times> Vector3) list \<times> RNG"
  physicsStep :: "Engine \<Rightarrow> (Entity \<Rightarrow> Vector3) \<times> (Entity \<Rightarrow> Quat) \<times> (Entity \<Rightarrow> Vector3 \<times> Vector3)"
  gpu_mode :: bool

subsection \<open>Constants\<close>

definition maxBoxes :: int where "maxBoxes = 9"
definition maxRamps :: int where "maxRamps = 2"
definition maxAgents :: int where "maxAgents = 16"

definition numPrepSteps :: int where "numPrepSteps = 96"
definition episodeLen :: int where "episodeLen = 240"

definition up :: Vector3 where "up = (0, 0, 1)"
definition fwd :: Vector3 where "fwd = (0, 1, 0)"
definition right :: Vector3 where "right = (1, 0, 0)"

fun vadd :: "Vector3 \<Rightarrow> Vector3 \<Rightarrow> Vector3" where
  "vadd (a, b, c) (d, e, f) = (a + d, b + e, c + f)"

fun vsub :: "Vector3 \<Rightarrow> Vector3 \<Rightarrow> Vector3" where
  "vsub (a, b, c) (d, e, f) = (a - d, b - e, c - f)"

fun smul :: "real \<Rightarrow> Vector3 \<Rightarrow> Vector3" where
  "smul k (a, b, c) = (k * a, k * b, k * c)"

section \<open>Action interpreter\<close>

text \<open>The neutral action record the action system and \<open>makeAgent\<close> write.\<close>

definition neutral_action :: Action where
  "neutral_action = \<lparr>act_x = 5, act_y = 5, act_r = 5, act_g = 0, act_l = 0\<rparr>"

text \<open>\<open>movementSystem\<close> (sim.cpp). \<open>half_buckets = 11 / 2 = 5\<close> in \<open>CountT\<close>, so
  \<open>move_delta_per_bucket = 60 / 5\<close> and \<open>turn_delta_per_bucket = 15 / 5\<close>.\<close>

definition discrete_action_buckets :: int where "discrete_action_buckets = 11"
definition half_buckets :: int where "half_buckets = discrete_action_buckets div 2"
definition move_delta_per_bucket :: real where
  "move_delta_per_bucket = 60 / real_of_int half_buckets"
definition turn_delta_per_bucket :: real where
  "turn_delta_per_bucket = 15 / real_of_int half_buckets"

definition movementSystem ::
  "Ext \<Rightarrow> Engine \<Rightarrow> Action \<Rightarrow> Entity option \<Rightarrow> AgentType \<Rightarrow> Engine" where
  "movementSystem X ctx a se ty =
     (case se of
        None \<Rightarrow> ctx
      | Some e \<Rightarrow>
          if ty = Seeker \<and> curEpisodeStep ctx < numPrepSteps - 1 then ctx
          else
            let cur_rot = get_Rotation ctx e;
                f_x = move_delta_per_bucket * real_of_int (act_x a - 5);
                f_y = move_delta_per_bucket * real_of_int (act_y a - 5);
                t_z = turn_delta_per_bucket * real_of_int (act_r a - 5)
            in ctx\<lparr>get_ExternalForce :=
                     (get_ExternalForce ctx)(e := rotateVec X cur_rot (f_x, f_y, 0)),
                   get_ExternalTorque :=
                     (get_ExternalTorque ctx)(e := (0, 0, t_z))\<rparr>)"

text \<open>The \<open>if (action.l == 1)\<close> block of \<open>actionSystem\<close>.\<close>

definition agent_team :: "AgentType \<Rightarrow> OwnerTeam" where
  "agent_team ty = (if ty = Hider then Hider_owner else Seeker_owner)"

definition lock_block :: "Ext \<Rightarrow> Engine \<Rightarrow> Entity \<Rightarrow> AgentType \<Rightarrow> Engine" where
  "lock_block X ctx e ty =
     (let cur_pos = get_Position ctx e;
          cur_rot = get_Rotation ctx e
      in case traceRay X ctx (vadd cur_pos (smul 0.5 up)) (rotateVec X cur_rot fwd) 2.5 of
           None \<Rightarrow> ctx
         | Some (lock_entity, hit_t) \<Rightarrow>
             let owner = get_OwnerTeam ctx lock_entity;
                 response_type = get_ResponseType ctx lock_entity
             in if response_type = Static then
                  (if (ty = Seeker \<and> owner = Seeker_owner) \<or>
                      (ty = Hider \<and> owner = Hider_owner)
                   then ctx\<lparr>get_ResponseType := (get_ResponseType ctx)(lock_entity := Dynamic),
                            get_OwnerTeam := (get_OwnerTeam ctx)(lock_entity := None_owner)\<rparr>
                   else ctx)
                else
                  (if owner = None_owner
                   then ctx\<lparr>get_ResponseType := (get_ResponseType ctx)(lock_entity := Static),
                            get_OwnerTeam := (get_OwnerTeam ctx)(lock_entity := agent_team ty)\<rparr>
                   else ctx))"

text \<open>\<open>ctx.destroyEntity\<close> of a constraint entity and \<open>PhysicsSystem::makeFixedJoint\<close>.\<close>

definition destroyEntity :: "Engine \<Rightarrow> Entity \<Rightarrow> Engine" where
  "destroyEntity ctx e = ctx\<lparr>alive := alive ctx - {e}, joints := (joints ctx)(e := None)\<rparr>"

definition makeFixedJoint :: "Engine \<Rightarrow> FixedJoint \<Rightarrow> Entity \<times> Engine" where
  "makeFixedJoint ctx j =
     (let c = nextEntity ctx
      in (c, ctx\<lparr>nextEntity := c + 1, alive := insert c (alive ctx),
                  joints := (joints ctx)(c := Some j)\<rparr>))"

text \<open>The \<open>if (action.g == 1)\<close> block of \<open>actionSystem\<close>.\<close>

definition grab_block :: "Ext \<Rightarrow> Engine \<Rightarrow> Entity \<Rightarrow> Engine" where
  "grab_block X ctx e =
     (let cur_pos = get_Position ctx e;
          cur_rot = get_Rotation ctx e
      in case get_GrabData ctx e of
           Some c \<Rightarrow> (destroyEntity ctx c)\<lparr>get_GrabData := (get_GrabData ctx)(e := None)\<rparr>
         | None \<Rightarrow>
             let ray_o = vadd cur_pos (smul 0.5 up);
                 ray_d = rotateVec X cur_rot fwd
             in case traceRay X ctx ray_o ray_d 2.5 of
                  None \<Rightarrow> ctx
                | Some (grab_entity, hit_t) \<Rightarrow>
                    let owner = get_OwnerTeam ctx grab_entity;
                        response_type = get_ResponseType ctx grab_entity
                    in if owner = None_owner \<and> response_type = Dynamic then
                         let other_pos = get_Position ctx grab_entity;
                             other_rot = get_Rotation ctx grab_entity;
                             r1 = vadd (smul 1.25 fwd) (smul 0.5 up);
                             hit_pos = vadd ray_o (smul hit_t ray_d);
                             r2 = rotateVec X (quat_inv X other_rot) (vsub hit_pos other_pos);
                             attach1 = (1, 0, 0, 0);
                             attach2 = quat_normalize X (quat_mul X (quat_inv X other_rot) cur_rot);
                             separation = hit_t - 1.25;
                             (c, ctx') = makeFixedJoint ctx
                               \<lparr>joint_e1 = e, joint_e2 = grab_entity,
                                joint_attach1 = attach1, joint_attach2 = attach2,
                                joint_r1 = r1, joint_r2 = r2,
                                joint_separation = separation\<rparr>
                         in ctx'\<lparr>get_GrabData := (get_GrabData ctx')(e := Some c)\<rparr>
                       else ctx)"

text \<open>\<open>actionSystem\<close> (sim.cpp): the two early returns, the lock block, the grab
  block, then the consumption of the action record.\<close>

definition actionSystem ::
  "Ext \<Rightarrow> Engine \<Rightarrow> Action \<Rightarrow> Entity option \<Rightarrow> AgentType \<Rightarrow> Engine \<times> Action" where
  "actionSystem X ctx a se ty =
     (case se of
        None \<Rightarrow> (ctx, a)
      | Some e \<Rightarrow>
          if ty = Seeker \<and> curEpisodeStep ctx < numPrepSteps - 1 then (ctx, a)
          else
            let ctx1 = (if act_l a = 1 then lock_block X ctx e ty else ctx);
                ctx2 = (if act_g a = 1 then grab_block X ctx1 e else ctx1)
            in (ctx2, a\<lparr>act_x := 5, act_y := 5, act_r := 5, act_g := 0, act_l := 0\<rparr>))"

section \<open>Rewards and episode termination\<close>

text \<open>The shared team value as one agent receives it: \<open>reward_val\<close> of
  \<open>outputRewardsDonesSystem\<close> before the boundary test.\<close>

definition team_reward_val :: "Engine \<Rightarrow> AgentType \<Rightarrow> real" where
  "team_reward_val ctx ty =
     (let reward_val = hiderTeamReward ctx
      in if ty = Seeker then reward_val * (- 1) else reward_val)"

text \<open>\<open>fabsf(pos.x) >= 18.f || fabsf(pos.y) >= 18.f\<close>\<close>

fun out_of_bounds :: "Vector3 \<Rightarrow> bool" where
  "out_of_bounds (px, py, pz) = (\<bar>px\<bar> \<ge> 18 \<or> \<bar>py\<bar> \<ge> 18)"

text \<open>\<open>outputRewardsDonesSystem\<close> (sim.cpp); the result is the pair of the
  \<open>Reward\<close> and \<open>Done\<close> components after the call.\<close>

definition outputRewardsDonesSystem ::
  "Engine \<Rightarrow> Entity option \<Rightarrow> AgentType \<Rightarrow> real \<Rightarrow> int \<Rightarrow> real \<times> int" where
  "outputRewardsDonesSystem ctx se ty reward don =
     (case se of
        None \<Rightarrow> (reward, don)
      | Some e \<Rightarrow>
          let cur_step = curEpisodeStep ctx;
              don1 = (if cur_step = 0 then 0 else don)
          in if cur_step < numPrepSteps - 1 then (0, don1)
             else
               let don2 = (if cur_step = episodeLen - 1 then 1 else don1);
                   reward_val = team_reward_val ctx ty;
                   pos = get_Position ctx e
               in ((if out_of_bounds pos then reward_val - 10 else reward_val), don2))"

section \<open>Observations and visibility\<close>

definition zero_AgentObservation :: AgentObservation where
  "zero_AgentObservation = \<lparr>ao_pos = (0, 0), ao_vel = (0, 0)\<rparr>"

definition zero_BoxObservation :: BoxObservation where
  "zero_BoxObservation =
     \<lparr>bo_pos = (0, 0), bo_vel = (0, 0), bo_boxSize = (0, 0), bo_boxRotation = 0\<rparr>"

definition zero_RampObservation :: RampObservation where
  "zero_RampObservation = \<lparr>ro_pos = (0, 0), ro_vel = (0, 0), ro_rampRotation = 0\<rparr>"

fun xy :: "Vector3 \<Rightarrow> Vector2" where
  "xy (a, b, c) = (a, b)"

fun dot :: "Vector3 \<Rightarrow> Vector3 \<Rightarrow> real" where
  "dot (a, b, c) (d, e, f) = a * d + b * e + c * f"

text \<open>The yaw of a relative rotation \<open>(w, x, y, z)\<close>, as both observation loops
  compute it.\<close>

fun relative_yaw :: "Ext \<Rightarrow> Quat \<Rightarrow> real" where
  "relative_yaw X (qw, qx, qy, qz) =
     atan2f X (2 * (qw * qz + qx * qy)) (1 - 2 * (qy * qy + qz * qz))"

text \<open>The body of the box loop of \<open>collectObservationsSystem\<close> for one index.\<close>

definition box_obs_step ::
  "Ext \<Rightarrow> Engine \<Rightarrow> Vector3 \<Rightarrow> Quat \<Rightarrow> nat \<Rightarrow> BoxObservation list \<Rightarrow> BoxObservation list" where
  "box_obs_step X ctx agent_pos agent_rot box_idx obs =
     (if int box_idx \<ge> numActiveBoxes ctx then obs[box_idx := zero_BoxObservation]
      else
        let box_e = boxes ctx ! box_idx;
            box_pos = get_Position ctx box_e;
            box_vel = fst (get_Velocity ctx box_e);
            box_rot = get_Rotation ctx box_e;
            box_relative_pos = rotateVec X (quat_inv X agent_rot) (vsub box_pos agent_pos);
            box_relative_vel = rotateVec X (quat_inv X agent_rot) box_vel;
            relative_rot = quat_mul X agent_rot (quat_inv X box_rot)
        in obs[box_idx := \<lparr>bo_pos = xy box_relative_pos, bo_vel = xy box_relative_vel,
                            bo_boxSize = boxSizes ctx ! box_idx,
                            bo_boxRotation = relative_yaw X relative_rot\<rparr>])"

text \<open>The body of the ramp loop for one index.\<close>

definition ramp_obs_step ::
  "Ext \<Rightarrow> Engine \<Rightarrow> Vector3 \<Rightarrow> Quat \<Rightarrow> nat \<Rightarrow> RampObservation list \<Rightarrow> RampObservation list" where
  "ramp_obs_step X ctx agent_pos agent_rot ramp_idx obs =
     (if int ramp_idx \<ge> numActiveRamps ctx then obs[ramp_idx := zero_RampObservation]
      else
        let ramp_e = ramps ctx ! ramp_idx;
            ramp_pos = get_Position ctx ramp_e;
            ramp_vel = fst (get_Velocity ctx ramp_e);
            ramp_rot = get_Rotation ctx ramp_e;
            ramp_relative_pos = rotateVec X (quat_inv X agent_rot) (vsub ramp_pos agent_pos);
            ramp_relative_vel = rotateVec X (quat_inv X agent_rot) ramp_vel;
            relative_rot = quat_mul X agent_rot (quat_inv X ramp_rot)
        in obs[ramp_idx := \<lparr>ro_pos = xy ramp_relative_pos, ro_vel = xy ramp_relative_vel,
                             ro_rampRotation = relative_yaw X relative_rot\<rparr>])"

text \<open>The body of the agent loop for one index; the state is the observation
  array and \<open>num_other_agents\<close>. Row \<open>agent_idx\<close> of \<open>agents\<close> is the entity
  \<open>agentInterfaces[agent_idx]\<close>, so \<open>agent_e == other_agent_e\<close> compares indices.
  An active row's \<open>SimEntity\<close> is never null; \<open>the\<close> leaves the value unspecified
  where the source would read a component of the null entity.\<close>

definition agent_obs_step ::
  "Ext \<Rightarrow> Engine \<Rightarrow> nat \<Rightarrow> Vector3 \<Rightarrow> Quat \<Rightarrow> nat \<Rightarrow>
   AgentObservation list \<times> nat \<Rightarrow> AgentObservation list \<times> nat" where
  "agent_obs_step X ctx agent_e agent_pos agent_rot agent_idx st =
     (let obs = fst st; num_other_agents = snd st
      in if int agent_idx \<ge> numActiveAgents ctx
         then (obs[num_other_agents := zero_AgentObservation], num_other_agents + 1)
         else if agent_e = agent_idx then (obs, num_other_agents)
         else
           let other_agent_sim_e = the (sim_e (agents ctx ! agent_idx));
               other_agent_pos = get_Position ctx other_agent_sim_e;
               other_agent_vel = fst (get_Velocity ctx other_agent_sim_e);
               other_agent_relative_pos =
                 rotateVec X (quat_inv X agent_rot) (vsub other_agent_pos agent_pos);
               other_agent_relative_vel = rotateVec X (quat_inv X agent_rot) other_agent_vel
           in (obs[num_other_agents := \<lparr>ao_pos = xy other_agent_relative_pos,
                                         ao_vel = xy other_agent_relative_vel\<rparr>],
               num_other_agents + 1))"

text \<open>\<open>collectObservationsSystem\<close> (sim.cpp); the result is the four components it
  writes: agent, box and ramp observations and the preparation counter.\<close>

definition collectObservationsSystem ::
  "Ext \<Rightarrow> Engine \<Rightarrow> nat \<Rightarrow> Entity option \<Rightarrow>
   AgentObservation list \<Rightarrow> BoxObservation list \<Rightarrow> RampObservation list \<Rightarrow> int \<Rightarrow>
   AgentObservation list \<times> BoxObservation list \<times> RampObservation list \<times> int" where
  "collectObservationsSystem X ctx agent_e se a_obs b_obs r_obs prep =
     (case se of
        None \<Rightarrow> (a_obs, b_obs, r_obs, prep)
      | Some e \<Rightarrow>
          let cur_step = curEpisodeStep ctx;
              prep' = (if cur_step \<le> numPrepSteps then numPrepSteps - cur_step else prep);
              agent_pos = get_Position ctx e;
              agent_rot = get_Rotation ctx e;
              b_obs' = fold (box_obs_step X ctx agent_pos agent_rot) [0..<nat maxBoxes] b_obs;
              r_obs' = fold (ramp_obs_step X ctx agent_pos agent_rot) [0..<nat maxRamps] r_obs;
              a_obs' = fst (fold (agent_obs_step X ctx agent_e agent_pos agent_rot)
                              [0..<nat maxAgents] (a_obs, 0))
          in (a_obs', b_obs', r_obs', prep'))"

text \<open>The lambda \<open>checkVisibility\<close> of \<open>computeVisibilitySystem\<close>.\<close>

definition checkVisibility :: "Ext \<Rightarrow> Engine \<Rightarrow> Vector3 \<Rightarrow> Vector3 \<Rightarrow> Entity \<Rightarrow> real" where
  "checkVisibility X ctx agent_pos agent_fwd other_e =
     (let other_pos = get_Position ctx other_e;
          to_other = vsub other_pos agent_pos;
          to_other_norm = vec_normalize X to_other;
          cos_angle = dot to_other_norm agent_fwd
      in if cos_angle < cos_angle_threshold X then 0
         else (case traceRay X ctx agent_pos to_other 1 of
                 None \<Rightarrow> 0
               | Some (hit_entity, hit_t) \<Rightarrow> if hit_entity = other_e then 1 else 0))"

text \<open>The bodies of the three loops of \<open>computeVisibilitySystem\<close> on the CPU path
  (the \<open>#else\<close> branch of \<open>MADRONA_GPU_MODE\<close>).\<close>

definition box_vis_step ::
  "Ext \<Rightarrow> Engine \<Rightarrow> Vector3 \<Rightarrow> Vector3 \<Rightarrow> nat \<Rightarrow> real list \<Rightarrow> real list" where
  "box_vis_step X ctx agent_pos agent_fwd box_idx vis =
     (if int box_idx < numActiveBoxes ctx
      then vis[box_idx := checkVisibility X ctx agent_pos agent_fwd (boxes ctx ! box_idx)]
      else vis[box_idx := 0])"

definition ramp_vis_step ::
  "Ext \<Rightarrow> Engine \<Rightarrow> Vector3 \<Rightarrow> Vector3 \<Rightarrow> nat \<Rightarrow> real list \<Rightarrow> real list" where
  "ramp_vis_step X ctx agent_pos agent_fwd ramp_idx vis =
     (if int ramp_idx < numActiveRamps ctx
      then vis[ramp_idx := checkVisibility X ctx agent_pos agent_fwd (ramps ctx ! ramp_idx)]
      else vis[ramp_idx := 0])"

text \<open>The agent loop; the state is the shared team value, the mask array and
  \<open>num_other_agents\<close>. All agents of the loop read positions and rays from the
  world as it stands when the system starts, so only the stored team value is
  threaded.\<close>

definition agent_vis_step ::
  "Ext \<Rightarrow> Engine \<Rightarrow> nat \<Rightarrow> AgentType \<Rightarrow> Vector3 \<Rightarrow> Vector3 \<Rightarrow> nat \<Rightarrow>
   real \<times> real list \<times> nat \<Rightarrow> real \<times> real list \<times> nat" where
  "agent_vis_step X ctx agent_e ty agent_pos agent_fwd agent_idx st =
     (let team = fst st; vis = fst (snd st); num_other_agents = snd (snd st)
      in if int agent_idx \<ge> numActiveAgents ctx
         then (team, vis[num_other_agents := 0], num_other_agents + 1)
         else if agent_e = agent_idx then (team, vis, num_other_agents)
         else
           let other_agent_sim_e = the (sim_e (agents ctx ! agent_idx));
               is_visible = (checkVisibility X ctx agent_pos agent_fwd other_agent_sim_e \<noteq> 0);
               team' = (if ty = Seeker \<and> is_visible \<and>
                           agent_type (agents ctx ! agent_idx) = Hider
                        then - 1 else team)
           in (team', vis[num_other_agents := (if is_visible then 1 else 0)],
               num_other_agents + 1))"

text \<open>
  The \<open>MADRONA_GPU_MODE\<close> branch. A warp of 32 lanes runs the system for one row;
  \<open>num_total_vis = maxBoxes + maxRamps + maxAgents = 27\<close> is below 32, so the loop
  over \<open>global_offset\<close> has one pass and \<open>cur_idx\<close> is the lane index. Lanes 0 to 15
  check agents, lanes 16 to 24 boxes, lanes 25 and 26 ramps; lanes 27 to 31 have
  no \<open>vis_out\<close> and store nothing. No lane stores \<open>hiderTeamReward\<close>.

  The value a lane stores: 0 when \<open>check_e\<close> is null, else 1 or 0 as
  \<open>checkVisibility\<close> says.
\<close>

definition lane_value :: "Ext \<Rightarrow> Engine \<Rightarrow> Vector3 \<Rightarrow> Vector3 \<Rightarrow> Entity option \<Rightarrow> real" where
  "lane_value X ctx agent_pos agent_fwd check_e =
     (case check_e of
        None \<Rightarrow> 0
      | Some e \<Rightarrow> if checkVisibility X ctx agent_pos agent_fwd e \<noteq> 0 then 1 else 0)"

text \<open>An agent lane. \<open>num_lower_valid\<close>, the number of lower lanes with
  \<open>valid_check\<close> (the ballot shifted left by \<open>32 - lane_id\<close> and counted; for lane 0
  the count is 0), is the counter the fold carries. Generation activates the rows
  0 to \<open>numActiveAgents - 1\<close> and nulls the others, so the row of the running agent
  is a lane below \<open>numActiveAgents\<close> without \<open>valid_check\<close>, and the stores use the
  indices 0 to 14 of the row's array of \<open>maxAgents - 1\<close> entries, on this path as on
  the other.\<close>

definition agent_lane_step ::
  "Ext \<Rightarrow> Engine \<Rightarrow> nat \<Rightarrow> Vector3 \<Rightarrow> Vector3 \<Rightarrow> nat \<Rightarrow> real list \<times> nat \<Rightarrow> real list \<times> nat" where
  "agent_lane_step X ctx agent_e agent_pos agent_fwd cur_idx st =
     (let vis = fst st; num_lower_valid = snd st;
          valid_check = (if int cur_idx < numActiveAgents ctx then cur_idx \<noteq> agent_e else True);
          check_e = (if int cur_idx < numActiveAgents ctx \<and> valid_check
                     then sim_e (agents ctx ! cur_idx) else None)
      in if valid_check
         then (vis[num_lower_valid := lane_value X ctx agent_pos agent_fwd check_e],
               num_lower_valid + 1)
         else (vis, num_lower_valid))"

text \<open>A box lane tests \<open>cur_idx < numActiveBoxes\<close> and stores at
  \<open>box_vis.visible[cur_idx]\<close>, with the lane index \<open>cur_idx\<close> from 16 to 24 where the
  other path has \<open>box_idx\<close> from 0 to 8. So the own box masks of the row are never
  written, and the nine stores go past the \<open>maxBoxes\<close> entries of the row's array.
  The result is the store: the index and the value. (With \<open>numActiveBoxes\<close> at most
  \<open>maxBoxes\<close> the test fails in every box lane and the value is 0; where it held, the
  lane would read \<open>boxes[cur_idx]\<close> past the table.)\<close>

definition box_lane_store :: "Ext \<Rightarrow> Engine \<Rightarrow> Vector3 \<Rightarrow> Vector3 \<Rightarrow> nat \<Rightarrow> nat \<times> real" where
  "box_lane_store X ctx agent_pos agent_fwd cur_idx =
     (let check_e = (if int cur_idx < numActiveBoxes ctx then Some (boxes ctx ! cur_idx)
                     else None)
      in (cur_idx, lane_value X ctx agent_pos agent_fwd check_e))"

text \<open>A ramp lane, with \<open>ramp_idx = cur_idx - maxAgents - maxBoxes\<close>.\<close>

definition ramp_lane_step ::
  "Ext \<Rightarrow> Engine \<Rightarrow> Vector3 \<Rightarrow> Vector3 \<Rightarrow> nat \<Rightarrow> real list \<Rightarrow> real list" where
  "ramp_lane_step X ctx agent_pos agent_fwd ramp_idx vis =
     (let check_e = (if int ramp_idx < numActiveRamps ctx then Some (ramps ctx ! ramp_idx)
                     else None)
      in vis[ramp_idx := lane_value X ctx agent_pos agent_fwd check_e])"

text \<open>\<open>computeVisibilitySystem\<close> (sim.cpp), both branches of \<open>MADRONA_GPU_MODE\<close>; the
  result is the world (on the CPU path its \<open>hiderTeamReward\<close> may be stored to), the
  three mask arrays of the row, and the stores made past the row's box array
  (none on the CPU path).\<close>

definition computeVisibilitySystem ::
  "Ext \<Rightarrow> Engine \<Rightarrow> nat \<Rightarrow> Entity option \<Rightarrow> AgentType \<Rightarrow>
   real list \<Rightarrow> real list \<Rightarrow> real list \<Rightarrow>
   Engine \<times> real list \<times> real list \<times> real list \<times> (nat \<times> real) list" where
  "computeVisibilitySystem X ctx agent_e se ty a_vis b_vis r_vis =
     (case se of
        None \<Rightarrow> (ctx, a_vis, b_vis, r_vis, [])
      | Some e \<Rightarrow>
          let agent_pos = get_Position ctx e;
              agent_rot = get_Rotation ctx e;
              agent_fwd = rotateVec X agent_rot fwd
          in if gpu_mode X
             then
               let a_vis' = fst (fold (agent_lane_step X ctx agent_e agent_pos agent_fwd)
                                   [0..<nat maxAgents] (a_vis, 0));
                   past = map (box_lane_store X ctx agent_pos agent_fwd)
                            [nat maxAgents..<nat maxAgents + nat maxBoxes];
                   r_vis' = fold (ramp_lane_step X ctx agent_pos agent_fwd) [0..<nat maxRamps] r_vis
               in (ctx, a_vis', b_vis, r_vis', past)
             else
               let b_vis' = fold (box_vis_step X ctx agent_pos agent_fwd) [0..<nat maxBoxes] b_vis;
                   r_vis' = fold (ramp_vis_step X ctx agent_pos agent_fwd) [0..<nat maxRamps] r_vis;
                   st = fold (agent_vis_step X ctx agent_e ty agent_pos agent_fwd)
                          [0..<nat maxAgents] (hiderTeamReward ctx, a_vis, 0)
               in (ctx\<lparr>hiderTeamReward := fst st\<rparr>, fst (snd st), b_vis', r_vis', []))"

section \<open>Level generation\<close>

text \<open>
  What stops a run: a failed \<open>assert\<close>, a write past the end of one of the fixed
  tables (\<open>hiders[3]\<close>, \<open>seekers[3]\<close>, \<open>boxes[maxBoxes]\<close>, \<open>ramps[maxRamps]\<close>, the
  \<open>obstacles\<close> allocation), the use of an agent interface slot that holds no
  entity, and a placement loop that does not return.
\<close>

datatype error = AssertFailed | TableOverflow | InvalidEntity | NoReturn

definition bindE :: "error + 'a \<Rightarrow> ('a \<Rightarrow> error + 'b) \<Rightarrow> error + 'b" where
  "bindE m f = (case m of Inl err \<Rightarrow> Inl err | Inr v \<Rightarrow> f v)"

text \<open>A counted \<open>for\<close> loop over indices whose body may fail.\<close>

fun forE :: "nat list \<Rightarrow> (nat \<Rightarrow> 's \<Rightarrow> error + 's) \<Rightarrow> 's \<Rightarrow> error + 's" where
  "forE [] f s = Inr s"
| "forE (k # ks) f s = (case f k s of Inl err \<Rightarrow> Inl err | Inr s' \<Rightarrow> forE ks f s')"

definition max_total_entities :: int where
  "max_total_entities = maxBoxes + maxRamps + maxAgents + 30"

definition max_rejections :: int where "max_rejections = 20"

definition bounds :: Vector2 where "bounds = (- 18, 18)"
definition bounds_diff :: real where "bounds_diff = snd bounds - fst bounds"

definition rng_advance :: "RNG \<Rightarrow> RNG" where
  "rng_advance g = g\<lparr>rng_count := rng_count g + 1\<rparr>"

text \<open>\<open>ctx.makeRenderableEntity\<close>: a fresh handle.\<close>

definition makeEntity :: "Engine \<Rightarrow> Entity \<times> Engine" where
  "makeEntity ctx =
     (let e = nextEntity ctx
      in (e, ctx\<lparr>nextEntity := e + 1, alive := insert e (alive ctx)\<rparr>))"

text \<open>\<open>makeDynObject\<close> (geo_gen.inl).\<close>

definition makeDynObject ::
  "Engine \<Rightarrow> Vector3 \<Rightarrow> Quat \<Rightarrow> SimObject \<Rightarrow> ResponseType \<Rightarrow> OwnerTeam \<Rightarrow> Vector3 \<Rightarrow>
   Entity \<times> Engine" where
  "makeDynObject ctx pos rot obj_id response_type owner_team scale =
     (let e = fst (makeEntity ctx); ctx1 = snd (makeEntity ctx)
      in (e, ctx1\<lparr>get_Position := (get_Position ctx1)(e := pos),
                   get_Rotation := (get_Rotation ctx1)(e := rot),
                   get_Scale := (get_Scale ctx1)(e := scale),
                   get_ObjectID := (get_ObjectID ctx1)(e := obj_id),
                   get_Velocity := (get_Velocity ctx1)(e := ((0, 0, 0), (0, 0, 0))),
                   get_ResponseType := (get_ResponseType ctx1)(e := response_type),
                   get_OwnerTeam := (get_OwnerTeam ctx1)(e := owner_team),
                   get_ExternalForce := (get_ExternalForce ctx1)(e := (0, 0, 0)),
                   get_ExternalTorque := (get_ExternalTorque ctx1)(e := (0, 0, 0))\<rparr>))"

text \<open>Modelled from the spec: the default arguments of \<open>makeDynObject\<close>, declared in
  geo_gen.hpp (not among the sources). A movable object starts mobile
  (\<open>Dynamic\<close>) and unowned, with unit scale; level 4 passes exactly these values
  explicitly.\<close>

definition makeDynObject_default ::
  "Engine \<Rightarrow> Vector3 \<Rightarrow> Quat \<Rightarrow> SimObject \<Rightarrow> Entity \<times> Engine" where
  "makeDynObject_default ctx pos rot obj_id =
     makeDynObject ctx pos rot obj_id Dynamic None_owner (1, 1, 1)"

text \<open>\<open>makePlane\<close> (level_gen.cpp).\<close>

definition makePlane :: "Engine \<Rightarrow> Vector3 \<Rightarrow> Quat \<Rightarrow> Entity \<times> Engine" where
  "makePlane ctx offset rot = makeDynObject ctx offset rot Plane Static Unownable (1, 1, 1)"

text \<open>\<open>makeAgent\<close> (level_gen.cpp). Row \<open>numActiveAgents\<close> of the interface table must
  hold an entity; the write to \<open>seekers\<close> or \<open>hiders\<close> must lie inside the table.\<close>

definition makeAgent :: "Engine \<Rightarrow> AgentType \<Rightarrow> error + (Entity \<times> Engine)" where
  "makeAgent ctx ty =
     (let i = numActiveAgents ctx
      in if \<not> (0 \<le> i \<and> nat i < length (agents ctx)) then Inl InvalidEntity
         else
           let ctx1 = ctx\<lparr>numActiveAgents := i + 1\<rparr>;
               agent = fst (makeEntity ctx1);
               ctx2 = snd (makeEntity ctx1);
               row = (agents ctx2 ! nat i)\<lparr>agent_type := ty, sim_e := Some agent, mask := 1,
                       seed := curEpisodeRNDCounter ctx2, action := neutral_action\<rparr>;
               ctx3 = ctx2\<lparr>agents := (agents ctx2)[nat i := row]\<rparr>
           in if ty = Seeker then
                (if 0 \<le> numSeekers ctx3 \<and> nat (numSeekers ctx3) < length (seekers ctx3)
                 then Inr (agent, ctx3\<lparr>seekers := (seekers ctx3)[nat (numSeekers ctx3) := agent],
                                       numSeekers := numSeekers ctx3 + 1\<rparr>)
                 else Inl TableOverflow)
              else
                (if 0 \<le> numHiders ctx3 \<and> nat (numHiders ctx3) < length (hiders ctx3)
                 then Inr (agent, ctx3\<lparr>hiders := (hiders ctx3)[nat (numHiders ctx3) := agent],
                                       numHiders := numHiders ctx3 + 1\<rparr>)
                 else Inl TableOverflow))"

text \<open>The lambda \<open>makeDynAgent\<close> of \<open>generateTrainingEnvironment\<close> and of levels 5
  and 6.\<close>

definition makeDynAgent ::
  "Engine \<Rightarrow> Vector3 \<Rightarrow> Quat \<Rightarrow> AgentType \<Rightarrow> error + (Entity \<times> Engine)" where
  "makeDynAgent ctx pos rot ty =
     bindE (makeAgent ctx ty) (\<lambda>r.
       let agent = fst r; ctx1 = snd r
       in Inr (agent,
            ctx1\<lparr>get_Position := (get_Position ctx1)(agent := pos),
                 get_Rotation := (get_Rotation ctx1)(agent := rot),
                 get_Scale := (get_Scale ctx1)(agent := (1, 1, 1)),
                 get_ObjectID := (get_ObjectID ctx1)(agent := Agent),
                 get_Velocity := (get_Velocity ctx1)(agent := ((0, 0, 0), (0, 0, 0))),
                 get_ResponseType := (get_ResponseType ctx1)(agent := Dynamic),
                 get_OwnerTeam := (get_OwnerTeam ctx1)(agent := Unownable),
                 get_ExternalForce := (get_ExternalForce ctx1)(agent := (0, 0, 0)),
                 get_ExternalTorque := (get_ExternalTorque ctx1)(agent := (0, 0, 0)),
                 get_GrabData := (get_GrabData ctx1)(agent := None)\<rparr>))"

text \<open>\<open>all_entities[num_entities++] = e\<close> on the \<open>obstacles\<close> allocation.\<close>

definition push_entity :: "Engine \<Rightarrow> nat \<Rightarrow> Entity \<Rightarrow> error + (Engine \<times> nat)" where
  "push_entity ctx num_entities e =
     (if num_entities < length (obstacles ctx)
      then Inr (ctx\<lparr>obstacles := (obstacles ctx)[num_entities := e]\<rparr>, num_entities + 1)
      else Inl TableOverflow)"

text \<open>The lambda \<open>checkOverlap\<close>: true when the box overlaps none of the first
  \<open>num_entities\<close> entries of \<open>all_entities\<close>.\<close>

definition checkOverlap :: "Ext \<Rightarrow> Engine \<Rightarrow> nat \<Rightarrow> AABB \<Rightarrow> bool" where
  "checkOverlap X ctx num_entities aabb =
     list_all (\<lambda>e. \<not> overlaps X aabb
                      (applyTRS X (rigidBodyAABBs X (get_ObjectID ctx e))
                         (get_Position ctx e) (get_Rotation ctx e) (get_Scale ctx e)))
       (take num_entities (obstacles ctx))"

text \<open>
  The \<open>while (true)\<close> loop that all five placement loops of
  \<open>generateTrainingEnvironment\<close> share: sample a position and a rotation, compute
  the bounding box of the object there, and leave the loop when \<open>checkOverlap\<close>
  holds or \<open>rejections == max_rejections\<close>; otherwise count a rejection and sample
  again. The result is the accepted position, rotation quaternion and rotation
  angle, the generator after the last sample and the value of \<open>rejections\<close> on
  leaving the loop. What each loop does with the accepted pose follows the call.
\<close>

partial_function (option) placementLoop ::
  "Ext \<Rightarrow> Engine \<Rightarrow> nat \<Rightarrow> SimObject \<Rightarrow> RNG \<Rightarrow> int \<Rightarrow>
   (Vector3 \<times> Quat \<times> real \<times> RNG \<times> int) option" where
  "placementLoop X ctx num_entities obj g rejections =
     (let px = fst bounds + sampleUniform X g * bounds_diff;
          g1 = rng_advance g;
          py = fst bounds + sampleUniform X g1 * bounds_diff;
          g2 = rng_advance g1;
          pos = (px, py, 1);
          rotation = sampleUniform X g2 * pi_f X;
          g3 = rng_advance g2;
          rot = angleAxis X rotation (0, 0, 1);
          aabb = applyTRS X (rigidBodyAABBs X obj) pos rot (1, 1, 1)
      in if checkOverlap X ctx num_entities aabb \<or> rejections = max_rejections
         then Some (pos, rot, rotation, g3, rejections)
         else placementLoop X ctx num_entities obj g3 (rejections + 1))"

text \<open>What the two box loops do with an accepted pose (\<open>obj\<close> is \<open>Box\<close> or \<open>Cube\<close>);
  the state is the world and \<open>num_entities\<close>.\<close>

definition place_box ::
  "Ext \<Rightarrow> SimObject \<Rightarrow> Vector2 \<Rightarrow> int \<Rightarrow> Engine \<times> nat \<Rightarrow> error + (Engine \<times> nat)" where
  "place_box X obj sz box_idx st =
     (let ctx = fst st; num_entities = snd st
      in case placementLoop X ctx num_entities obj (rng ctx) 0 of
           None \<Rightarrow> Inl NoReturn
         | Some (pos, rot, box_rotation, g, rejections) \<Rightarrow>
             let e = fst (makeDynObject_default (ctx\<lparr>rng := g\<rparr>) pos rot obj);
                 ctx1 = snd (makeDynObject_default (ctx\<lparr>rng := g\<rparr>) pos rot obj)
             in if 0 \<le> box_idx \<and> nat box_idx < length (boxes ctx1)
                then bindE (push_entity ctx1 num_entities e) (\<lambda>r.
                       Inr ((fst r)\<lparr>boxes := (boxes (fst r))[nat box_idx := e],
                                    boxSizes := (boxSizes (fst r))[nat box_idx := sz],
                                    boxRotations :=
                                      (boxRotations (fst r))[nat box_idx := box_rotation]\<rparr>,
                            snd r))
                else Inl TableOverflow)"

text \<open>The ramp loop's use of an accepted pose.\<close>

definition place_ramp :: "Ext \<Rightarrow> nat \<Rightarrow> Engine \<times> nat \<Rightarrow> error + (Engine \<times> nat)" where
  "place_ramp X i st =
     (let ctx = fst st; num_entities = snd st
      in case placementLoop X ctx num_entities Ramp (rng ctx) 0 of
           None \<Rightarrow> Inl NoReturn
         | Some (pos, rot, ramp_rotation, g, rejections) \<Rightarrow>
             let e = fst (makeDynObject_default (ctx\<lparr>rng := g\<rparr>) pos rot Ramp);
                 ctx1 = snd (makeDynObject_default (ctx\<lparr>rng := g\<rparr>) pos rot Ramp)
             in if i < length (ramps ctx1)
                then bindE (push_entity ctx1 num_entities e) (\<lambda>r.
                       Inr ((fst r)\<lparr>ramps := (ramps (fst r))[i := e],
                                    rampRotations := (rampRotations (fst r))[i := ramp_rotation]\<rparr>,
                            snd r))
                else Inl TableOverflow)"

text \<open>The hider and seeker loops' use of an accepted pose; agents are not entered
  into \<open>all_entities\<close>.\<close>

definition place_agent :: "Ext \<Rightarrow> AgentType \<Rightarrow> nat \<Rightarrow> nat \<Rightarrow> Engine \<Rightarrow> error + Engine" where
  "place_agent X ty num_entities i ctx =
     (case placementLoop X ctx num_entities Agent (rng ctx) 0 of
        None \<Rightarrow> Inl NoReturn
      | Some (pos, rot, rotation, g, rejections) \<Rightarrow>
          bindE (makeDynAgent (ctx\<lparr>rng := g\<rparr>) pos rot ty) (\<lambda>r. Inr (snd r)))"

text \<open>Modelled from the spec: \<open>populateStaticGeometry\<close> is declared in geo_gen.hpp and
  its body is not among the sources. It populates the static arena geometry
  (walls) first, which is the baseline of the overlap checks, and returns the
  number of entities it entered into \<open>all_entities\<close>. The walls themselves
  (pose and scale) and the samples drawn for them come from the service
  \<open>populateStaticGeometry\<close>; each is created static and unownable.\<close>

fun place_walls ::
  "(Vector3 \<times> Quat \<times> Vector3) list \<Rightarrow> Engine \<times> nat \<Rightarrow> error + (Engine \<times> nat)" where
  "place_walls [] st = Inr st"
| "place_walls ((pos, rot, scale) # ws) st =
     (let e = fst (makeDynObject (fst st) pos rot Wall Static Unownable scale);
          ctx1 = snd (makeDynObject (fst st) pos rot Wall Static Unownable scale)
      in case push_entity ctx1 (snd st) e of
           Inl err \<Rightarrow> Inl err
         | Inr st' \<Rightarrow> place_walls ws st')"

definition populate_static :: "Ext \<Rightarrow> Engine \<Rightarrow> error + (Engine \<times> nat)" where
  "populate_static X ctx =
     (let walls = fst (populateStaticGeometry X (rng ctx) (snd bounds, snd bounds));
          g = snd (populateStaticGeometry X (rng ctx) (snd bounds, snd bounds))
      in place_walls walls (ctx\<lparr>rng := g\<rparr>, 0))"

text \<open>\<open>generateTrainingEnvironment\<close> (level_gen.cpp). The second \<open>assert\<close>
  (\<open>num_elongated + num_cubes == total_num_boxes\<close>) is kept as written.\<close>

definition generateTrainingEnvironment :: "Ext \<Rightarrow> Engine \<Rightarrow> int \<Rightarrow> int \<Rightarrow> error + Engine" where
  "generateTrainingEnvironment X ctx num_hiders num_seekers =
     (let g0 = rng ctx;
          total_num_boxes = sampleI32 X g0 3 10;
          g1 = rng_advance g0
      in if \<not> total_num_boxes \<le> maxBoxes then Inl AssertFailed
         else
           let num_elongated = sampleI32 X g1 3 total_num_boxes;
               g2 = rng_advance g1;
               num_cubes = total_num_boxes - num_elongated
           in if \<not> num_elongated + num_cubes = total_num_boxes then Inl AssertFailed
              else
                bindE (populate_static X (ctx\<lparr>rng := g2\<rparr>)) (\<lambda>st0.
                bindE (forE [0..<nat num_elongated]
                         (\<lambda>i. place_box X Box (8, 1.5) (int i)) st0) (\<lambda>st1.
                bindE (forE [0..<nat num_cubes]
                         (\<lambda>i. place_box X Cube (2, 2) (int i + num_elongated)) st1) (\<lambda>st2.
                bindE (forE [0..<nat maxRamps] (place_ramp X)
                         ((fst st2)\<lparr>numActiveBoxes := total_num_boxes\<rparr>, snd st2)) (\<lambda>st3.
                bindE (forE [0..<nat num_hiders] (place_agent X Hider (snd st3))
                         ((fst st3)\<lparr>numActiveRamps := maxRamps\<rparr>)) (\<lambda>ctx4.
                bindE (forE [0..<nat num_seekers] (place_agent X Seeker (snd st3)) ctx4) (\<lambda>ctx5.
                let e = fst (makePlane ctx5 (0, 0, 0) (angleAxis X 0 (1, 0, 0)));
                    ctx6 = snd (makePlane ctx5 (0, 0, 0) (angleAxis X 0 (1, 0, 0)))
                in bindE (push_entity ctx6 (snd st3) e) (\<lambda>r.
                     Inr ((fst r)\<lparr>numObstacles := int (snd r)\<rparr>)))))))))"

subsection \<open>The fixed debug scenes\<close>

text \<open>\<open>all_entities[n++] = make...(...)\<close>: enter a freshly created entity.\<close>

definition push_made :: "Entity \<times> Engine \<Rightarrow> nat \<Rightarrow> error + (Engine \<times> nat)" where
  "push_made r num_entities = push_entity (snd r) num_entities (fst r)"

definition toRadians :: "Ext \<Rightarrow> real \<Rightarrow> real" where
  "toRadians X d = d * (pi_f X / 180)"

definition floor_plane :: "Ext \<Rightarrow> Engine \<Rightarrow> Entity \<times> Engine" where
  "floor_plane X ctx = makePlane ctx (0, 0, 0) (angleAxis X 0 (1, 0, 0))"

definition singleCubeLevel :: "Ext \<Rightarrow> Engine \<Rightarrow> Vector3 \<Rightarrow> Quat \<Rightarrow> error + Engine" where
  "singleCubeLevel X ctx pos rot =
     bindE (push_made (makeDynObject_default ctx pos rot Cube) 0) (\<lambda>s1.
     bindE (push_made (floor_plane X (fst s1)) (snd s1)) (\<lambda>s2.
     Inr ((fst s2)\<lparr>numObstacles := int (snd s2)\<rparr>)))"

definition level2 :: "Ext \<Rightarrow> Engine \<Rightarrow> error + Engine" where
  "level2 X ctx =
     singleCubeLevel X ctx (0, 0, 5)
       (quat_normalize X (quat_normalize X
          (quat_mul X (angleAxis X (atanf X (1 / sqrtf X 2)) (0, 1, 0))
                      (angleAxis X (toRadians X 45) (1, 0, 0)))))"

definition level3 :: "Ext \<Rightarrow> Engine \<Rightarrow> error + Engine" where
  "level3 X ctx = singleCubeLevel X ctx (0, 0, 5) (angleAxis X 0 (0, 0, 1))"

definition level4 :: "Ext \<Rightarrow> Engine \<Rightarrow> error + Engine" where
  "level4 X ctx =
     (let pos = (0, 0, 5);
          rot = quat_normalize X (angleAxis X (toRadians X 45) (0, 1, 0))
      in bindE (push_made (makeDynObject ctx (vadd pos (0, 0, 5)) rot Box
                             Dynamic None_owner (1, 1, 1)) 0) (\<lambda>s1.
         bindE (push_made (floor_plane X (fst s1)) (snd s1)) (\<lambda>s2.
         Inr ((fst s2)\<lparr>numObstacles := int (snd s2)\<rparr>))))"

text \<open>Level 5 does not store \<open>numObstacles\<close>.\<close>

definition level5 :: "Ext \<Rightarrow> Engine \<Rightarrow> error + Engine" where
  "level5 X ctx =
     bindE (push_made (floor_plane X ctx) 0) (\<lambda>s1.
     bindE (makeDynAgent (fst s1) (0, 0, 1) (1, 0, 0, 0) Hider) (\<lambda>r. Inr (snd r)))"

definition level6 :: "Ext \<Rightarrow> Engine \<Rightarrow> error + Engine" where
  "level6 X ctx =
     bindE (push_made (floor_plane X ctx) 0) (\<lambda>s1.
     bindE (push_made (makeDynObject (fst s1) (0, 0, 0) (angleAxis X 0 (1, 0, 0)) Wall
                         Static Unownable (10, 0.2, 1)) (snd s1)) (\<lambda>s2.
     bindE (push_made (makeDynObject (fst s2) (0, - 5, 1) (angleAxis X 0 (1, 0, 0)) Cube
                         Dynamic None_owner (1, 1, 1)) (snd s2)) (\<lambda>s3.
     bindE (makeDynAgent (fst s3) (- 15, - 15, 1.5)
              (angleAxis X (toRadians X (- 45)) (0, 0, 1)) Hider) (\<lambda>r1.
     bindE (makeDynAgent (snd r1) (- 15, - 10, 1.5)
              (angleAxis X (toRadians X 45) (0, 0, 1)) Seeker) (\<lambda>r2.
     Inr ((snd r2)\<lparr>numObstacles := int (snd s3)\<rparr>))))))"

definition side_planes :: "Ext \<Rightarrow> Engine \<times> nat \<Rightarrow> error + Engine" where
  "side_planes X s =
     bindE (push_made (floor_plane X (fst s)) (snd s)) (\<lambda>s1.
     bindE (push_made (makePlane (fst s1) (- 20, 0, 0)
                         (angleAxis X (pi_f X / 2) (0, 1, 0))) (snd s1)) (\<lambda>s2.
     bindE (push_made (makePlane (fst s2) (20, 0, 0)
                         (angleAxis X (- (pi_f X / 2)) (0, 1, 0))) (snd s2)) (\<lambda>s3.
     Inr ((fst s3)\<lparr>numObstacles := int (snd s3)\<rparr>))))"

definition level7 :: "Ext \<Rightarrow> Engine \<Rightarrow> error + Engine" where
  "level7 X ctx =
     (let pos = (0, 0, 5);
          rot = quat_normalize X
                  (quat_mul X (angleAxis X (toRadians X 45) (0, 1, 0))
                              (angleAxis X (toRadians X 40) (1, 0, 0)))
      in bindE (push_made (makeDynObject_default ctx pos rot Cube) 0) (\<lambda>s1.
         bindE (push_made (makeDynObject (fst s1) (vadd pos (0, 0, 5)) rot Cube
                             Dynamic None_owner (1, 1, 1)) (snd s1)) (\<lambda>s2.
         side_planes X s2)))"

definition level8 :: "Ext \<Rightarrow> Engine \<Rightarrow> error + Engine" where
  "level8 X ctx =
     (let ramp_pos = (0, 0, 10);
          ramp_rot = quat_normalize X
                       (quat_mul X (quat_mul X (angleAxis X (toRadians X 25) (0, 1, 0))
                                               (angleAxis X (toRadians X 90) (0, 0, 1)))
                                   (angleAxis X (toRadians X 45) (1, 0, 0)));
          r0 = makeDynObject_default ctx ramp_pos ramp_rot Ramp
      in bindE (push_made r0 0) (\<lambda>s1.
         let ctx1 = (fst s1)\<lparr>get_Velocity :=
                       (get_Velocity (fst s1))
                         (fst r0 := ((0, 0, - 30), snd (get_Velocity (fst s1) (fst r0))))\<rparr>
         in bindE (push_made (makeDynObject ctx1 (- 0.5, - 0.5, 1)
                     (quat_normalize X
                        (quat_mul X (angleAxis X (toRadians X (- 90)) (1, 0, 0))
                                    (angleAxis X (pi_f X) (0, 1, 0))))
                     Ramp Static None_owner (1, 1, 1)) (snd s1)) (\<lambda>s2.
            side_planes X s2)))"

definition generateDebugEnvironment :: "Ext \<Rightarrow> Engine \<Rightarrow> int \<Rightarrow> error + Engine" where
  "generateDebugEnvironment X ctx level_id =
     (if level_id = 2 then level2 X ctx
      else if level_id = 3 then level3 X ctx
      else if level_id = 4 then level4 X ctx
      else if level_id = 5 then level5 X ctx
      else if level_id = 6 then level6 X ctx
      else if level_id = 7 then level7 X ctx
      else if level_id = 8 then level8 X ctx
      else Inr ctx)"

text \<open>The loop at the end of \<open>generateEnvironment\<close>: every interface slot from
  \<open>numActiveAgents\<close> up to \<open>maxAgentsPerWorld\<close> gets a null \<open>SimEntity\<close> and mask 0.\<close>

definition deactivate_slot :: "nat \<Rightarrow> Engine \<Rightarrow> Engine" where
  "deactivate_slot i ctx =
     ctx\<lparr>agents := (agents ctx)[i := (agents ctx ! i)\<lparr>sim_e := None, mask := 0\<rparr>]\<rparr>"

definition generateEnvironment :: "Ext \<Rightarrow> Engine \<Rightarrow> int \<Rightarrow> int \<Rightarrow> int \<Rightarrow> error + Engine" where
  "generateEnvironment X ctx level_id num_hiders num_seekers =
     bindE (if level_id = 1 then generateTrainingEnvironment X ctx num_hiders num_seekers
            else generateDebugEnvironment X ctx level_id) (\<lambda>ctx1.
       Inr (fold deactivate_slot
              [nat (numActiveAgents ctx1)..<nat (maxAgentsPerWorld ctx1)] ctx1))"

section \<open>Episode reset and the tick pipeline\<close>

text \<open>\<open>initEpisodeRNG\<close> (sim.cpp); \<open>curWorldEpisode\<close> is a \<open>uint32_t\<close>.\<close>

definition initEpisodeRNG :: "Ext \<Rightarrow> Engine \<Rightarrow> Engine" where
  "initEpisodeRNG X ctx =
     (let new_rnd_counter =
            (if useFixedWorld ctx then (0, 0)
             else if loadCheckpoint ctx = 1 then checkpoint ctx
             else (curWorldEpisode ctx, worldID ctx));
          ctx1 = (if \<not> useFixedWorld ctx \<and> loadCheckpoint ctx \<noteq> 1
                  then ctx\<lparr>curWorldEpisode := (curWorldEpisode ctx + 1) mod 2 ^ 32\<rparr>
                  else ctx)
      in ctx1\<lparr>curEpisodeRNDCounter := new_rnd_counter,
              rng := \<lparr>rng_key = split_i X (initRandKey ctx1)
                                  (fst new_rnd_counter) (snd new_rnd_counter),
                      rng_count = 0\<rparr>\<rparr>)"

text \<open>The lambda \<open>destroyAgent\<close> of \<open>resetEnvironment\<close>.\<close>

definition destroyAgent :: "Entity \<Rightarrow> Engine \<Rightarrow> Engine" where
  "destroyAgent e ctx =
     (let ctx1 = (case get_GrabData ctx e of
                    Some constraint_entity \<Rightarrow> destroyEntity ctx constraint_entity
                  | None \<Rightarrow> ctx)
      in ctx1\<lparr>alive := alive ctx1 - {e}\<rparr>)"

text \<open>\<open>resetEnvironment\<close> (sim.cpp).\<close>

definition resetEnvironment :: "Ext \<Rightarrow> Engine \<Rightarrow> Engine" where
  "resetEnvironment X ctx =
     (let ctx1 = ctx\<lparr>curEpisodeStep := 0\<rparr>;
          ctx2 = ctx1\<lparr>alive := alive ctx1 - set (take (nat (numObstacles ctx1)) (obstacles ctx1)),
                      numObstacles := 0, numActiveBoxes := 0, numActiveRamps := 0\<rparr>;
          ctx3 = (fold destroyAgent (take (nat (numHiders ctx2)) (hiders ctx2)) ctx2)
                   \<lparr>numHiders := 0\<rparr>;
          ctx4 = (fold destroyAgent (take (nat (numSeekers ctx3)) (seekers ctx3)) ctx3)
                   \<lparr>numSeekers := 0\<rparr>
      in initEpisodeRNG X (ctx4\<lparr>numActiveAgents := 0\<rparr>))"

text \<open>\<open>resetSystem\<close> (sim.cpp); the \<open>WorldReset\<close> singleton is the field \<open>resetLevel\<close>.\<close>

definition resetSystem :: "Ext \<Rightarrow> Engine \<Rightarrow> error + Engine" where
  "resetSystem X ctx =
     (let level = (if \<not> ignoreEpisodeLength ctx \<and> curEpisodeStep ctx = episodeLen - 1
                   then 1 else resetLevel ctx)
      in bindE
           (if level \<noteq> 0 then
              let ctx1 = (resetEnvironment X ctx)\<lparr>resetLevel := 0\<rparr>;
                  num_hiders = sampleI32 X (rng ctx1) (minHiders ctx1) (maxHiders ctx1 + 1);
                  g1 = rng_advance (rng ctx1);
                  num_seekers = sampleI32 X g1 (minSeekers ctx1) (maxSeekers ctx1 + 1);
                  g2 = rng_advance g1
              in generateEnvironment X (ctx1\<lparr>rng := g2\<rparr>) level num_hiders num_seekers
            else Inr (ctx\<lparr>curEpisodeStep := curEpisodeStep ctx + 1\<rparr>))
           (\<lambda>ctx'. Inr (ctx'\<lparr>hiderTeamReward := 1\<rparr>)))"

text \<open>The configuration of a world (\<open>struct Config\<close>; the two flags of \<open>simFlags\<close>
  that the simulation reads).\<close>

record Config =
  cfg_useFixedWorld :: bool
  cfg_ignoreEpisodeLength :: bool
  cfg_initRandKey :: RandKey
  cfg_minHiders :: int
  cfg_maxHiders :: int
  cfg_minSeekers :: int
  cfg_maxSeekers :: int

text \<open>
  The constructor \<open>Sim::Sim\<close>. \<open>mem\<close> is the world's memory before construction:
  the constructor assigns the scalar fields listed here, every other field keeps
  the value \<open>mem\<close> has. The tables are members of fixed size (\<open>hiders[3]\<close>,
  \<open>seekers[3]\<close>, \<open>boxes[maxBoxes]\<close>, \<open>boxSizes[maxBoxes]\<close>, \<open>boxRotations[maxBoxes]\<close>,
  \<open>ramps[maxRamps]\<close>, \<open>rampRotations[maxRamps]\<close>) or the allocation of
  \<open>max_total_entities\<close> entries (\<open>obstacles\<close>): each keeps what \<open>mem\<close> holds, cut or
  filled up to its size. \<open>rows i\<close> is the content of the \<open>i\<close>-th interface row as
  \<open>makeEntity\<close> returns it. The \<open>assert\<close> is the only validation of the
  configuration.
\<close>

definition Sim_init ::
  "Config \<Rightarrow> int \<Rightarrow> Engine \<Rightarrow> (nat \<Rightarrow> AgentInterface) \<Rightarrow> error + Engine" where
  "Sim_init cfg world_idx mem rows =
     (let maxAgentsPerWorld' = cfg_maxHiders cfg + cfg_maxSeekers cfg
      in if \<not> (maxAgentsPerWorld' \<le> maxAgents \<and> maxAgentsPerWorld' > 0)
         then Inl AssertFailed
         else Inr (mem\<lparr>useFixedWorld := cfg_useFixedWorld cfg,
                       ignoreEpisodeLength := cfg_ignoreEpisodeLength cfg,
                       initRandKey := cfg_initRandKey cfg,
                       curWorldEpisode := 0,
                       worldID := world_idx,
                       hiders := take 3 (hiders mem @ replicate 3 0),
                       seekers := take 3 (seekers mem @ replicate 3 0),
                       boxes := take (nat maxBoxes) (boxes mem @ replicate (nat maxBoxes) 0),
                       boxSizes := take (nat maxBoxes)
                                     (boxSizes mem @ replicate (nat maxBoxes) (0, 0)),
                       boxRotations := take (nat maxBoxes)
                                         (boxRotations mem @ replicate (nat maxBoxes) 0),
                       ramps := take (nat maxRamps) (ramps mem @ replicate (nat maxRamps) 0),
                       rampRotations := take (nat maxRamps)
                                          (rampRotations mem @ replicate (nat maxRamps) 0),
                       obstacles := take (nat max_total_entities)
                                      (obstacles mem @ replicate (nat max_total_entities) 0),
                       numObstacles := 0,
                       numHiders := 0,
                       numSeekers := 0,
                       numActiveAgents := 0,
                       curEpisodeStep := 0,
                       minHiders := cfg_minHiders cfg,
                       maxHiders := cfg_maxHiders cfg,
                       minSeekers := cfg_minSeekers cfg,
                       maxSeekers := cfg_maxSeekers cfg,
                       maxAgentsPerWorld := maxAgentsPerWorld',
                       resetLevel := 1,
                       loadCheckpoint := 0,
                       agents := map rows [0..<nat maxAgentsPerWorld'],
                       hiderTeamReward := 1\<rparr>))"

subsection \<open>Task graphs\<close>

text \<open>
  A \<open>ParallelForNode\<close> runs a system once for every row of the \<open>AgentInterface\<close>
  archetype. The model runs the rows in table order; the system gets the world
  and the row, and returns the world and the row as it leaves them.
\<close>

definition run_row ::
  "(Engine \<Rightarrow> nat \<Rightarrow> AgentInterface \<Rightarrow> Engine \<times> AgentInterface) \<Rightarrow> nat \<Rightarrow> Engine \<Rightarrow> Engine" where
  "run_row f i ctx =
     (let r = f ctx i (agents ctx ! i)
      in (fst r)\<lparr>agents := (agents (fst r))[i := snd r]\<rparr>)"

definition forAgents ::
  "(Engine \<Rightarrow> nat \<Rightarrow> AgentInterface \<Rightarrow> Engine \<times> AgentInterface) \<Rightarrow> Engine \<Rightarrow> Engine" where
  "forAgents f ctx = fold (run_row f) [0..<length (agents ctx)] ctx"

definition movement_row :: "Ext \<Rightarrow> Engine \<Rightarrow> nat \<Rightarrow> AgentInterface \<Rightarrow> Engine \<times> AgentInterface" where
  "movement_row X ctx i row =
     (movementSystem X ctx (action row) (sim_e row) (agent_type row), row)"

definition action_row :: "Ext \<Rightarrow> Engine \<Rightarrow> nat \<Rightarrow> AgentInterface \<Rightarrow> Engine \<times> AgentInterface" where
  "action_row X ctx i row =
     (let r = actionSystem X ctx (action row) (sim_e row) (agent_type row)
      in (fst r, row\<lparr>action := snd r\<rparr>))"

definition rewards_row :: "Engine \<Rightarrow> nat \<Rightarrow> AgentInterface \<Rightarrow> Engine \<times> AgentInterface" where
  "rewards_row ctx i row =
     (let r = outputRewardsDonesSystem ctx (sim_e row) (agent_type row)
                (reward_v row) (done_v row)
      in (ctx, row\<lparr>reward_v := fst r, done_v := snd r\<rparr>))"

definition observations_row ::
  "Ext \<Rightarrow> Engine \<Rightarrow> nat \<Rightarrow> AgentInterface \<Rightarrow> Engine \<times> AgentInterface" where
  "observations_row X ctx i row =
     (let r = collectObservationsSystem X ctx i (sim_e row)
                (agent_obs row) (box_obs row) (ramp_obs row) (prep_counter row)
      in (ctx, row\<lparr>agent_obs := fst r, box_obs := fst (snd r),
                    ramp_obs := fst (snd (snd r)), prep_counter := snd (snd (snd r))\<rparr>))"

text \<open>
  Where a store past a row's box array lands. The \<open>BoxVisibilityMasks\<close> of the rows
  are one column of the table, \<open>maxBoxes\<close> floats per row, and the rows of a world
  lie one after the other in the order of \<open>agentInterfaces\<close> (the GPU init graph
  sorts the interfaces by world). So index \<open>k\<close> of the array of row \<open>i\<close> is index
  \<open>k mod maxBoxes\<close> of the array of row \<open>i + k div maxBoxes\<close>: the stores at 16 and 17
  land at indices 7 and 8 of row \<open>i + 1\<close>, the stores at 18 to 24 at indices 0 to 6 of
  row \<open>i + 2\<close>. A store past the last row of this world leaves the world (it lands in
  the rows of the next world, or past the table) and is dropped; stores that the
  last rows of the world before this one make into rows 0 and 1 are not part of
  this one-world model.
\<close>

definition store_past :: "nat \<Rightarrow> nat \<times> real \<Rightarrow> AgentInterface list \<Rightarrow> AgentInterface list" where
  "store_past i s rows =
     (let r = i + fst s div nat maxBoxes; k = fst s mod nat maxBoxes
      in if r < length rows
         then rows[r := (rows ! r)\<lparr>box_vis := (box_vis (rows ! r))[k := snd s]\<rparr>]
         else rows)"

definition visibility_row ::
  "Ext \<Rightarrow> Engine \<Rightarrow> nat \<Rightarrow> AgentInterface \<Rightarrow> Engine \<times> AgentInterface" where
  "visibility_row X ctx i row =
     (let r = computeVisibilitySystem X ctx i (sim_e row) (agent_type row)
                (agent_vis row) (box_vis row) (ramp_vis row);
          past = snd (snd (snd (snd r)))
      in ((fst r)\<lparr>agents := fold (store_past i) past (agents (fst r))\<rparr>,
          row\<lparr>agent_vis := fst (snd r), box_vis := fst (snd (snd r)),
              ramp_vis := fst (snd (snd (snd r)))\<rparr>))"

text \<open>The physics substeps of one tick write the position, rotation and velocity
  columns.\<close>

definition physics_node :: "Ext \<Rightarrow> Engine \<Rightarrow> Engine" where
  "physics_node X ctx =
     ctx\<lparr>get_Position := fst (physicsStep X ctx),
         get_Rotation := fst (snd (physicsStep X ctx)),
         get_Velocity := snd (snd (physicsStep X ctx))\<rparr>"

text \<open>\<open>processActionsAndPhysicsTasks\<close>, \<open>rewardsAndDonesTasks\<close> (\<open>rewardsVisSystem\<close> is
  compiled out by \<open>#if 0\<close>), \<open>resetTasks\<close> and \<open>observationsTasks\<close>. The lidar, camera
  and debug-position systems write only components that no other system reads
  and are left out. The sort and recycle nodes that the graphs have under
  \<open>MADRONA_GPU_MODE\<close> group the rows of the tables by world and change no
  component.\<close>

definition processActionsAndPhysicsTasks :: "Ext \<Rightarrow> Engine \<Rightarrow> Engine" where
  "processActionsAndPhysicsTasks X ctx =
     physics_node X (forAgents (action_row X) (forAgents (movement_row X) ctx))"

definition rewardsAndDonesTasks :: "Engine \<Rightarrow> Engine" where
  "rewardsAndDonesTasks ctx = forAgents rewards_row ctx"

definition observationsTasks :: "Ext \<Rightarrow> Engine \<Rightarrow> Engine" where
  "observationsTasks X ctx =
     forAgents (visibility_row X) (forAgents (observations_row X) ctx)"

text \<open>\<open>setupInitTasks\<close> and \<open>setupStepTasks\<close>: the graph run once after construction
  and the graph run on every tick.\<close>

definition init_graph :: "Ext \<Rightarrow> Engine \<Rightarrow> error + Engine" where
  "init_graph X ctx = bindE (resetSystem X ctx) (\<lambda>c. Inr (observationsTasks X c))"

definition step_graph :: "Ext \<Rightarrow> Engine \<Rightarrow> error + Engine" where
  "step_graph X ctx =
     bindE (resetSystem X (rewardsAndDonesTasks (processActionsAndPhysicsTasks X ctx)))
       (\<lambda>c. Inr (observationsTasks X c))"

text \<open>
  Between two ticks the host may write the action slots and the reset request.
  \<open>host_write acts lvl\<close> stores \<open>acts ! i\<close> into the action of row \<open>i\<close> (rows beyond
  the list keep their record) and, when \<open>lvl\<close> is given, the reset level.
\<close>

definition host_write :: "Action list \<Rightarrow> int option \<Rightarrow> Engine \<Rightarrow> Engine" where
  "host_write acts lvl ctx =
     ctx\<lparr>agents := map (\<lambda>i. if i < length acts then (agents ctx ! i)\<lparr>action := acts ! i\<rparr>
                              else agents ctx ! i) [0..<length (agents ctx)],
         resetLevel := (case lvl of None \<Rightarrow> resetLevel ctx | Some l \<Rightarrow> l)\<rparr>"

text \<open>A run: one tick per host input, stopping at the first error.\<close>

fun run_ticks :: "Ext \<Rightarrow> (Action list \<times> int option) list \<Rightarrow> Engine \<Rightarrow> error + Engine" where
  "run_ticks X [] ctx = Inr ctx"
| "run_ticks X (inp # inps) ctx =
     (case step_graph X (host_write (fst inp) (snd inp) ctx) of
        Inl err \<Rightarrow> Inl err
      | Inr ctx' \<Rightarrow> run_ticks X inps ctx')"

section \<open>Concrete worlds for evaluation\<close>

text \<open>
  Services used to evaluate the model on concrete inputs: rotations act as the
  identity, every ray returns \<open>hit\<close>, two bounding boxes overlap exactly when \<open>ov\<close>
  holds, the arena has no static walls and physics leaves every pose as it is.
  The stream key of an episode is the pair (episode counter, world index), and
  \<open>sampleI32 g a b\<close> is \<open>a\<close> plus the sum of the episode counter and the number of
  samples drawn so far, reduced modulo \<open>b - a\<close>; it lies in the half-open range
  from \<open>a\<close> to \<open>b\<close>, and is \<open>a\<close> when the range is empty.
\<close>

definition test_sampleI32 :: "RNG \<Rightarrow> int \<Rightarrow> int \<Rightarrow> int" where
  "test_sampleI32 g a b =
     (if a < b then a + (fst (rng_key g) + int (rng_count g)) mod (b - a) else a)"

definition test_ext :: "(Entity \<times> real) option \<Rightarrow> bool \<Rightarrow> Ext" where
  "test_ext hit ov =
     \<lparr>rotateVec = (\<lambda>q v. v),
      quat_inv = (\<lambda>q. q),
      quat_mul = (\<lambda>p q. p),
      quat_normalize = (\<lambda>q. q),
      angleAxis = (\<lambda>a v. (1, 0, 0, 0)),
      atan2f = (\<lambda>y x. 0),
      atanf = (\<lambda>x. 0),
      sqrtf = (\<lambda>x. 1),
      vec_normalize = (\<lambda>v. v),
      cos_angle_threshold = 0,
      pi_f = 3,
      traceRay = (\<lambda>ctx ray_o ray_d t_max. hit),
      split_i = (\<lambda>k a b. (a, b)),
      sampleI32 = test_sampleI32,
      sampleUniform = (\<lambda>g. 0),
      rigidBodyAABBs = (\<lambda>obj. ((0, 0, 0), (0, 0, 0))),
      applyTRS = (\<lambda>b p q s. b),
      overlaps = (\<lambda>a b. ov),
      populateStaticGeometry = (\<lambda>g b. ([], g)),
      physicsStep = (\<lambda>ctx. (get_Position ctx, get_Rotation ctx, get_Velocity ctx)),
      gpu_mode = False\<rparr>"

definition test_row :: AgentInterface where
  "test_row =
     \<lparr>sim_e = None, prep_counter = 0, action = neutral_action, agent_type = Seeker,
      mask = 0, agent_obs = replicate 15 zero_AgentObservation,
      box_obs = replicate 9 zero_BoxObservation,
      ramp_obs = replicate 2 zero_RampObservation,
      agent_vis = replicate 15 0, box_vis = replicate 9 0, ramp_vis = replicate 2 0,
      seed = (0, 0), reward_v = 0, done_v = 0\<rparr>"

text \<open>Zeroed memory for a world before construction.\<close>

definition test_mem :: Engine where
  "test_mem =
     \<lparr>useFixedWorld = False, ignoreEpisodeLength = False, initRandKey = (0, 0),
      curWorldEpisode = 0, curEpisodeRNDCounter = (0, 0),
      rng = \<lparr>rng_key = (0, 0), rng_count = 0\<rparr>, worldID = 0,
      hiders = [], numHiders = 0, seekers = [], numSeekers = 0, numActiveAgents = 0,
      obstacles = [], numObstacles = 0, boxes = [], boxSizes = [], boxRotations = [],
      ramps = [], rampRotations = [], numActiveBoxes = 0, numActiveRamps = 0,
      curEpisodeStep = 0, minHiders = 0, maxHiders = 0, minSeekers = 0, maxSeekers = 0,
      maxAgentsPerWorld = 0, hiderTeamReward = 0, resetLevel = 0, loadCheckpoint = 0,
      checkpoint = (0, 0), agents = [], nextEntity = 0, alive = {},
      get_Position = (\<lambda>e. (0, 0, 0)), get_Rotation = (\<lambda>e. (1, 0, 0, 0)),
      get_Scale = (\<lambda>e. (1, 1, 1)), get_ObjectID = (\<lambda>e. Sphere),
      get_Velocity = (\<lambda>e. ((0, 0, 0), (0, 0, 0))),
      get_ResponseType = (\<lambda>e. Dynamic), get_OwnerTeam = (\<lambda>e. None_owner),
      get_ExternalForce = (\<lambda>e. (0, 0, 0)), get_ExternalTorque = (\<lambda>e. (0, 0, 0)),
      get_GrabData = (\<lambda>e. None), joints = (\<lambda>e. None)\<rparr>"

text \<open>A world at episode step \<open>k\<close> in which entity 7 is a movable, unowned box with
  the given mobility and owner.\<close>

definition test_world :: "int \<Rightarrow> ResponseType \<Rightarrow> OwnerTeam \<Rightarrow> Engine" where
  "test_world k rt ow =
     test_mem\<lparr>curEpisodeStep := k, hiderTeamReward := 1, nextEntity := 8,
              alive := {0, 1, 7},
              get_ResponseType := (get_ResponseType test_mem)(7 := rt),
              get_OwnerTeam := (get_OwnerTeam test_mem)(7 := ow, 0 := Unownable, 1 := Unownable),
              get_ObjectID := (get_ObjectID test_mem)(7 := Box, 0 := Agent, 1 := Agent)\<rparr>"

text \<open>A configuration with one or two hiders and no or one seeker.\<close>

definition test_cfg :: "int \<Rightarrow> int \<Rightarrow> int \<Rightarrow> int \<Rightarrow> Config" where
  "test_cfg min_h max_h min_s max_s =
     \<lparr>cfg_useFixedWorld = False, cfg_ignoreEpisodeLength = False, cfg_initRandKey = (0, 0),
      cfg_minHiders = min_h, cfg_maxHiders = max_h,
      cfg_minSeekers = min_s, cfg_maxSeekers = max_s\<rparr>"

text \<open>An action record with a move, a turn and the lock bit set.\<close>

definition test_action :: Action where
  "test_action = \<lparr>act_x = 10, act_y = 5, act_r = 7, act_g = 0, act_l = 1\<rparr>"

section \<open>Notions used to state the properties\<close>

declare placementLoop.simps [code]

text \<open>The generator after \<open>k\<close> more samples.\<close>

definition rng_skip :: "nat \<Rightarrow> RNG \<Rightarrow> RNG" where
  "rng_skip k g = g\<lparr>rng_count := rng_count g + k\<rparr>"

text \<open>One sampling attempt of the placement loop with the generator in state \<open>g\<close>:
  the position, the rotation and the rotation angle it samples (three samples),
  and whether \<open>checkOverlap\<close> accepts the bounding box of \<open>obj\<close> at that pose.\<close>

definition pose_at :: "Ext \<Rightarrow> RNG \<Rightarrow> Vector3 \<times> Quat \<times> real" where
  "pose_at X g =
     ((fst bounds + sampleUniform X g * bounds_diff,
       fst bounds + sampleUniform X (rng_advance g) * bounds_diff, 1),
      angleAxis X (sampleUniform X (rng_advance (rng_advance g)) * pi_f X) (0, 0, 1),
      sampleUniform X (rng_advance (rng_advance g)) * pi_f X)"

definition accepts :: "Ext \<Rightarrow> Engine \<Rightarrow> nat \<Rightarrow> SimObject \<Rightarrow> RNG \<Rightarrow> bool" where
  "accepts X ctx n obj g =
     checkOverlap X ctx n
       (applyTRS X (rigidBodyAABBs X obj) (fst (pose_at X g)) (fst (snd (pose_at X g))) (1, 1, 1))"

text \<open>The lengths of the fixed tables and of the interface table.\<close>

definition tables :: "Engine \<Rightarrow> nat \<times> nat \<times> nat \<times> nat \<times> nat \<times> nat \<times> nat" where
  "tables ctx = (length (hiders ctx), length (seekers ctx), length (boxes ctx),
                 length (boxSizes ctx), length (ramps ctx), length (obstacles ctx),
                 length (agents ctx))"

text \<open>\<open>e\<close> is a live entity of kind \<open>obj\<close>.\<close>

definition is_obj :: "Engine \<Rightarrow> SimObject \<Rightarrow> Entity \<Rightarrow> bool" where
  "is_obj ctx obj e \<longleftrightarrow> e < nextEntity ctx \<and> e \<in> alive ctx \<and> get_ObjectID ctx e = obj"

text \<open>\<open>ctx'\<close> has every entity of \<open>ctx\<close>, of the same kind.\<close>

definition grows :: "Engine \<Rightarrow> Engine \<Rightarrow> bool" where
  "grows ctx ctx' \<longleftrightarrow>
     nextEntity ctx \<le> nextEntity ctx' \<and> alive ctx \<subseteq> alive ctx' \<and>
     (\<forall>e<nextEntity ctx. get_ObjectID ctx' e = get_ObjectID ctx e)"

text \<open>The fields of the world that only the constructor stores, and the two checkpoint
  singletons, which no system writes.\<close>

type_synonym ConfigView =
  "bool \<times> bool \<times> RandKey \<times> int \<times> int \<times> int \<times> int \<times> int \<times> int \<times> int \<times> RandKey"

definition config_of :: "Engine \<Rightarrow> ConfigView" where
  "config_of ctx = (useFixedWorld ctx, ignoreEpisodeLength ctx, initRandKey ctx, worldID ctx,
                    minHiders ctx, maxHiders ctx, minSeekers ctx, maxSeekers ctx,
                    maxAgentsPerWorld ctx, loadCheckpoint ctx, checkpoint ctx)"

text \<open>What placing an object leaves alone, and what placing an agent leaves alone.\<close>

definition obj_frame ::
  "Engine \<Rightarrow> (nat \<times> nat \<times> nat \<times> nat \<times> nat \<times> nat \<times> nat) \<times> int \<times> int \<times> int \<times> int \<times> int \<times>
     int \<times> int \<times> AgentInterface list \<times> Entity list \<times> Entity list \<times> RandKey \<times>
     ConfigView \<times> int \<times> int" where
  "obj_frame ctx = (tables ctx, numHiders ctx, numSeekers ctx, numActiveAgents ctx,
                    numActiveBoxes ctx, numActiveRamps ctx, curEpisodeStep ctx,
                    maxAgentsPerWorld ctx, agents ctx, hiders ctx, seekers ctx,
                    curEpisodeRNDCounter ctx, config_of ctx, resetLevel ctx,
                    curWorldEpisode ctx)"

definition agent_frame ::
  "Engine \<Rightarrow> (nat \<times> nat \<times> nat \<times> nat \<times> nat \<times> nat \<times> nat) \<times> Entity list \<times> Vector2 list \<times>
     Entity list \<times> Entity list \<times> int \<times> int \<times> int \<times> int \<times> RandKey \<times>
     ConfigView \<times> int \<times> int" where
  "agent_frame ctx = (tables ctx, boxes ctx, boxSizes ctx, ramps ctx, obstacles ctx,
                      numActiveBoxes ctx, numActiveRamps ctx, curEpisodeStep ctx,
                      maxAgentsPerWorld ctx, curEpisodeRNDCounter ctx, config_of ctx,
                      resetLevel ctx, curWorldEpisode ctx)"

text \<open>Row \<open>r'\<close> is row \<open>r\<close> after \<open>makeAgent\<close> has activated it for a live agent entity
  of world \<open>c\<close>.\<close>

definition activated :: "Engine \<Rightarrow> AgentType \<Rightarrow> AgentInterface \<Rightarrow> AgentInterface \<Rightarrow> bool" where
  "activated c ty r r' \<longleftrightarrow>
     (\<exists>e. is_obj c Agent e \<and>
          r' = r\<lparr>agent_type := ty, sim_e := Some e, mask := 1,
                 seed := curEpisodeRNDCounter c, action := neutral_action\<rparr>)"

text \<open>The two counts \<open>generateTrainingEnvironment\<close> samples first, and the static walls
  it places, for a world whose generator is \<open>rng ctx\<close> on entry.\<close>

definition sampled_total :: "Ext \<Rightarrow> Engine \<Rightarrow> int" where
  "sampled_total X ctx = sampleI32 X (rng ctx) 3 10"

definition sampled_elongated :: "Ext \<Rightarrow> Engine \<Rightarrow> int" where
  "sampled_elongated X ctx = sampleI32 X (rng_advance (rng ctx)) 3 (sampled_total X ctx)"

definition static_walls :: "Ext \<Rightarrow> Engine \<Rightarrow> (Vector3 \<times> Quat \<times> Vector3) list" where
  "static_walls X ctx =
     fst (populateStaticGeometry X (rng_advance (rng_advance (rng ctx))) (snd bounds, snd bounds))"

text \<open>
  The contract of the library's integer sampler that the code relies on
  (\<open>sampleI32(3, 10)\<close> under \<open>assert(total_num_boxes <= maxBoxes)\<close>,
  \<open>sampleI32(minHiders, maxHiders + 1)\<close>): the result lies in the half-open range
  from \<open>a\<close> to \<open>b\<close>; on an empty range it is \<open>a\<close>.
\<close>

definition sampleI32_in_range :: "Ext \<Rightarrow> bool" where
  "sampleI32_in_range X \<longleftrightarrow>
     (\<forall>g a b. (a < b \<longrightarrow> a \<le> sampleI32 X g a b \<and> sampleI32 X g a b < b) \<and>
              (b \<le> a \<longrightarrow> sampleI32 X g a b = a))"

text \<open>The part of that contract that concerns a non-empty range: nothing is said about
  what the sampler returns on an empty one.\<close>

definition sampleI32_half_open :: "Ext \<Rightarrow> bool" where
  "sampleI32_half_open X \<longleftrightarrow>
     (\<forall>g a b. a < b \<longrightarrow> a \<le> sampleI32 X g a b \<and> sampleI32 X g a b < b)"

text \<open>The static walls leave room in the \<open>obstacles\<close> allocation for the boxes, the
  ramps and the floor plane.\<close>

definition static_fits :: "Ext \<Rightarrow> bool" where
  "static_fits X \<longleftrightarrow>
     (\<forall>g b. int (length (fst (populateStaticGeometry X g b))) + maxBoxes + maxRamps + 1
             \<le> max_total_entities)"

text \<open>The state of the tables in which \<open>resetEnvironment\<close> leaves a constructed world:
  every fixed table has its declared length and no agent is active.\<close>

definition fresh_tables :: "Engine \<Rightarrow> bool" where
  "fresh_tables ctx \<longleftrightarrow>
     length (hiders ctx) = 3 \<and> length (seekers ctx) = 3 \<and>
     length (boxes ctx) = nat maxBoxes \<and> length (boxSizes ctx) = nat maxBoxes \<and>
     length (ramps ctx) = nat maxRamps \<and> length (obstacles ctx) = nat max_total_entities \<and>
     numHiders ctx = 0 \<and> numSeekers ctx = 0 \<and> numActiveAgents ctx = 0"

text \<open>A constructed world over zeroed memory (the zeroed memory itself when the
  constructor's assertion fails).\<close>

definition test_sim :: "Config \<Rightarrow> Engine" where
  "test_sim cfg =
     (case Sim_init cfg 0 test_mem (\<lambda>i. test_row) of Inr c \<Rightarrow> c | Inl err \<Rightarrow> test_mem)"

text \<open>A world whose only obstacle is entity 7.\<close>

definition crowded_world :: Engine where
  "crowded_world = (test_world 0 Dynamic None_owner)\<lparr>obstacles := [7]\<rparr>"

text \<open>The constructed world for one hider and at most one seeker, with the
  generator as \<open>resetSystem\<close> leaves it after sampling the two team sizes.\<close>

definition test_fresh :: Engine where
  "test_fresh = (test_sim (test_cfg 1 1 0 1))\<lparr>rng := \<lparr>rng_key = (0, 0), rng_count = 2\<rparr>\<rparr>"

text \<open>\<open>generateTrainingEnvironment\<close> in two parts: up to the end of the ramp loop (the
  result is the world and \<open>num_entities\<close>), and from the hider loop on.\<close>

definition objects_part :: "Ext \<Rightarrow> Engine \<Rightarrow> error + (Engine \<times> nat)" where
  "objects_part X ctx =
     (let g0 = rng ctx;
          total_num_boxes = sampleI32 X g0 3 10;
          g1 = rng_advance g0
      in if \<not> total_num_boxes \<le> maxBoxes then Inl AssertFailed
         else
           let num_elongated = sampleI32 X g1 3 total_num_boxes;
               g2 = rng_advance g1;
               num_cubes = total_num_boxes - num_elongated
           in if \<not> num_elongated + num_cubes = total_num_boxes then Inl AssertFailed
              else
                bindE (populate_static X (ctx\<lparr>rng := g2\<rparr>)) (\<lambda>st0.
                bindE (forE [0..<nat num_elongated]
                         (\<lambda>i. place_box X Box (8, 1.5) (int i)) st0) (\<lambda>st1.
                bindE (forE [0..<nat num_cubes]
                         (\<lambda>i. place_box X Cube (2, 2) (int i + num_elongated)) st1) (\<lambda>st2.
                bindE (forE [0..<nat maxRamps] (place_ramp X)
                         ((fst st2)\<lparr>numActiveBoxes := total_num_boxes\<rparr>, snd st2)) (\<lambda>st3.
                Inr ((fst st3)\<lparr>numActiveRamps := maxRamps\<rparr>, snd st3))))))"

definition agents_part :: "Ext \<Rightarrow> int \<Rightarrow> int \<Rightarrow> Engine \<times> nat \<Rightarrow> error + Engine" where
  "agents_part X num_hiders num_seekers st =
     bindE (forE [0..<nat num_hiders] (place_agent X Hider (snd st)) (fst st)) (\<lambda>ctx4.
     bindE (forE [0..<nat num_seekers] (place_agent X Seeker (snd st)) ctx4) (\<lambda>ctx5.
     let e = fst (makePlane ctx5 (0, 0, 0) (angleAxis X 0 (1, 0, 0)));
         ctx6 = snd (makePlane ctx5 (0, 0, 0) (angleAxis X 0 (1, 0, 0)))
     in bindE (push_entity ctx6 (snd st) e) (\<lambda>r.
          Inr ((fst r)\<lparr>numObstacles := int (snd r)\<rparr>))))"

text \<open>
  A well-formed world: the fixed tables have their declared lengths, there is one
  interface row per agent of \<open>maxAgentsPerWorld\<close>, and the configured team ranges
  lie inside the team tables \<open>hiders[3]\<close> and \<open>seekers[3]\<close>. The constructor
  establishes the first two parts; the third is a condition on the configuration
  that the constructor does not check.
\<close>

definition wf_world :: "Engine \<Rightarrow> bool" where
  "wf_world ctx \<longleftrightarrow>
     length (hiders ctx) = 3 \<and> length (seekers ctx) = 3 \<and>
     length (boxes ctx) = nat maxBoxes \<and> length (boxSizes ctx) = nat maxBoxes \<and>
     length (ramps ctx) = nat maxRamps \<and> length (obstacles ctx) = nat max_total_entities \<and>
     length (agents ctx) = nat (maxAgentsPerWorld ctx) \<and>
     maxAgentsPerWorld ctx = maxHiders ctx + maxSeekers ctx \<and>
     0 \<le> minHiders ctx \<and> minHiders ctx \<le> maxHiders ctx \<and> maxHiders ctx \<le> 3 \<and>
     0 \<le> minSeekers ctx \<and> minSeekers ctx \<le> maxSeekers ctx \<and> maxSeekers ctx \<le> 3"


text \<open>The part of the world that no per-agent system and no physics step writes: the
  step counter, the reset request, the configuration, the table lengths, the episode
  counter, the three live counts and the box sizes.\<close>

definition core ::
  "Engine \<Rightarrow> int \<times> int \<times> ConfigView \<times>
     nat \<times> nat \<times> nat \<times> nat \<times> nat \<times> nat \<times> int \<times> int \<times> int \<times> int \<times> Vector2 list" where
  "core c = (curEpisodeStep c, resetLevel c, config_of c, length (hiders c),
             length (seekers c), length (boxes c), length (boxSizes c), length (ramps c),
             length (obstacles c), curWorldEpisode c, numActiveAgents c, numActiveBoxes c,
             numActiveRamps c, boxSizes c)"

text \<open>The components of an interface row that only level generation and the
  reward system write.\<close>

definition status :: "AgentInterface \<Rightarrow> Entity option \<times> AgentType \<times> real \<times> real \<times> int" where
  "status r = (sim_e r, agent_type r, mask r, reward_v r, done_v r)"

text \<open>The \<open>Done\<close> component after \<open>outputRewardsDonesSystem\<close> at episode step \<open>k\<close>.\<close>

definition done_next :: "int \<Rightarrow> Entity option \<Rightarrow> int \<Rightarrow> int" where
  "done_next k se d =
     (if se = None then d else if k = 0 then 0 else if k = episodeLen - 1 then 1 else d)"

text \<open>The exported observation records and visibility masks of an interface row.\<close>

definition records ::
  "AgentInterface \<Rightarrow> AgentObservation list \<times> BoxObservation list \<times> RampObservation list \<times>
     real list \<times> real list \<times> real list" where
  "records r = (agent_obs r, box_obs r, ramp_obs r, agent_vis r, box_vis r, ramp_vis r)"

text \<open>The world of a run that did not stop.\<close>

definition world_of :: "error + Engine \<Rightarrow> Engine" where
  "world_of r = (case r of Inr c \<Rightarrow> c | Inl err \<Rightarrow> test_mem)"

text \<open>Two consecutive episodes of the world for one hider and at most one seeker:
  the world after the init graph, and the world after one further tick at which
  the host requests a reset of level 1.\<close>

definition episode0 :: Engine where
  "episode0 = world_of (init_graph (test_ext None False) (test_sim (test_cfg 1 1 0 1)))"

definition episode1 :: Engine where
  "episode1 = world_of (run_ticks (test_ext None False) [([], Some 1)] episode0)"

text \<open>A row without its box visibility masks: the columns that no store past a
  box array reaches.\<close>

definition other_cols :: "AgentInterface \<Rightarrow> AgentInterface" where
  "other_cols r = r\<lparr>box_vis := []\<rparr>"

text \<open>A world with no box and no ramp whose row 0 is the agent entity 0 and whose
  row 1 is an inactive slot that holds the record of an elongated box and the box
  masks of an earlier episode.\<close>

definition stale_world :: Engine where
  "stale_world =
     (test_world 0 Dynamic None_owner)
       \<lparr>agents := [test_row\<lparr>sim_e := Some 0, mask := 1\<rparr>,
                   test_row\<lparr>box_obs := replicate 9
                     \<lparr>bo_pos = (0, 0), bo_vel = (0, 0), bo_boxSize = (8, 3 / 2),
                      bo_boxRotation = 0\<rparr>,
                     box_vis := replicate 9 1\<rparr>],
        numActiveAgents := 1\<rparr>"

text \<open>The services of \<open>test_ext\<close> in a build with \<open>MADRONA_GPU_MODE\<close>.\<close>

definition test_gpu :: Ext where
  "test_gpu = (test_ext None False)\<lparr>gpu_mode := True\<rparr>"

section \<open>The action interpreter: gating, consumption, locks\<close>

lemmas test_defs = test_world_def test_mem_def test_ext_def test_action_def

lemma grab_block_owner: "get_OwnerTeam (grab_block X ctx e) = get_OwnerTeam ctx"
  by (simp add: grab_block_def destroyEntity_def makeFixedJoint_def Let_def
      split: option.splits prod.splits)

lemma grab_block_response: "get_ResponseType (grab_block X ctx e) = get_ResponseType ctx"
  by (simp add: grab_block_def destroyEntity_def makeFixedJoint_def Let_def
      split: option.splits prod.splits)

text \<open>
  Claim C1, as the code has it. The gate of \<open>movementSystem\<close> and \<open>actionSystem\<close> is
  \<open>curEpisodeStep < numPrepSteps - 1\<close>: a seeker's input is ignored on ticks 0 to
  94 (the movement system leaves the world as it is, so it writes no force and
  no torque, and the action system changes neither the world nor the action
  record, so it performs no lock and no grab). From tick 95 on a seeker is
  processed exactly as a hider is: force and torque are written from the action
  record and the lock and grab blocks run. Hiders are processed on every tick.
\<close>

theorem seeker_gate:
  "(curEpisodeStep ctx < numPrepSteps - 1 \<longrightarrow>
      movementSystem X ctx a se Seeker = ctx \<and> actionSystem X ctx a se Seeker = (ctx, a))
   \<and> (numPrepSteps - 1 \<le> curEpisodeStep ctx \<longrightarrow>
      movementSystem X ctx a se Seeker = movementSystem X ctx a se Hider \<and>
      get_ExternalTorque (movementSystem X ctx a (Some e) Seeker) e =
        (0, 0, 3 * real_of_int (act_r a - 5)) \<and>
      get_ExternalForce (movementSystem X ctx a (Some e) Seeker) e =
        rotateVec X (get_Rotation ctx e)
          (12 * real_of_int (act_x a - 5), 12 * real_of_int (act_y a - 5), 0) \<and>
      actionSystem X ctx a (Some e) Seeker =
        (let ctx1 = (if act_l a = 1 then lock_block X ctx e Seeker else ctx);
             ctx2 = (if act_g a = 1 then grab_block X ctx1 e else ctx1)
         in (ctx2, neutral_action)))
   \<and> get_ExternalTorque (movementSystem X ctx a (Some e) Hider) e =
        (0, 0, 3 * real_of_int (act_r a - 5))
   \<and> get_ExternalForce (movementSystem X ctx a (Some e) Hider) e =
        rotateVec X (get_Rotation ctx e)
          (12 * real_of_int (act_x a - 5), 12 * real_of_int (act_y a - 5), 0)
   \<and> actionSystem X ctx a (Some e) Hider =
        (let ctx1 = (if act_l a = 1 then lock_block X ctx e Hider else ctx);
             ctx2 = (if act_g a = 1 then grab_block X ctx1 e else ctx1)
         in (ctx2, neutral_action))"
  by (cases se)
     (simp_all add: movementSystem_def actionSystem_def Let_def neutral_action_def
        move_delta_per_bucket_def turn_delta_per_bucket_def half_buckets_def
        discrete_action_buckets_def numPrepSteps_def)

text \<open>The gate at tick 94 (seeker 0 ignored) and at tick 95 (its torque written).\<close>

theorem seeker_gate_witness:
  "curEpisodeStep (test_world 94 Dynamic None_owner) < numPrepSteps - 1
   \<and> movementSystem (test_ext (Some (7, 1)) False) (test_world 94 Dynamic None_owner)
        test_action (Some 0) Seeker = test_world 94 Dynamic None_owner
   \<and> actionSystem (test_ext (Some (7, 1)) False) (test_world 94 Dynamic None_owner)
        test_action (Some 0) Seeker = (test_world 94 Dynamic None_owner, test_action)
   \<and> numPrepSteps - 1 \<le> curEpisodeStep (test_world 95 Dynamic None_owner)
   \<and> get_ExternalTorque (movementSystem (test_ext (Some (7, 1)) False)
        (test_world 95 Dynamic None_owner) test_action (Some 0) Seeker) 0 = (0, 0, 6)"
  using seeker_gate [of "test_world 94 Dynamic None_owner" "test_ext (Some (7, 1)) False"
      test_action "Some 0" 0]
    seeker_gate [of "test_world 95 Dynamic None_owner" "test_ext (Some (7, 1)) False"
      test_action "Some 0" 0]
  by (simp add: numPrepSteps_def test_world_def test_action_def)

text \<open>
  Claim C1 as stated fails at tick 95, the last tick of the range 0 to P - 1:
  seeker 0, facing the unowned movable box 7 with the lock bit set, gets a
  torque and a force written by the movement system, and the action system
  locks the box for the seekers.
\<close>

theorem seeker_gate_counterexample:
  "curEpisodeStep (test_world 95 Dynamic None_owner) = 95
   \<and> 95 \<le> numPrepSteps - 1
   \<and> get_ExternalTorque (test_world 95 Dynamic None_owner) 0 = (0, 0, 0)
   \<and> get_ExternalTorque (movementSystem (test_ext (Some (7, 1)) False)
        (test_world 95 Dynamic None_owner) test_action (Some 0) Seeker) 0 = (0, 0, 6)
   \<and> get_ExternalForce (movementSystem (test_ext (Some (7, 1)) False)
        (test_world 95 Dynamic None_owner) test_action (Some 0) Seeker) 0 = (60, 0, 0)
   \<and> get_OwnerTeam (test_world 95 Dynamic None_owner) 7 = None_owner
   \<and> get_OwnerTeam (fst (actionSystem (test_ext (Some (7, 1)) False)
        (test_world 95 Dynamic None_owner) test_action (Some 0) Seeker)) 7 = Seeker_owner
   \<and> get_ResponseType (fst (actionSystem (test_ext (Some (7, 1)) False)
        (test_world 95 Dynamic None_owner) test_action (Some 0) Seeker)) 7 = Static"
  by (simp add: test_defs movementSystem_def actionSystem_def lock_block_def Let_def
      numPrepSteps_def move_delta_per_bucket_def turn_delta_per_bucket_def half_buckets_def
      discrete_action_buckets_def agent_team_def up_def fwd_def)

text \<open>
  Claim C3, as the code has it. For an active agent that the action system
  processes (a hider on any tick, a seeker from tick 95 on) the action record
  reads neutral after the action system has run: x = 5, y = 5, r = 5, g = 0,
  l = 0. A seeker's record on ticks 0 to 94 is left exactly as it was.
\<close>

theorem action_consumed:
  "((ty = Hider \<or> numPrepSteps - 1 \<le> curEpisodeStep ctx) \<longrightarrow>
      snd (actionSystem X ctx a (Some e) ty) = neutral_action)
   \<and> (curEpisodeStep ctx < numPrepSteps - 1 \<longrightarrow>
      snd (actionSystem X ctx a (Some e) Seeker) = a)"
  by (cases ty) (auto simp: actionSystem_def Let_def neutral_action_def)

theorem action_consumed_witness:
  "snd (actionSystem (test_ext (Some (7, 1)) False) (test_world 0 Dynamic None_owner)
          test_action (Some 1) Hider) = neutral_action
   \<and> numPrepSteps - 1 \<le> curEpisodeStep (test_world 95 Dynamic None_owner)
   \<and> snd (actionSystem (test_ext (Some (7, 1)) False) (test_world 95 Dynamic None_owner)
          test_action (Some 0) Seeker) = neutral_action
   \<and> curEpisodeStep (test_world 0 Dynamic None_owner) < numPrepSteps - 1
   \<and> snd (actionSystem (test_ext (Some (7, 1)) False) (test_world 0 Dynamic None_owner)
          test_action (Some 0) Seeker) = test_action"
  using action_consumed [of Hider "test_world 0 Dynamic None_owner"
      "test_ext (Some (7, 1)) False" test_action 1]
    action_consumed [of Seeker "test_world 95 Dynamic None_owner"
      "test_ext (Some (7, 1)) False" test_action 0]
    action_consumed [of Seeker "test_world 0 Dynamic None_owner"
      "test_ext (Some (7, 1)) False" test_action 0]
  by (simp add: numPrepSteps_def test_world_def)

text \<open>
  Claim C3 as stated fails for an active seeker at tick 0: after the action
  system has run its record still has the lock bit set.
\<close>

theorem action_consumed_counterexample:
  "curEpisodeStep (test_world 0 Dynamic None_owner) = 0
   \<and> snd (actionSystem (test_ext (Some (7, 1)) False) (test_world 0 Dynamic None_owner)
          test_action (Some 0) Seeker) = test_action
   \<and> act_l test_action = 1 \<and> act_l neutral_action = 0
   \<and> snd (actionSystem (test_ext (Some (7, 1)) False) (test_world 0 Dynamic None_owner)
          test_action (Some 0) Seeker) \<noteq> neutral_action"
  by (simp add: test_defs actionSystem_def numPrepSteps_def neutral_action_def)

lemma lock_block_hit:
  assumes "traceRay X ctx (vadd (get_Position ctx e) (smul 0.5 up))
             (rotateVec X (get_Rotation ctx e) fwd) 2.5 = Some (obj, t)"
  shows "get_ResponseType (lock_block X ctx e ty) obj =
           (if get_ResponseType ctx obj = Static
            then (if get_OwnerTeam ctx obj = agent_team ty then Dynamic else Static)
            else (if get_OwnerTeam ctx obj = None_owner then Static
                  else get_ResponseType ctx obj))"
    and "get_OwnerTeam (lock_block X ctx e ty) obj =
           (if get_ResponseType ctx obj = Static
            then (if get_OwnerTeam ctx obj = agent_team ty then None_owner
                  else get_OwnerTeam ctx obj)
            else (if get_OwnerTeam ctx obj = None_owner then agent_team ty
                  else get_OwnerTeam ctx obj))"
  using assms by (cases ty; simp add: lock_block_def Let_def agent_team_def)+

text \<open>
  Claim C4. An agent that the action system processes issues lock (\<open>l = 1\<close>) and
  the forward ray of length 2.5 cast from half a unit above its position hits
  \<open>obj\<close>. After the action system has run: a \<open>Dynamic\<close>, unowned object is \<open>Static\<close>
  and owned by the agent's team; a \<open>Static\<close> object owned by the agent's own team
  is \<open>Dynamic\<close> and unowned; a \<open>Static\<close> object owned by anyone else (the other team
  in particular) keeps its mobility and its owner.
\<close>

theorem lock_toggle:
  assumes "ty = Hider \<or> numPrepSteps - 1 \<le> curEpisodeStep ctx"
    and "act_l a = 1"
    and "traceRay X ctx (vadd (get_Position ctx e) (smul 0.5 up))
           (rotateVec X (get_Rotation ctx e) fwd) 2.5 = Some (obj, t)"
  shows "(get_ResponseType ctx obj = Dynamic \<and> get_OwnerTeam ctx obj = None_owner \<longrightarrow>
            get_ResponseType (fst (actionSystem X ctx a (Some e) ty)) obj = Static \<and>
            get_OwnerTeam (fst (actionSystem X ctx a (Some e) ty)) obj = agent_team ty)
       \<and> (get_ResponseType ctx obj = Static \<and> get_OwnerTeam ctx obj = agent_team ty \<longrightarrow>
            get_ResponseType (fst (actionSystem X ctx a (Some e) ty)) obj = Dynamic \<and>
            get_OwnerTeam (fst (actionSystem X ctx a (Some e) ty)) obj = None_owner)
       \<and> (get_ResponseType ctx obj = Static \<and> get_OwnerTeam ctx obj \<noteq> agent_team ty \<longrightarrow>
            get_ResponseType (fst (actionSystem X ctx a (Some e) ty)) obj = Static \<and>
            get_OwnerTeam (fst (actionSystem X ctx a (Some e) ty)) obj = get_OwnerTeam ctx obj)"
proof -
  have gate: "\<not> (ty = Seeker \<and> curEpisodeStep ctx < numPrepSteps - 1)"
    using assms(1) by auto
  have own: "get_OwnerTeam (fst (actionSystem X ctx a (Some e) ty)) =
             get_OwnerTeam (lock_block X ctx e ty)"
    using gate assms(2) by (auto simp: actionSystem_def Let_def grab_block_owner)
  have resp: "get_ResponseType (fst (actionSystem X ctx a (Some e) ty)) =
              get_ResponseType (lock_block X ctx e ty)"
    using gate assms(2) by (auto simp: actionSystem_def Let_def grab_block_response)
  show ?thesis
    unfolding own resp lock_block_hit [OF assms(3)]
    by (auto simp: agent_team_def)
qed

text \<open>Hider 1 locks the unowned box 7; a seeker's lock on the box the hiders hold
  changes nothing; the hider's second lock releases it.\<close>

theorem lock_toggle_witness:
  "get_ResponseType (fst (actionSystem (test_ext (Some (7, 1)) False)
       (test_world 95 Dynamic None_owner) test_action (Some 1) Hider)) 7 = Static
   \<and> get_OwnerTeam (fst (actionSystem (test_ext (Some (7, 1)) False)
       (test_world 95 Dynamic None_owner) test_action (Some 1) Hider)) 7 = Hider_owner
   \<and> get_ResponseType (fst (actionSystem (test_ext (Some (7, 1)) False)
       (test_world 95 Static Hider_owner) test_action (Some 0) Seeker)) 7 = Static
   \<and> get_OwnerTeam (fst (actionSystem (test_ext (Some (7, 1)) False)
       (test_world 95 Static Hider_owner) test_action (Some 0) Seeker)) 7 = Hider_owner
   \<and> get_ResponseType (fst (actionSystem (test_ext (Some (7, 1)) False)
       (test_world 95 Static Hider_owner) test_action (Some 1) Hider)) 7 = Dynamic
   \<and> get_OwnerTeam (fst (actionSystem (test_ext (Some (7, 1)) False)
       (test_world 95 Static Hider_owner) test_action (Some 1) Hider)) 7 = None_owner"
  using lock_toggle [of Hider "test_world 95 Dynamic None_owner" test_action
      "test_ext (Some (7, 1)) False" 1 7 1]
    lock_toggle [of Seeker "test_world 95 Static Hider_owner" test_action
      "test_ext (Some (7, 1)) False" 0 7 1]
    lock_toggle [of Hider "test_world 95 Static Hider_owner" test_action
      "test_ext (Some (7, 1)) False" 1 7 1]
  by (simp add: test_defs numPrepSteps_def agent_team_def)

section \<open>Rewards\<close>

text \<open>
  Claim C5. On every tick at or after the preparation phase
  (\<open>curEpisodeStep \<ge> numPrepSteps\<close>) the value a seeker receives before the
  boundary penalty is the negation of the shared hider-team value that a hider
  receives, so the two sum to zero; the reward written for an agent is that value
  minus 10 when the agent is out of bounds, so the rewards of a hider and a
  seeker that are both inside the arena sum to zero.
\<close>

theorem reward_zero_sum:
  assumes "numPrepSteps \<le> curEpisodeStep ctx"
  shows "team_reward_val ctx Hider = hiderTeamReward ctx
       \<and> team_reward_val ctx Seeker = - hiderTeamReward ctx
       \<and> team_reward_val ctx Hider + team_reward_val ctx Seeker = 0
       \<and> fst (outputRewardsDonesSystem ctx (Some h) Hider r d) =
           team_reward_val ctx Hider - (if out_of_bounds (get_Position ctx h) then 10 else 0)
       \<and> fst (outputRewardsDonesSystem ctx (Some s) Seeker r' d') =
           team_reward_val ctx Seeker - (if out_of_bounds (get_Position ctx s) then 10 else 0)
       \<and> fst (outputRewardsDonesSystem ctx (Some h) Hider r d) +
           (if out_of_bounds (get_Position ctx h) then 10 else 0) +
         (fst (outputRewardsDonesSystem ctx (Some s) Seeker r' d') +
           (if out_of_bounds (get_Position ctx s) then 10 else 0)) = 0"
  using assms
  by (simp add: team_reward_val_def outputRewardsDonesSystem_def Let_def numPrepSteps_def)

theorem reward_zero_sum_witness:
  "numPrepSteps \<le> curEpisodeStep (test_world 96 Dynamic None_owner)
   \<and> fst (outputRewardsDonesSystem (test_world 96 Dynamic None_owner) (Some 1) Hider 0 0) = 1
   \<and> fst (outputRewardsDonesSystem (test_world 96 Dynamic None_owner) (Some 0) Seeker 0 0) = - 1"
  using reward_zero_sum [of "test_world 96 Dynamic None_owner" 1 0 0 0 0 0]
  by (simp add: test_defs numPrepSteps_def team_reward_val_def)

section \<open>Level generation: the placement loop and the generated tables\<close>

lemma rng_skip_simps:
  "rng_advance (rng_advance (rng_advance g)) = rng_skip 3 g"
  "rng_skip j (rng_skip k g) = rng_skip (k + j) g"
  "rng_skip 0 g = g"
  by (simp_all add: rng_skip_def rng_advance_def)

lemma placementLoop_unfold:
  "placementLoop X ctx n obj g r =
     (if accepts X ctx n obj g \<or> r = max_rejections
      then Some (fst (pose_at X g), fst (snd (pose_at X g)), snd (snd (pose_at X g)),
                 rng_skip 3 g, r)
      else placementLoop X ctx n obj (rng_skip 3 g) (r + 1))"
  by (subst placementLoop.simps)
     (simp add: Let_def accepts_def pose_at_def rng_skip_simps(1))

lemma placementLoop_returns_aux:
  "nat (max_rejections - r) = k \<Longrightarrow> r \<le> max_rejections \<Longrightarrow>
   \<exists>j. placementLoop X ctx n obj g r =
         Some (fst (pose_at X (rng_skip (3 * j) g)),
               fst (snd (pose_at X (rng_skip (3 * j) g))),
               snd (snd (pose_at X (rng_skip (3 * j) g))),
               rng_skip (3 * (j + 1)) g, r + int j)
       \<and> r + int j \<le> max_rejections
       \<and> (accepts X ctx n obj (rng_skip (3 * j) g) \<or> r + int j = max_rejections)
       \<and> (\<forall>i<j. \<not> accepts X ctx n obj (rng_skip (3 * i) g))"
proof (induction k arbitrary: r g)
  case 0
  then have "r = max_rejections" by simp
  then show ?case
    by (intro exI [of _ 0]) (subst placementLoop_unfold, simp add: rng_skip_simps)
next
  case (Suc k)
  show ?case
  proof (cases "accepts X ctx n obj g \<or> r = max_rejections")
    case True
    then show ?thesis using Suc.prems
      by (intro exI [of _ 0]) (subst placementLoop_unfold, auto simp: rng_skip_simps)
  next
    case False
    have "nat (max_rejections - (r + 1)) = k" "r + 1 \<le> max_rejections"
      using Suc.prems False by auto
    from Suc.IH [OF this, of "rng_skip 3 g"]
    obtain j where j:
      "placementLoop X ctx n obj (rng_skip 3 g) (r + 1) =
         Some (fst (pose_at X (rng_skip (3 * j) (rng_skip 3 g))),
               fst (snd (pose_at X (rng_skip (3 * j) (rng_skip 3 g)))),
               snd (snd (pose_at X (rng_skip (3 * j) (rng_skip 3 g)))),
               rng_skip (3 * (j + 1)) (rng_skip 3 g), r + 1 + int j)"
      "r + 1 + int j \<le> max_rejections"
      "accepts X ctx n obj (rng_skip (3 * j) (rng_skip 3 g)) \<or> r + 1 + int j = max_rejections"
      "\<forall>i<j. \<not> accepts X ctx n obj (rng_skip (3 * i) (rng_skip 3 g))"
      by blast
    have sk: "\<And>m. rng_skip (3 * m) (rng_skip 3 g) = rng_skip (3 * (m + 1)) g"
      by (simp add: rng_skip_def)
    have rej: "\<forall>i<j + 1. \<not> accepts X ctx n obj (rng_skip (3 * i) g)"
    proof (intro allI impI)
      fix i assume "i < j + 1"
      show "\<not> accepts X ctx n obj (rng_skip (3 * i) g)"
      proof (cases i)
        case 0
        then show ?thesis using False by (simp add: rng_skip_simps)
      next
        case (Suc i')
        then have "i' < j" using \<open>i < j + 1\<close> by simp
        then show ?thesis using j(4) Suc by (simp add: sk)
      qed
    qed
    show ?thesis
      using j(1-3) [unfolded sk] rej False
      by (intro exI [of _ "j + 1"])
         (subst placementLoop_unfold, simp add: add.assoc add.commute [of 1])
  qed
qed

lemma placementLoop_returns:
  "\<exists>j. placementLoop X ctx n obj g 0 =
         Some (fst (pose_at X (rng_skip (3 * j) g)),
               fst (snd (pose_at X (rng_skip (3 * j) g))),
               snd (snd (pose_at X (rng_skip (3 * j) g))),
               rng_skip (3 * (j + 1)) g, int j)
       \<and> int j \<le> max_rejections
       \<and> (accepts X ctx n obj (rng_skip (3 * j) g) \<or> int j = max_rejections)
       \<and> (\<forall>i<j. \<not> accepts X ctx n obj (rng_skip (3 * i) g))"
  using placementLoop_returns_aux [of 0 "nat max_rejections" X ctx n obj g]
  by (simp add: max_rejections_def)

lemma placementLoop_Some:
  "\<exists>pos rot ang j. placementLoop X ctx n obj g 0 =
      Some (pos, rot, ang, rng_skip (3 * (j + 1)) g, int j)"
  using placementLoop_returns [of X ctx n obj g] by blast

lemma grows_refl: "grows ctx ctx"
  by (simp add: grows_def)

lemma grows_trans: "grows a b \<Longrightarrow> grows b c \<Longrightarrow> grows a c"
  by (auto simp: grows_def)

lemma is_obj_grows: "grows a b \<Longrightarrow> is_obj a obj e \<Longrightarrow> is_obj b obj e"
  by (auto simp: grows_def is_obj_def)

lemma place_box_ok:
  assumes "0 \<le> idx" "nat idx < length (boxes ctx)" "n < length (obstacles ctx)"
  shows "\<exists>ctx'. place_box X obj sz idx (ctx, n) = Inr (ctx', Suc n)
           \<and> obj_frame ctx' = obj_frame ctx \<and> grows ctx ctx'
           \<and> boxes ctx' = (boxes ctx)[nat idx := nextEntity ctx]
           \<and> boxSizes ctx' = (boxSizes ctx)[nat idx := sz]
           \<and> ramps ctx' = ramps ctx
           \<and> is_obj ctx' obj (nextEntity ctx)
           \<and> obstacles ctx' = (obstacles ctx)[n := nextEntity ctx]
           \<and> nextEntity ctx' = Suc (nextEntity ctx)"
proof -
  obtain pos rot ang j where "placementLoop X ctx n obj (rng ctx) 0 =
      Some (pos, rot, ang, rng_skip (3 * (j + 1)) (rng ctx), int j)"
    using placementLoop_Some [of X ctx n obj "rng ctx"] by blast
  then show ?thesis using assms
    by (simp add: place_box_def makeDynObject_default_def makeDynObject_def makeEntity_def
        push_entity_def bindE_def Let_def obj_frame_def config_of_def tables_def grows_def rng_skip_def
        is_obj_def subset_insertI)
qed

lemma place_ramp_ok:
  assumes "i < length (ramps ctx)" "n < length (obstacles ctx)"
  shows "\<exists>ctx'. place_ramp X i (ctx, n) = Inr (ctx', Suc n)
           \<and> obj_frame ctx' = obj_frame ctx \<and> grows ctx ctx'
           \<and> boxes ctx' = boxes ctx \<and> boxSizes ctx' = boxSizes ctx
           \<and> ramps ctx' = (ramps ctx)[i := nextEntity ctx]
           \<and> is_obj ctx' Ramp (nextEntity ctx)
           \<and> obstacles ctx' = (obstacles ctx)[n := nextEntity ctx]
           \<and> nextEntity ctx' = Suc (nextEntity ctx)"
proof -
  obtain pos rot ang j where "placementLoop X ctx n Ramp (rng ctx) 0 =
      Some (pos, rot, ang, rng_skip (3 * (j + 1)) (rng ctx), int j)"
    using placementLoop_Some [of X ctx n Ramp "rng ctx"] by blast
  then show ?thesis using assms
    by (simp add: place_ramp_def makeDynObject_default_def makeDynObject_def makeEntity_def
        push_entity_def bindE_def Let_def obj_frame_def config_of_def tables_def grows_def rng_skip_def
        is_obj_def subset_insertI)
qed

lemma push_made_ok:
  assumes "n < length (obstacles ctx)"
  shows "\<exists>ctx'. push_made (makeDynObject ctx pos rot obj rt ow sc) n = Inr (ctx', Suc n)
           \<and> obj_frame ctx' = obj_frame ctx \<and> grows ctx ctx'
           \<and> boxes ctx' = boxes ctx \<and> boxSizes ctx' = boxSizes ctx
           \<and> ramps ctx' = ramps ctx
           \<and> numObstacles ctx' = numObstacles ctx
           \<and> is_obj ctx' obj (nextEntity ctx)
           \<and> obstacles ctx' = (obstacles ctx)[n := nextEntity ctx]
           \<and> nextEntity ctx' = Suc (nextEntity ctx)"
  using assms
  by (simp add: push_made_def makeDynObject_def makeEntity_def
        push_entity_def Let_def obj_frame_def config_of_def tables_def grows_def
        is_obj_def subset_insertI)

lemma forE_from:
  assumes "I a s"
    and "\<And>k s. a \<le> k \<Longrightarrow> k < m \<Longrightarrow> I k s \<Longrightarrow> \<exists>s'. f k s = Inr s' \<and> I (Suc k) s'"
    and "a \<le> m"
  shows "\<exists>s'. forE [a..<m] f s = Inr s' \<and> I m s'"
  using assms
proof (induction "m - a" arbitrary: a s)
  case 0
  then show ?case by simp
next
  case (Suc d)
  then have lt: "a < m" by simp
  obtain s1 where s1: "f a s = Inr s1" "I (Suc a) s1"
    using Suc.prems(2) [of a s] Suc.prems(1) lt by auto
  have "\<exists>s'. forE [Suc a..<m] f s1 = Inr s' \<and> I m s'"
  proof (rule Suc.hyps(1))
    show "d = m - Suc a" using Suc.hyps(2) by simp
    show "I (Suc a) s1" by (rule s1(2))
    show "\<And>k s. Suc a \<le> k \<Longrightarrow> k < m \<Longrightarrow> I k s \<Longrightarrow> \<exists>s'. f k s = Inr s' \<and> I (Suc k) s'"
      using Suc.prems(2) by simp
    show "Suc a \<le> m" using lt by simp
  qed
  then show ?case using s1(1) lt by (simp add: upt_conv_Cons)
qed

lemma forE_upt:
  assumes "I 0 s"
    and "\<And>k s. k < m \<Longrightarrow> I k s \<Longrightarrow> \<exists>s'. f k s = Inr s' \<and> I (Suc k) s'"
  shows "\<exists>s'. forE [0..<m] f s = Inr s' \<and> I m s'"
  using forE_from [of I 0 s m f] assms by simp

lemma upt_shift: "[a..<a + Suc k] = a # [Suc a..<Suc a + k]"
proof -
  have "a < a + Suc k" by simp
  then have "[a..<a + Suc k] = a # [Suc a..<a + Suc k]" by (rule upt_conv_Cons)
  then show ?thesis by (simp only: add_Suc_right add_Suc)
qed

lemma upt_app: "[a..<a + j] @ [a + j..<a + j + k] = [a..<a + j + k]"
  using upt_add_eq_append [of a "a + j" k] by simp

lemma take_push:
  assumes "take n xs = ps @ [a..<a + k]" "n < length xs"
  shows "take (Suc n) (xs[n := a + k]) = ps @ [a..<a + Suc k]"
  using assms by (simp add: take_Suc_conv_app_nth)

lemma place_walls_ok:
  "n + length ws \<le> length (obstacles ctx) \<Longrightarrow>
   \<exists>ctx'. place_walls ws (ctx, n) = Inr (ctx', n + length ws)
      \<and> obj_frame ctx' = obj_frame ctx \<and> grows ctx ctx'
      \<and> nextEntity ctx' = nextEntity ctx + length ws
      \<and> take (n + length ws) (obstacles ctx') =
          take n (obstacles ctx) @ [nextEntity ctx..<nextEntity ctx + length ws]"
proof (induction ws arbitrary: ctx n)
  case Nil
  then show ?case by (simp add: grows_refl)
next
  case (Cons w ws)
  obtain pos rot sc where w: "w = (pos, rot, sc)" by (cases w) auto
  have "n < length (obstacles ctx)" using Cons.prems by simp
  from push_made_ok [OF this, of pos rot Wall Static Unownable sc]
  obtain c1 where c1:
    "push_made (makeDynObject ctx pos rot Wall Static Unownable sc) n = Inr (c1, Suc n)"
    "obj_frame c1 = obj_frame ctx" "grows ctx c1"
    "obstacles c1 = (obstacles ctx)[n := nextEntity ctx]"
    "nextEntity c1 = Suc (nextEntity ctx)"
    by blast
  have len: "length (obstacles c1) = length (obstacles ctx)"
    using c1(2) by (simp add: obj_frame_def tables_def)
  have "Suc n + length ws \<le> length (obstacles c1)" using Cons.prems len by simp
  from Cons.IH [OF this]
  obtain c2 where c2: "place_walls ws (c1, Suc n) = Inr (c2, Suc n + length ws)"
    "obj_frame c2 = obj_frame c1" "grows c1 c2"
    "nextEntity c2 = nextEntity c1 + length ws"
    "take (Suc n + length ws) (obstacles c2) =
       take (Suc n) (obstacles c1) @ [nextEntity c1..<nextEntity c1 + length ws]"
    by blast
  have t1: "take (Suc n) (obstacles c1) = take n (obstacles ctx) @ [nextEntity ctx]"
    using c1(4) \<open>n < length (obstacles ctx)\<close> by (simp add: take_Suc_conv_app_nth)
  have "take (n + length (w # ws)) (obstacles c2) =
          take n (obstacles ctx) @ [nextEntity ctx..<nextEntity ctx + Suc (length ws)]"
    unfolding upt_shift using c2(5) t1 c1(5) by simp
  then have "take (n + length (w # ws)) (obstacles c2) =
          take n (obstacles ctx) @ [nextEntity ctx..<nextEntity ctx + length (w # ws)]"
    by (simp only: list.size add_Suc_right add_0_right)
  moreover have "place_walls (w # ws) (ctx, n) = Inr (c2, n + length (w # ws))"
    using c1(1) c2(1) w by (simp add: push_made_def Let_def)
  moreover have "obj_frame c2 = obj_frame ctx" using c1(2) c2(2) by simp
  moreover have "grows ctx c2" using c1(3) c2(3) by (rule grows_trans)
  moreover have "nextEntity c2 = nextEntity ctx + length (w # ws)" using c1(5) c2(4) by simp
  ultimately show ?case by blast
qed

lemma place_agent_ok:
  assumes "0 \<le> numActiveAgents ctx" "nat (numActiveAgents ctx) < length (agents ctx)"
    and "ty = Hider \<longrightarrow> 0 \<le> numHiders ctx \<and> nat (numHiders ctx) < length (hiders ctx)"
    and "ty = Seeker \<longrightarrow> 0 \<le> numSeekers ctx \<and> nat (numSeekers ctx) < length (seekers ctx)"
  shows "\<exists>ctx'. place_agent X ty n i ctx = Inr ctx'
           \<and> agent_frame ctx' = agent_frame ctx \<and> grows ctx ctx'
           \<and> numActiveAgents ctx' = numActiveAgents ctx + 1
           \<and> numHiders ctx' = numHiders ctx + (if ty = Hider then 1 else 0)
           \<and> numSeekers ctx' = numSeekers ctx + (if ty = Seeker then 1 else 0)
           \<and> agents ctx' = (agents ctx)[nat (numActiveAgents ctx) :=
                 (agents ctx ! nat (numActiveAgents ctx))
                   \<lparr>agent_type := ty, sim_e := Some (nextEntity ctx), mask := 1,
                    seed := curEpisodeRNDCounter ctx, action := neutral_action\<rparr>]
           \<and> is_obj ctx' Agent (nextEntity ctx)
           \<and> nextEntity ctx' = Suc (nextEntity ctx)"
proof -
  obtain pos rot ang j where "placementLoop X ctx n Agent (rng ctx) 0 =
      Some (pos, rot, ang, rng_skip (3 * (j + 1)) (rng ctx), int j)"
    using placementLoop_Some [of X ctx n Agent "rng ctx"] by blast
  then show ?thesis using assms
    by (cases ty)
       (simp_all add: place_agent_def makeDynAgent_def makeAgent_def makeEntity_def
        bindE_def Let_def agent_frame_def config_of_def tables_def grows_def rng_skip_def
        is_obj_def subset_insertI)
qed

lemma frame_lengths:
  "obj_frame c = obj_frame ctx \<Longrightarrow>
     length (boxes c) = length (boxes ctx) \<and> length (boxSizes c) = length (boxSizes ctx) \<and>
     length (ramps c) = length (ramps ctx) \<and> length (obstacles c) = length (obstacles ctx)"
  by (simp add: obj_frame_def tables_def)

lemma box_loop_ok:
  assumes "0 \<le> off" "nat off + m \<le> length (boxes ctx)"
    and "length (boxSizes ctx) = length (boxes ctx)"
    and "n + m \<le> length (obstacles ctx)"
  shows "\<exists>c. forE [0..<m] (\<lambda>i. place_box X obj sz (int i + off)) (ctx, n) = Inr (c, n + m)
           \<and> obj_frame c = obj_frame ctx \<and> grows ctx c \<and> ramps c = ramps ctx
           \<and> (\<forall>i<m. is_obj c obj (boxes c ! (nat off + i)) \<and> boxSizes c ! (nat off + i) = sz)
           \<and> (\<forall>k<nat off. boxes c ! k = boxes ctx ! k \<and> boxSizes c ! k = boxSizes ctx ! k)
           \<and> nextEntity c = nextEntity ctx + m
           \<and> take (n + m) (obstacles c) =
               take n (obstacles ctx) @ [nextEntity ctx..<nextEntity ctx + m]
           \<and> (\<forall>i<m. boxes c ! (nat off + i) = nextEntity ctx + i)"
proof -
  define I where "I = (\<lambda>k (s :: Engine \<times> nat).
     snd s = n + k \<and> obj_frame (fst s) = obj_frame ctx \<and> grows ctx (fst s) \<and>
     ramps (fst s) = ramps ctx \<and>
     (\<forall>i<k. is_obj (fst s) obj (boxes (fst s) ! (nat off + i)) \<and>
            boxSizes (fst s) ! (nat off + i) = sz) \<and>
     (\<forall>j<nat off. boxes (fst s) ! j = boxes ctx ! j \<and> boxSizes (fst s) ! j = boxSizes ctx ! j) \<and>
     nextEntity (fst s) = nextEntity ctx + k \<and>
     take (n + k) (obstacles (fst s)) =
       take n (obstacles ctx) @ [nextEntity ctx..<nextEntity ctx + k] \<and>
     (\<forall>i<k. boxes (fst s) ! (nat off + i) = nextEntity ctx + i))"
  have init: "I 0 (ctx, n)" by (simp add: I_def grows_refl)
  have stp: "\<exists>s'. place_box X obj sz (int k + off) s = Inr s' \<and> I (Suc k) s'"
    if "k < m" "I k s" for k s
  proof -
    obtain c n' where s: "s = (c, n')" by (cases s)
    have inv: "n' = n + k" "obj_frame c = obj_frame ctx" "grows ctx c" "ramps c = ramps ctx"
      "\<forall>i<k. is_obj c obj (boxes c ! (nat off + i)) \<and> boxSizes c ! (nat off + i) = sz"
      "\<forall>j<nat off. boxes c ! j = boxes ctx ! j \<and> boxSizes c ! j = boxSizes ctx ! j"
      "nextEntity c = nextEntity ctx + k"
      "take (n + k) (obstacles c) = take n (obstacles ctx) @ [nextEntity ctx..<nextEntity ctx + k]"
      "\<forall>i<k. boxes c ! (nat off + i) = nextEntity ctx + i"
      using that(2) unfolding I_def s fst_conv snd_conv by blast+
    note len = frame_lengths [OF inv(2)]
    have idx: "nat (int k + off) = nat off + k" using assms(1) by simp
    have pre: "0 \<le> int k + off" "nat (int k + off) < length (boxes c)"
      "n' < length (obstacles c)"
      using assms that(1) len inv(1) by (simp_all add: idx)
    from place_box_ok [OF pre, of X obj sz]
    obtain c' where c': "place_box X obj sz (int k + off) (c, n') = Inr (c', Suc n')"
      "obj_frame c' = obj_frame c" "grows c c'"
      "boxes c' = (boxes c)[nat (int k + off) := nextEntity c]"
      "boxSizes c' = (boxSizes c)[nat (int k + off) := sz]"
      "ramps c' = ramps c" "is_obj c' obj (nextEntity c)"
      "obstacles c' = (obstacles c)[n' := nextEntity c]"
      "nextEntity c' = Suc (nextEntity c)"
      by blast
    have lb: "nat off + k < length (boxes c)" "nat off + k < length (boxSizes c)"
      using pre(2) len assms(3) by (simp_all add: idx)
    have old: "is_obj c' obj (boxes c' ! (nat off + i)) \<and> boxSizes c' ! (nat off + i) = sz"
      if "i < Suc k" for i
    proof (cases "i = k")
      case True
      then show ?thesis using c'(4,5,7) lb by (simp add: idx)
    next
      case False
      then have "i < k" using that by simp
      then show ?thesis
        using inv(5) c'(3,4,5) False by (auto simp: idx intro: is_obj_grows)
    qed
    have low: "boxes c' ! j = boxes ctx ! j \<and> boxSizes c' ! j = boxSizes ctx ! j"
      if "j < nat off" for j
      using that inv(6) c'(4,5) by (simp add: idx)
    have ne: "nextEntity c' = nextEntity ctx + Suc k" using c'(9) inv(7) by simp
    have tk: "take (n + Suc k) (obstacles c') =
        take n (obstacles ctx) @ [nextEntity ctx..<nextEntity ctx + Suc k]"
    proof -
      have o: "obstacles c' = (obstacles c)[n + k := nextEntity ctx + k]"
        using c'(8) inv(1,7) by simp
      have l: "n + k < length (obstacles c)" using pre(3) inv(1) by simp
      show ?thesis unfolding o using take_push [OF inv(8) l] by (simp only: add_Suc_right)
    qed
    have ids: "boxes c' ! (nat off + i) = nextEntity ctx + i" if "i < Suc k" for i
    proof (cases "i = k")
      case True
      then show ?thesis using c'(4) lb inv(7) by (simp add: idx)
    next
      case False
      then have "i < k" using that by simp
      then show ?thesis using inv(9) c'(4) False by (simp add: idx)
    qed
    have "I (Suc k) (c', Suc n')"
      unfolding I_def using inv(1,2,3,4) c'(2,3,6) old low ne tk ids
      by (auto intro: grows_trans)
    then show ?thesis using c'(1) s by auto
  qed
  from forE_upt [of I "(ctx, n)" m "\<lambda>i. place_box X obj sz (int i + off)", OF init stp]
  obtain s' where s': "forE [0..<m] (\<lambda>i. place_box X obj sz (int i + off)) (ctx, n) = Inr s'"
    "I m s'" by blast
  then show ?thesis
    by (cases s') (auto simp: I_def)
qed

lemma ramp_loop_ok:
  assumes "m \<le> length (ramps ctx)" "n + m \<le> length (obstacles ctx)"
  shows "\<exists>c. forE [0..<m] (place_ramp X) (ctx, n) = Inr (c, n + m)
           \<and> obj_frame c = obj_frame ctx \<and> grows ctx c
           \<and> boxes c = boxes ctx \<and> boxSizes c = boxSizes ctx
           \<and> (\<forall>i<m. is_obj c Ramp (ramps c ! i))
           \<and> nextEntity c = nextEntity ctx + m
           \<and> take (n + m) (obstacles c) =
               take n (obstacles ctx) @ [nextEntity ctx..<nextEntity ctx + m]
           \<and> (\<forall>i<m. ramps c ! i = nextEntity ctx + i)"
proof -
  define I where "I = (\<lambda>k (s :: Engine \<times> nat).
     snd s = n + k \<and> obj_frame (fst s) = obj_frame ctx \<and> grows ctx (fst s) \<and>
     boxes (fst s) = boxes ctx \<and> boxSizes (fst s) = boxSizes ctx \<and>
     (\<forall>i<k. is_obj (fst s) Ramp (ramps (fst s) ! i)) \<and>
     nextEntity (fst s) = nextEntity ctx + k \<and>
     take (n + k) (obstacles (fst s)) =
       take n (obstacles ctx) @ [nextEntity ctx..<nextEntity ctx + k] \<and>
     (\<forall>i<k. ramps (fst s) ! i = nextEntity ctx + i))"
  have init: "I 0 (ctx, n)" by (simp add: I_def grows_refl)
  have stp: "\<exists>s'. place_ramp X k s = Inr s' \<and> I (Suc k) s'"
    if "k < m" "I k s" for k s
  proof -
    obtain c n' where s: "s = (c, n')" by (cases s)
    have inv: "n' = n + k" "obj_frame c = obj_frame ctx" "grows ctx c"
      "boxes c = boxes ctx" "boxSizes c = boxSizes ctx"
      "\<forall>i<k. is_obj c Ramp (ramps c ! i)"
      "nextEntity c = nextEntity ctx + k"
      "take (n + k) (obstacles c) = take n (obstacles ctx) @ [nextEntity ctx..<nextEntity ctx + k]"
      "\<forall>i<k. ramps c ! i = nextEntity ctx + i"
      using that(2) unfolding I_def s fst_conv snd_conv by blast+
    note len = frame_lengths [OF inv(2)]
    have pre: "k < length (ramps c)" "n' < length (obstacles c)"
      using assms that(1) len inv(1) by simp_all
    from place_ramp_ok [OF pre, of X]
    obtain c' where c': "place_ramp X k (c, n') = Inr (c', Suc n')"
      "obj_frame c' = obj_frame c" "grows c c'"
      "boxes c' = boxes c" "boxSizes c' = boxSizes c"
      "ramps c' = (ramps c)[k := nextEntity c]" "is_obj c' Ramp (nextEntity c)"
      "obstacles c' = (obstacles c)[n' := nextEntity c]"
      "nextEntity c' = Suc (nextEntity c)"
      by blast
    have old: "is_obj c' Ramp (ramps c' ! i)" if "i < Suc k" for i
    proof (cases "i = k")
      case True
      then show ?thesis using c'(6,7) pre(1) by simp
    next
      case False
      then have "i < k" using that by simp
      then show ?thesis
        using inv(6) c'(3,6) False by (auto intro: is_obj_grows)
    qed
    have ne: "nextEntity c' = nextEntity ctx + Suc k" using c'(9) inv(7) by simp
    have tk: "take (n + Suc k) (obstacles c') =
        take n (obstacles ctx) @ [nextEntity ctx..<nextEntity ctx + Suc k]"
    proof -
      have o: "obstacles c' = (obstacles c)[n + k := nextEntity ctx + k]"
        using c'(8) inv(1,7) by simp
      have l: "n + k < length (obstacles c)" using pre(2) inv(1) by simp
      show ?thesis unfolding o using take_push [OF inv(8) l] by (simp only: add_Suc_right)
    qed
    have ids: "ramps c' ! i = nextEntity ctx + i" if "i < Suc k" for i
    proof (cases "i = k")
      case True
      then show ?thesis using c'(6) pre(1) inv(7) by simp
    next
      case False
      then have "i < k" using that by simp
      then show ?thesis using inv(9) c'(6) False by simp
    qed
    have "I (Suc k) (c', Suc n')"
      unfolding I_def using inv(1,2,3,4,5) c'(2,3,4,5) old ne tk ids
      by (auto intro: grows_trans)
    then show ?thesis using c'(1) s by auto
  qed
  from forE_upt [of I "(ctx, n)" m "place_ramp X", OF init stp]
  obtain s' where s': "forE [0..<m] (place_ramp X) (ctx, n) = Inr s'" "I m s'" by blast
  then show ?thesis
    by (cases s') (auto simp: I_def)
qed

lemma activated_grows:
  "grows c c' \<Longrightarrow> curEpisodeRNDCounter c' = curEpisodeRNDCounter c \<Longrightarrow>
   activated c ty r r' \<Longrightarrow> activated c' ty r r'"
  by (auto simp: activated_def intro: is_obj_grows)

lemma agent_frame_facts:
  "agent_frame c = agent_frame ctx \<Longrightarrow>
     length (agents c) = length (agents ctx) \<and> length (hiders c) = length (hiders ctx) \<and>
     length (seekers c) = length (seekers ctx) \<and>
     curEpisodeRNDCounter c = curEpisodeRNDCounter ctx"
  by (simp add: agent_frame_def tables_def)

lemma agent_loop_ok:
  assumes "0 \<le> numActiveAgents ctx" "nat (numActiveAgents ctx) + m \<le> length (agents ctx)"
    and "ty = Hider \<longrightarrow> 0 \<le> numHiders ctx \<and> nat (numHiders ctx) + m \<le> length (hiders ctx)"
    and "ty = Seeker \<longrightarrow> 0 \<le> numSeekers ctx \<and> nat (numSeekers ctx) + m \<le> length (seekers ctx)"
  shows "\<exists>c. forE [0..<m] (place_agent X ty n) ctx = Inr c
           \<and> agent_frame c = agent_frame ctx \<and> grows ctx c
           \<and> numActiveAgents c = numActiveAgents ctx + int m
           \<and> numHiders c = numHiders ctx + (if ty = Hider then int m else 0)
           \<and> numSeekers c = numSeekers ctx + (if ty = Seeker then int m else 0)
           \<and> (\<forall>i. i < nat (numActiveAgents ctx) \<or> nat (numActiveAgents ctx) + m \<le> i \<longrightarrow>
                  agents c ! i = agents ctx ! i)
           \<and> (\<forall>i<m. activated c ty (agents ctx ! (nat (numActiveAgents ctx) + i))
                         (agents c ! (nat (numActiveAgents ctx) + i)))
           \<and> nextEntity c = nextEntity ctx + m
           \<and> (\<forall>i<m. sim_e (agents c ! (nat (numActiveAgents ctx) + i)) =
                       Some (nextEntity ctx + i))"
proof -
  define a0 where "a0 = nat (numActiveAgents ctx)"
  define I where "I = (\<lambda>k c.
     agent_frame c = agent_frame ctx \<and> grows ctx c \<and>
     numActiveAgents c = numActiveAgents ctx + int k \<and>
     numHiders c = numHiders ctx + (if ty = Hider then int k else 0) \<and>
     numSeekers c = numSeekers ctx + (if ty = Seeker then int k else 0) \<and>
     (\<forall>i. i < a0 \<or> a0 + k \<le> i \<longrightarrow> agents c ! i = agents ctx ! i) \<and>
     (\<forall>i<k. activated c ty (agents ctx ! (a0 + i)) (agents c ! (a0 + i))) \<and>
     nextEntity c = nextEntity ctx + k \<and>
     (\<forall>i<k. sim_e (agents c ! (a0 + i)) = Some (nextEntity ctx + i)))"
  have init: "I 0 ctx" by (simp add: I_def grows_refl)
  have stp: "\<exists>c'. place_agent X ty n k c = Inr c' \<and> I (Suc k) c'"
    if "k < m" "I k c" for k c
  proof -
    have inv: "agent_frame c = agent_frame ctx" "grows ctx c"
      "numActiveAgents c = numActiveAgents ctx + int k"
      "numHiders c = numHiders ctx + (if ty = Hider then int k else 0)"
      "numSeekers c = numSeekers ctx + (if ty = Seeker then int k else 0)"
      "\<forall>i. i < a0 \<or> a0 + k \<le> i \<longrightarrow> agents c ! i = agents ctx ! i"
      "\<forall>i<k. activated c ty (agents ctx ! (a0 + i)) (agents c ! (a0 + i))"
      "nextEntity c = nextEntity ctx + k"
      "\<forall>i<k. sim_e (agents c ! (a0 + i)) = Some (nextEntity ctx + i)"
      using that(2) unfolding I_def by blast+
    note fr = agent_frame_facts [OF inv(1)]
    have na: "nat (numActiveAgents c) = a0 + k"
      using inv(3) assms(1) by (simp add: a0_def nat_add_distrib)
    have pre: "0 \<le> numActiveAgents c" "nat (numActiveAgents c) < length (agents c)"
      "ty = Hider \<longrightarrow> 0 \<le> numHiders c \<and> nat (numHiders c) < length (hiders c)"
      "ty = Seeker \<longrightarrow> 0 \<le> numSeekers c \<and> nat (numSeekers c) < length (seekers c)"
      using assms that(1) inv(3,4,5) fr by (auto simp: a0_def)
    from place_agent_ok [OF pre, of X n k]
    obtain c' where c': "place_agent X ty n k c = Inr c'"
      "agent_frame c' = agent_frame c" "grows c c'"
      "numActiveAgents c' = numActiveAgents c + 1"
      "numHiders c' = numHiders c + (if ty = Hider then 1 else 0)"
      "numSeekers c' = numSeekers c + (if ty = Seeker then 1 else 0)"
      "agents c' = (agents c)[nat (numActiveAgents c) :=
                 (agents c ! nat (numActiveAgents c))
                   \<lparr>agent_type := ty, sim_e := Some (nextEntity c), mask := 1,
                    seed := curEpisodeRNDCounter c, action := neutral_action\<rparr>]"
      "is_obj c' Agent (nextEntity c)"
      "nextEntity c' = Suc (nextEntity c)"
      by blast
    note fr' = agent_frame_facts [OF c'(2)]
    have out: "agents c' ! i = agents ctx ! i" if "i < a0 \<or> a0 + Suc k \<le> i" for i
      using that inv(6) c'(7) na by auto
    have new: "activated c' ty (agents ctx ! (a0 + i)) (agents c' ! (a0 + i))"
      if "i < Suc k" for i
    proof (cases "i = k")
      case True
      have "agents c ! (a0 + k) = agents ctx ! (a0 + k)" using inv(6) by simp
      then show ?thesis
        using True c'(7,8) na pre(2) fr' by (auto simp: activated_def)
    next
      case False
      then have "i < k" using that by simp
      then have "activated c ty (agents ctx ! (a0 + i)) (agents c ! (a0 + i))"
        using inv(7) by simp
      then have "activated c' ty (agents ctx ! (a0 + i)) (agents c ! (a0 + i))"
        using c'(3) fr' by (auto intro: activated_grows)
      then show ?thesis using c'(7) na False by simp
    qed
    have ne: "nextEntity c' = nextEntity ctx + Suc k" using c'(9) inv(8) by simp
    have ids: "sim_e (agents c' ! (a0 + i)) = Some (nextEntity ctx + i)" if "i < Suc k" for i
    proof (cases "i = k")
      case True
      then show ?thesis using c'(7) na pre(2) inv(8) by simp
    next
      case False
      then have "i < k" using that by simp
      then show ?thesis using inv(9) c'(7) na False by simp
    qed
    have "I (Suc k) c'"
      unfolding I_def using inv(1,2,3,4,5) c'(2-6) out new ne ids
      by (auto intro: grows_trans)
    then show ?thesis using c'(1) by auto
  qed
  from forE_upt [of I ctx m "place_agent X ty n", OF init stp]
  show ?thesis by (auto simp: I_def a0_def)
qed

lemma populate_static_ok:
  assumes "length (static_walls X ctx) \<le> length (obstacles ctx)"
  shows "\<exists>c. populate_static X (ctx\<lparr>rng := rng_advance (rng_advance (rng ctx))\<rparr>) =
               Inr (c, length (static_walls X ctx))
           \<and> obj_frame c = obj_frame ctx \<and> grows ctx c
           \<and> nextEntity c = nextEntity ctx + length (static_walls X ctx)
           \<and> take (length (static_walls X ctx)) (obstacles c) =
               [nextEntity ctx..<nextEntity ctx + length (static_walls X ctx)]"
proof -
  let ?g = "snd (populateStaticGeometry X (rng_advance (rng_advance (rng ctx)))
                   (snd bounds, snd bounds))"
  let ?c0 = "ctx\<lparr>rng := ?g\<rparr>"
  have "0 + length (static_walls X ctx) \<le> length (obstacles ?c0)" using assms by simp
  from place_walls_ok [OF this]
  obtain c where c: "place_walls (static_walls X ctx) (?c0, 0) =
      Inr (c, 0 + length (static_walls X ctx))" "obj_frame c = obj_frame ?c0" "grows ?c0 c"
    "nextEntity c = nextEntity ?c0 + length (static_walls X ctx)"
    "take (0 + length (static_walls X ctx)) (obstacles c) =
       take 0 (obstacles ?c0) @ [nextEntity ?c0..<nextEntity ?c0 + length (static_walls X ctx)]"
    by blast
  have "obj_frame ?c0 = obj_frame ctx" by (simp add: obj_frame_def tables_def config_of_def)
  moreover have "grows ctx c" using c(3) by (simp add: grows_def)
  moreover have "nextEntity c = nextEntity ctx + length (static_walls X ctx)" using c(4) by simp
  moreover have "take (length (static_walls X ctx)) (obstacles c) =
               [nextEntity ctx..<nextEntity ctx + length (static_walls X ctx)]"
    using c(5) by simp
  ultimately show ?thesis
    using c(1,2) by (simp add: populate_static_def static_walls_def Let_def)
qed

lemma tables_upd:
  "tables (c\<lparr>numActiveBoxes := a\<rparr>) = tables c"
  "tables (c\<lparr>numActiveRamps := a\<rparr>) = tables c"
  "tables (c\<lparr>numObstacles := a\<rparr>) = tables c"
  by (simp_all add: tables_def)

lemma generateTraining_ok:
  assumes tb: "tables ctx = (3, 3, 9, 9, 2, 57, A)"
    and zero: "numHiders ctx = 0" "numSeekers ctx = 0" "numActiveAgents ctx = 0"
    and cnt: "0 \<le> nh" "nh \<le> 3" "0 \<le> ns" "ns \<le> 3" "nat nh + nat ns \<le> A"
    and tot: "3 \<le> sampled_total X ctx" "sampled_total X ctx \<le> 9"
    and el: "3 \<le> sampled_elongated X ctx" "sampled_elongated X ctx \<le> sampled_total X ctx"
    and walls: "length (static_walls X ctx) \<le> 45"
  shows "\<exists>c. generateTrainingEnvironment X ctx nh ns = Inr c
           \<and> tables c = tables ctx
           \<and> numActiveBoxes c = sampled_total X ctx
           \<and> numActiveRamps c = 2
           \<and> numHiders c = nh \<and> numSeekers c = ns \<and> numActiveAgents c = nh + ns
           \<and> numObstacles c = int (length (static_walls X ctx)) + sampled_total X ctx + 3
           \<and> curEpisodeStep c = curEpisodeStep ctx
           \<and> maxAgentsPerWorld c = maxAgentsPerWorld ctx
           \<and> config_of c = config_of ctx \<and> resetLevel c = resetLevel ctx
           \<and> curWorldEpisode c = curWorldEpisode ctx
           \<and> grows ctx c
           \<and> (\<forall>i<nat (sampled_elongated X ctx).
                  is_obj c Box (boxes c ! i) \<and> boxSizes c ! i = (8, 1.5))
           \<and> (\<forall>i. nat (sampled_elongated X ctx) \<le> i \<and> i < nat (sampled_total X ctx) \<longrightarrow>
                  is_obj c Cube (boxes c ! i) \<and> boxSizes c ! i = (2, 2))
           \<and> (\<forall>i<2. is_obj c Ramp (ramps c ! i))
           \<and> (\<forall>i<nat nh. activated c Hider (agents ctx ! i) (agents c ! i))
           \<and> (\<forall>i. nat nh \<le> i \<and> i < nat nh + nat ns \<longrightarrow>
                  activated c Seeker (agents ctx ! i) (agents c ! i))
           \<and> (\<forall>i. nat nh + nat ns \<le> i \<longrightarrow> agents c ! i = agents ctx ! i)
           \<and> (\<forall>i<nat (sampled_total X ctx).
                  boxes c ! i = nextEntity ctx + length (static_walls X ctx) + i)
           \<and> (\<forall>i<2. ramps c ! i =
                  nextEntity ctx + length (static_walls X ctx) + nat (sampled_total X ctx) + i)
           \<and> (\<forall>i<nat nh + nat ns. sim_e (agents c ! i) =
                  Some (nextEntity ctx + length (static_walls X ctx) +
                        nat (sampled_total X ctx) + 2 + i))
           \<and> take (length (static_walls X ctx) + nat (sampled_total X ctx) + 2) (obstacles c) =
               [nextEntity ctx..<nextEntity ctx + length (static_walls X ctx) +
                                  nat (sampled_total X ctx) + 2]"
proof -
  define T where "T = sampled_total X ctx"
  define E where "E = sampled_elongated X ctx"
  define W where "W = length (static_walls X ctx)"
  define g2 where "g2 = rng_advance (rng_advance (rng ctx))"
  have TE: "3 \<le> T" "T \<le> 9" "3 \<le> E" "E \<le> T"
    using tot el by (simp_all add: T_def E_def)
  have len: "length (hiders ctx) = 3" "length (seekers ctx) = 3" "length (boxes ctx) = 9"
    "length (boxSizes ctx) = 9" "length (ramps ctx) = 2" "length (obstacles ctx) = 57"
    "length (agents ctx) = A"
    using tb by (simp_all add: tables_def)
  \<comment> \<open>static geometry\<close>
  have "length (static_walls X ctx) \<le> length (obstacles ctx)" using walls len by simp
  from populate_static_ok [OF this]
  obtain c1 where c1: "populate_static X (ctx\<lparr>rng := g2\<rparr>) = Inr (c1, W)"
    "obj_frame c1 = obj_frame ctx" "grows ctx c1"
    and i1: "nextEntity c1 = nextEntity ctx + W"
      "take W (obstacles c1) = [nextEntity ctx..<nextEntity ctx + W]"
    unfolding g2_def W_def by blast
  note l1 = frame_lengths [OF c1(2)]
  \<comment> \<open>elongated boxes\<close>
  have "\<exists>c. forE [0..<nat E] (\<lambda>i. place_box X Box (8, 1.5) (int i + 0)) (c1, W) =
              Inr (c, W + nat E)
           \<and> obj_frame c = obj_frame c1 \<and> grows c1 c \<and> ramps c = ramps c1
           \<and> (\<forall>i<nat E. is_obj c Box (boxes c ! (nat 0 + i)) \<and>
                  boxSizes c ! (nat 0 + i) = (8, 1.5))
           \<and> (\<forall>k<nat 0. boxes c ! k = boxes c1 ! k \<and> boxSizes c ! k = boxSizes c1 ! k)
           \<and> nextEntity c = nextEntity c1 + nat E
           \<and> take (W + nat E) (obstacles c) =
               take W (obstacles c1) @ [nextEntity c1..<nextEntity c1 + nat E]
           \<and> (\<forall>i<nat E. boxes c ! (nat 0 + i) = nextEntity c1 + i)"
    using TE walls l1 len by (intro box_loop_ok) (simp_all add: W_def)
  then obtain c2 where c2:
    "forE [0..<nat E] (\<lambda>i. place_box X Box (8, 1.5) (int i)) (c1, W) = Inr (c2, W + nat E)"
    "obj_frame c2 = obj_frame c1" "grows c1 c2"
    "\<forall>i<nat E. is_obj c2 Box (boxes c2 ! i) \<and> boxSizes c2 ! i = (8, 1.5)"
    and i2: "nextEntity c2 = nextEntity c1 + nat E"
      "take (W + nat E) (obstacles c2) =
         take W (obstacles c1) @ [nextEntity c1..<nextEntity c1 + nat E]"
      "\<forall>i<nat E. boxes c2 ! i = nextEntity c1 + i"
    by auto
  note l2 = frame_lengths [OF c2(2)]
  \<comment> \<open>cubes\<close>
  have "\<exists>c. forE [0..<nat (T - E)] (\<lambda>i. place_box X Cube (2, 2) (int i + E)) (c2, W + nat E) =
              Inr (c, W + nat E + nat (T - E))
           \<and> obj_frame c = obj_frame c2 \<and> grows c2 c \<and> ramps c = ramps c2
           \<and> (\<forall>i<nat (T - E). is_obj c Cube (boxes c ! (nat E + i)) \<and>
                  boxSizes c ! (nat E + i) = (2, 2))
           \<and> (\<forall>k<nat E. boxes c ! k = boxes c2 ! k \<and> boxSizes c ! k = boxSizes c2 ! k)
           \<and> nextEntity c = nextEntity c2 + nat (T - E)
           \<and> take (W + nat E + nat (T - E)) (obstacles c) =
               take (W + nat E) (obstacles c2) @ [nextEntity c2..<nextEntity c2 + nat (T - E)]
           \<and> (\<forall>i<nat (T - E). boxes c ! (nat E + i) = nextEntity c2 + i)"
    using TE walls l1 l2 len by (intro box_loop_ok) (simp_all add: W_def)
  then obtain c3 where c3:
    "forE [0..<nat (T - E)] (\<lambda>i. place_box X Cube (2, 2) (int i + E)) (c2, W + nat E) =
       Inr (c3, W + nat E + nat (T - E))"
    "obj_frame c3 = obj_frame c2" "grows c2 c3"
    "\<forall>i<nat (T - E). is_obj c3 Cube (boxes c3 ! (nat E + i)) \<and>
         boxSizes c3 ! (nat E + i) = (2, 2)"
    "\<forall>k<nat E. boxes c3 ! k = boxes c2 ! k \<and> boxSizes c3 ! k = boxSizes c2 ! k"
    and i3: "nextEntity c3 = nextEntity c2 + nat (T - E)"
      "take (W + nat E + nat (T - E)) (obstacles c3) =
         take (W + nat E) (obstacles c2) @ [nextEntity c2..<nextEntity c2 + nat (T - E)]"
      "\<forall>i<nat (T - E). boxes c3 ! (nat E + i) = nextEntity c2 + i"
    by auto
  note l3 = frame_lengths [OF c3(2)]
  have n3: "W + nat E + nat (T - E) = W + nat T" using TE by simp
  define c3' where "c3' = c3\<lparr>numActiveBoxes := T\<rparr>"
  have c3'f: "length (ramps c3') = 2" "length (obstacles c3') = 57"
    "boxes c3' = boxes c3" "boxSizes c3' = boxSizes c3" "grows c3 c3'"
    using l1 l2 l3 len by (simp_all add: c3'_def grows_def)
  \<comment> \<open>ramps\<close>
  have "\<exists>c. forE [0..<2] (place_ramp X) (c3', W + nat T) = Inr (c, W + nat T + 2)
           \<and> obj_frame c = obj_frame c3' \<and> grows c3' c
           \<and> boxes c = boxes c3' \<and> boxSizes c = boxSizes c3'
           \<and> (\<forall>i<2. is_obj c Ramp (ramps c ! i))
           \<and> nextEntity c = nextEntity c3' + 2
           \<and> take (W + nat T + 2) (obstacles c) =
               take (W + nat T) (obstacles c3') @ [nextEntity c3'..<nextEntity c3' + 2]
           \<and> (\<forall>i<2. ramps c ! i = nextEntity c3' + i)"
    using TE walls c3'f by (intro ramp_loop_ok) (simp_all add: W_def)
  then obtain c4 where c4:
    "forE [0..<2] (place_ramp X) (c3', W + nat T) = Inr (c4, W + nat T + 2)"
    "obj_frame c4 = obj_frame c3'" "grows c3' c4"
    "boxes c4 = boxes c3'" "boxSizes c4 = boxSizes c3'"
    "\<forall>i<2. is_obj c4 Ramp (ramps c4 ! i)"
    and i4: "nextEntity c4 = nextEntity c3' + 2"
      "take (W + nat T + 2) (obstacles c4) =
         take (W + nat T) (obstacles c3') @ [nextEntity c3'..<nextEntity c3' + 2]"
      "\<forall>i<2. ramps c4 ! i = nextEntity c3' + i"
    by auto
  define c4' where "c4' = c4\<lparr>numActiveRamps := maxRamps\<rparr>"
  have base4: "tables c4' = tables ctx" "numHiders c4' = 0" "numSeekers c4' = 0"
    "numActiveAgents c4' = 0" "agents c4' = agents ctx"
    "curEpisodeStep c4' = curEpisodeStep ctx" "maxAgentsPerWorld c4' = maxAgentsPerWorld ctx"
    "numActiveBoxes c4' = T" "numActiveRamps c4' = 2"
    "curEpisodeRNDCounter c4' = curEpisodeRNDCounter ctx"
    "config_of c4' = config_of ctx" "resetLevel c4' = resetLevel ctx"
    "curWorldEpisode c4' = curWorldEpisode ctx"
    using c1(2) c2(2) c3(2) c4(2) zero
    by (simp_all add: c4'_def c3'_def obj_frame_def maxRamps_def tables_upd config_of_def)
  have g4: "grows ctx c4'"
  proof -
    have "grows c4 c4'" by (simp add: c4'_def grows_def)
    then show ?thesis
      using c1(3) c2(3) c3(3) c3'f(5) c4(3) by (blast intro: grows_trans)
  qed
  have boxes4: "boxes c4' = boxes c3" "boxSizes c4' = boxSizes c3" "ramps c4' = ramps c4"
    using c4(4,5) c3'f(3,4) by (simp_all add: c4'_def)
  \<comment> \<open>hiders\<close>
  have "\<exists>c. forE [0..<nat nh] (place_agent X Hider (W + nat T + 2)) c4' = Inr c
           \<and> agent_frame c = agent_frame c4' \<and> grows c4' c
           \<and> numActiveAgents c = numActiveAgents c4' + int (nat nh)
           \<and> numHiders c = numHiders c4' + (if Hider = Hider then int (nat nh) else 0)
           \<and> numSeekers c = numSeekers c4' + (if Hider = Seeker then int (nat nh) else 0)
           \<and> (\<forall>i. i < nat (numActiveAgents c4') \<or> nat (numActiveAgents c4') + nat nh \<le> i \<longrightarrow>
                  agents c ! i = agents c4' ! i)
           \<and> (\<forall>i<nat nh. activated c Hider (agents c4' ! (nat (numActiveAgents c4') + i))
                         (agents c ! (nat (numActiveAgents c4') + i)))
           \<and> nextEntity c = nextEntity c4' + nat nh
           \<and> (\<forall>i<nat nh. sim_e (agents c ! (nat (numActiveAgents c4') + i)) =
                       Some (nextEntity c4' + i))"
    using base4 cnt len by (intro agent_loop_ok) (simp_all add: tables_def)
  then obtain c5 where c5:
    "forE [0..<nat nh] (place_agent X Hider (W + nat T + 2)) c4' = Inr c5"
    "agent_frame c5 = agent_frame c4'" "grows c4' c5"
    "numActiveAgents c5 = nh" "numHiders c5 = nh" "numSeekers c5 = 0"
    "\<forall>i. nat nh \<le> i \<longrightarrow> agents c5 ! i = agents ctx ! i"
    "\<forall>i<nat nh. activated c5 Hider (agents ctx ! i) (agents c5 ! i)"
    and i5: "nextEntity c5 = nextEntity c4' + nat nh"
      "\<forall>i<nat nh. sim_e (agents c5 ! i) = Some (nextEntity c4' + i)"
    using base4 cnt by auto
  note f5 = agent_frame_facts [OF c5(2)]
  \<comment> \<open>seekers\<close>
  have "\<exists>c. forE [0..<nat ns] (place_agent X Seeker (W + nat T + 2)) c5 = Inr c
           \<and> agent_frame c = agent_frame c5 \<and> grows c5 c
           \<and> numActiveAgents c = numActiveAgents c5 + int (nat ns)
           \<and> numHiders c = numHiders c5 + (if Seeker = Hider then int (nat ns) else 0)
           \<and> numSeekers c = numSeekers c5 + (if Seeker = Seeker then int (nat ns) else 0)
           \<and> (\<forall>i. i < nat (numActiveAgents c5) \<or> nat (numActiveAgents c5) + nat ns \<le> i \<longrightarrow>
                  agents c ! i = agents c5 ! i)
           \<and> (\<forall>i<nat ns. activated c Seeker (agents c5 ! (nat (numActiveAgents c5) + i))
                         (agents c ! (nat (numActiveAgents c5) + i)))
           \<and> nextEntity c = nextEntity c5 + nat ns
           \<and> (\<forall>i<nat ns. sim_e (agents c ! (nat (numActiveAgents c5) + i)) =
                       Some (nextEntity c5 + i))"
    using base4 c5(4,5,6) f5 cnt len by (intro agent_loop_ok) (simp_all add: tables_def)
  then obtain c6 where c6:
    "forE [0..<nat ns] (place_agent X Seeker (W + nat T + 2)) c5 = Inr c6"
    "agent_frame c6 = agent_frame c5" "grows c5 c6"
    "numActiveAgents c6 = nh + ns" "numHiders c6 = nh" "numSeekers c6 = ns"
    "\<forall>i. i < nat nh \<or> nat nh + nat ns \<le> i \<longrightarrow> agents c6 ! i = agents c5 ! i"
    "\<forall>i<nat ns. activated c6 Seeker (agents c5 ! (nat nh + i)) (agents c6 ! (nat nh + i))"
    and i6: "nextEntity c6 = nextEntity c5 + nat ns"
      "\<forall>i<nat ns. sim_e (agents c6 ! (nat nh + i)) = Some (nextEntity c5 + i)"
    using c5(4,5,6) cnt by auto
  note f6 = agent_frame_facts [OF c6(2)]
  \<comment> \<open>the floor plane\<close>
  have af: "agent_frame c6 = agent_frame c4'" using c6(2) c5(2) by simp
  have "W + nat T + 2 < length (obstacles c6)"
    using af base4(1) len TE walls by (simp add: agent_frame_def tables_def W_def)
  from push_made_ok [OF this, of "(0, 0, 0)" "angleAxis X 0 (1, 0, 0)" Plane Static Unownable
      "(1, 1, 1)"]
  obtain c7 where c7:
    "push_made (makePlane c6 (0, 0, 0) (angleAxis X 0 (1, 0, 0))) (W + nat T + 2) =
       Inr (c7, Suc (W + nat T + 2))"
    "obj_frame c7 = obj_frame c6" "grows c6 c7"
    "boxes c7 = boxes c6" "boxSizes c7 = boxSizes c6" "ramps c7 = ramps c6"
    and i7: "obstacles c7 = (obstacles c6)[W + nat T + 2 := nextEntity c6]"
    unfolding makePlane_def by blast
  define c8 where "c8 = c7\<lparr>numObstacles := int (Suc (W + nat T + 2))\<rparr>"
  have Teq: "sampleI32 X (rng ctx) 3 10 = T" by (simp add: T_def sampled_total_def)
  have Eeq: "sampleI32 X (rng_advance (rng ctx)) 3 T = E"
    by (simp add: E_def T_def sampled_elongated_def)
  have res: "generateTrainingEnvironment X ctx nh ns = Inr c8"
    using TE c1(1) c2(1) c3(1) c4(1) c5(1) c6(1) c7(1)
    unfolding generateTrainingEnvironment_def
    by (simp add: Let_def bindE_def Teq Eeq g2_def [symmetric] maxBoxes_def
        maxRamps_def c3'_def c4'_def c8_def push_made_def n3)
  have g8: "grows c4' c8"
  proof -
    have "grows c7 c8" by (simp add: c8_def grows_def)
    then show ?thesis using c5(3) c6(3) c7(3) by (blast intro: grows_trans)
  qed
  have eq8: "boxes c8 = boxes c3" "boxSizes c8 = boxSizes c3" "ramps c8 = ramps c4"
    "agents c8 = agents c6" "tables c8 = tables ctx"
    "numActiveBoxes c8 = T" "numActiveRamps c8 = 2"
    "numHiders c8 = nh" "numSeekers c8 = ns" "numActiveAgents c8 = nh + ns"
    "curEpisodeStep c8 = curEpisodeStep ctx" "maxAgentsPerWorld c8 = maxAgentsPerWorld ctx"
    "curEpisodeRNDCounter c8 = curEpisodeRNDCounter c6"
    "curEpisodeRNDCounter c6 = curEpisodeRNDCounter c5"
    "config_of c8 = config_of ctx" "resetLevel c8 = resetLevel ctx"
    "curWorldEpisode c8 = curWorldEpisode ctx"
    using c7(2,4,5,6) af boxes4 base4 c6(4,5,6) c6(2) c5(2)
    by (simp_all add: c8_def obj_frame_def agent_frame_def tables_upd config_of_def)
  have g68: "grows c6 c8" "grows c5 c8"
  proof -
    have "grows c7 c8" by (simp add: c8_def grows_def)
    then show "grows c6 c8" using c7(3) by (blast intro: grows_trans)
    then show "grows c5 c8" using c6(3) by (blast intro: grows_trans)
  qed
  have g38: "grows c3 c8" "grows c2 c8" "grows c4 c8"
  proof -
    have a: "grows c4 c4'" by (simp add: c4'_def grows_def)
    then show "grows c4 c8" using g8 by (blast intro: grows_trans)
    then show "grows c3 c8" using c3'f(5) c4(3) by (blast intro: grows_trans)
    then show "grows c2 c8" using c3(3) by (blast intro: grows_trans)
  qed
  have elong: "\<forall>i<nat E. is_obj c8 Box (boxes c8 ! i) \<and> boxSizes c8 ! i = (8, 1.5)"
    using c2(4) c3(5) g38(2) eq8(1,2) by (auto intro: is_obj_grows)
  have cubes: "\<forall>i. nat E \<le> i \<and> i < nat T \<longrightarrow>
                 is_obj c8 Cube (boxes c8 ! i) \<and> boxSizes c8 ! i = (2, 2)"
  proof (intro allI impI)
    fix i assume i: "nat E \<le> i \<and> i < nat T"
    then have "i - nat E < nat (T - E)" using TE by auto
    with c3(4) have "is_obj c3 Cube (boxes c3 ! (nat E + (i - nat E))) \<and>
         boxSizes c3 ! (nat E + (i - nat E)) = (2, 2)" by blast
    then show "is_obj c8 Cube (boxes c8 ! i) \<and> boxSizes c8 ! i = (2, 2)"
      using i g38(1) eq8(1,2) by (auto intro: is_obj_grows)
  qed
  have rmp: "\<forall>i<2. is_obj c8 Ramp (ramps c8 ! i)"
    using c4(6) g38(3) eq8(3) by (auto intro: is_obj_grows)
  have hid: "\<forall>i<nat nh. activated c8 Hider (agents ctx ! i) (agents c8 ! i)"
  proof (intro allI impI)
    fix i assume i: "i < nat nh"
    then have "activated c5 Hider (agents ctx ! i) (agents c5 ! i)" using c5(8) by simp
    then have "activated c8 Hider (agents ctx ! i) (agents c5 ! i)"
      using g68(2) eq8(13,14) by (auto intro: activated_grows)
    then show "activated c8 Hider (agents ctx ! i) (agents c8 ! i)"
      using c6(7) i eq8(4) by simp
  qed
  have skr: "\<forall>i. nat nh \<le> i \<and> i < nat nh + nat ns \<longrightarrow>
               activated c8 Seeker (agents ctx ! i) (agents c8 ! i)"
  proof (intro allI impI)
    fix i assume i: "nat nh \<le> i \<and> i < nat nh + nat ns"
    then have "i - nat nh < nat ns" by auto
    with c6(8) have "activated c6 Seeker (agents c5 ! (nat nh + (i - nat nh)))
        (agents c6 ! (nat nh + (i - nat nh)))" by blast
    then have "activated c6 Seeker (agents ctx ! i) (agents c6 ! i)"
      using i c5(7) by simp
    then show "activated c8 Seeker (agents ctx ! i) (agents c8 ! i)"
      using g68(1) eq8(4,13) by (auto intro: activated_grows)
  qed
  have rest: "\<forall>i. nat nh + nat ns \<le> i \<longrightarrow> agents c8 ! i = agents ctx ! i"
    using c6(7) c5(7) eq8(4) by simp
  have nobs: "numObstacles c8 = int W + T + 3" using TE by (simp add: c8_def)
  \<comment> \<open>the entities, in the order of their creation\<close>
  define N where "N = nextEntity ctx"
  have TE': "nat E + nat (T - E) = nat T" using TE by simp
  have n3': "nextEntity c3' = N + W + nat T"
    using i1(1) i2(1) i3(1) TE' by (simp add: c3'_def N_def)
  have n4: "nextEntity c4' = N + W + nat T + 2" using i4(1) n3' by (simp add: c4'_def)
  have n5: "nextEntity c5 = N + W + nat T + 2 + nat nh" using i5(1) n4 by simp
  have o3: "take (W + nat T) (obstacles c3') = [N..<N + W + nat T]"
  proof -
    have "take (W + nat E) (obstacles c2) = [N..<N + W + nat E]"
      using i2(2) i1 by (simp add: N_def upt_app)
    then have "take (W + nat E + nat (T - E)) (obstacles c3) = [N..<N + W + nat E + nat (T - E)]"
      using i3(2) i2(1) i1(1) upt_app [of N "W + nat E" "nat (T - E)"]
      by (simp add: N_def add.assoc)
    then show ?thesis using TE' by (simp add: c3'_def add.assoc)
  qed
  have o4: "take (W + nat T + 2) (obstacles c4) = [N..<N + W + nat T + 2]"
    using i4(2) o3 n3' upt_app [of N "W + nat T" 2] by (simp add: add.assoc)
  have obs6: "obstacles c6 = obstacles c4"
    using af by (simp add: agent_frame_def c4'_def)
  have o8: "take (W + nat T + 2) (obstacles c8) = [N..<N + W + nat T + 2]"
    using o4 i7 obs6 by (simp add: c8_def)
  have b8: "\<forall>i<nat T. boxes c8 ! i = N + W + i"
  proof (intro allI impI)
    fix i assume i: "i < nat T"
    show "boxes c8 ! i = N + W + i"
    proof (cases "i < nat E")
      case True
      then show ?thesis using i2(3) c3(5) eq8(1) i1(1) by (simp add: N_def)
    next
      case False
      then have "i - nat E < nat (T - E)" using i TE by auto
      with i3(3) have "boxes c3 ! (nat E + (i - nat E)) = nextEntity c2 + (i - nat E)" by blast
      then show ?thesis using False eq8(1) i2(1) i1(1) by (simp add: N_def)
    qed
  qed
  have r8: "\<forall>i<2. ramps c8 ! i = N + W + nat T + i"
    using i4(3) n3' eq8(3) by simp
  have a8: "\<forall>i<nat nh + nat ns. sim_e (agents c8 ! i) = Some (N + W + nat T + 2 + i)"
  proof (intro allI impI)
    fix i assume i: "i < nat nh + nat ns"
    show "sim_e (agents c8 ! i) = Some (N + W + nat T + 2 + i)"
    proof (cases "i < nat nh")
      case True
      then show ?thesis using i5(2) c6(7) eq8(4) n4 by simp
    next
      case False
      then have "i - nat nh < nat ns" using i by auto
      with i6(2) have "sim_e (agents c6 ! (nat nh + (i - nat nh))) =
          Some (nextEntity c5 + (i - nat nh))" by blast
      then show ?thesis using False eq8(4) n5 by simp
    qed
  qed
  have "grows ctx c8" using g4 g8 by (blast intro: grows_trans)
  then show ?thesis
    using res eq8(5-12) eq8(15-17) nobs elong cubes rmp hid skr rest b8 r8 a8 o8
    unfolding T_def E_def W_def N_def by blast
qed

section \<open>Level generation: counts, placement budget, capacities\<close>

lemma in_rangeD1:
  "sampleI32_in_range X \<Longrightarrow> a < b \<Longrightarrow> a \<le> sampleI32 X g a b \<and> sampleI32 X g a b < b"
  by (simp add: sampleI32_in_range_def)

lemma in_rangeD2: "sampleI32_in_range X \<Longrightarrow> b \<le> a \<Longrightarrow> sampleI32 X g a b = a"
  by (simp add: sampleI32_in_range_def)

lemma in_range_counts:
  assumes "sampleI32_in_range X"
  shows "3 \<le> sampled_total X ctx" "sampled_total X ctx \<le> 9"
    "3 \<le> sampled_elongated X ctx" "sampled_elongated X ctx \<le> sampled_total X ctx"
    "3 < sampled_total X ctx \<longrightarrow> sampled_elongated X ctx < sampled_total X ctx"
proof -
  have a: "3 \<le> sampleI32 X (rng ctx) 3 10 \<and> sampleI32 X (rng ctx) 3 10 < 10"
    by (rule in_rangeD1 [OF assms]) simp
  then show t: "3 \<le> sampled_total X ctx" "sampled_total X ctx \<le> 9"
    by (simp_all add: sampled_total_def)
  show "3 \<le> sampled_elongated X ctx" "sampled_elongated X ctx \<le> sampled_total X ctx"
    "3 < sampled_total X ctx \<longrightarrow> sampled_elongated X ctx < sampled_total X ctx"
  proof -
    consider "3 < sampled_total X ctx" | "sampled_total X ctx \<le> 3" by linarith
    then have "3 \<le> sampled_elongated X ctx \<and> sampled_elongated X ctx \<le> sampled_total X ctx \<and>
      (3 < sampled_total X ctx \<longrightarrow> sampled_elongated X ctx < sampled_total X ctx)"
    proof cases
      case 1
      from in_rangeD1 [OF assms 1, of "rng_advance (rng ctx)"]
      show ?thesis by (simp add: sampled_elongated_def)
    next
      case 2
      from in_rangeD2 [OF assms 2, of "rng_advance (rng ctx)"] t 2
      show ?thesis by (simp add: sampled_elongated_def)
    qed
    then show "3 \<le> sampled_elongated X ctx" "sampled_elongated X ctx \<le> sampled_total X ctx"
      "3 < sampled_total X ctx \<longrightarrow> sampled_elongated X ctx < sampled_total X ctx"
      by simp_all
  qed
qed

lemma generation_counts:
  assumes "sampleI32_in_range X" "static_fits X" "fresh_tables ctx"
    and "0 \<le> nh" "nh \<le> 3" "0 \<le> ns" "ns \<le> 3" "nat nh + nat ns \<le> length (agents ctx)"
  shows "\<exists>c. generateTrainingEnvironment X ctx nh ns = Inr c
           \<and> tables c = tables ctx
           \<and> numActiveBoxes c = sampled_total X ctx
           \<and> numActiveRamps c = 2
           \<and> numHiders c = nh \<and> numSeekers c = ns \<and> numActiveAgents c = nh + ns
           \<and> numObstacles c = int (length (static_walls X ctx)) + sampled_total X ctx + 3
           \<and> curEpisodeStep c = curEpisodeStep ctx
           \<and> maxAgentsPerWorld c = maxAgentsPerWorld ctx
           \<and> config_of c = config_of ctx \<and> resetLevel c = resetLevel ctx
           \<and> curWorldEpisode c = curWorldEpisode ctx
           \<and> grows ctx c
           \<and> (\<forall>i<nat (sampled_elongated X ctx).
                  is_obj c Box (boxes c ! i) \<and> boxSizes c ! i = (8, 1.5))
           \<and> (\<forall>i. nat (sampled_elongated X ctx) \<le> i \<and> i < nat (sampled_total X ctx) \<longrightarrow>
                  is_obj c Cube (boxes c ! i) \<and> boxSizes c ! i = (2, 2))
           \<and> (\<forall>i<2. is_obj c Ramp (ramps c ! i))
           \<and> (\<forall>i<nat nh. activated c Hider (agents ctx ! i) (agents c ! i))
           \<and> (\<forall>i. nat nh \<le> i \<and> i < nat nh + nat ns \<longrightarrow>
                  activated c Seeker (agents ctx ! i) (agents c ! i))
           \<and> (\<forall>i. nat nh + nat ns \<le> i \<longrightarrow> agents c ! i = agents ctx ! i)
           \<and> (\<forall>i<nat (sampled_total X ctx).
                  boxes c ! i = nextEntity ctx + length (static_walls X ctx) + i)
           \<and> (\<forall>i<2. ramps c ! i =
                  nextEntity ctx + length (static_walls X ctx) + nat (sampled_total X ctx) + i)
           \<and> (\<forall>i<nat nh + nat ns. sim_e (agents c ! i) =
                  Some (nextEntity ctx + length (static_walls X ctx) +
                        nat (sampled_total X ctx) + 2 + i))
           \<and> take (length (static_walls X ctx) + nat (sampled_total X ctx) + 2) (obstacles c) =
               [nextEntity ctx..<nextEntity ctx + length (static_walls X ctx) +
                                  nat (sampled_total X ctx) + 2]"
proof -
  have tb: "tables ctx = (3, 3, 9, 9, 2, 57, length (agents ctx))"
    and zero: "numHiders ctx = 0" "numSeekers ctx = 0" "numActiveAgents ctx = 0"
    using assms(3)
    by (simp_all add: fresh_tables_def tables_def maxBoxes_def maxRamps_def
        max_total_entities_def maxAgents_def)
  have walls: "length (static_walls X ctx) \<le> 45"
    using assms(2)
    by (simp add: static_fits_def static_walls_def maxBoxes_def maxRamps_def
        max_total_entities_def maxAgents_def)
  show ?thesis
    by (rule generateTraining_ok [OF tb zero assms(4-8) in_range_counts(1-4) [OF assms(1)] walls])
qed

lemma test_ext_in_range: "sampleI32_in_range (test_ext hit ov)"
proof -
  have "a + k mod (b - a) < b \<and> a \<le> a + k mod (b - a)" if "a < b" for a b k :: int
    using pos_mod_bound [of "b - a" k] pos_mod_sign [of "b - a" k] that by linarith
  then show ?thesis
    by (simp add: sampleI32_in_range_def test_ext_def test_sampleI32_def)
qed

lemma test_ext_fits: "static_fits (test_ext hit ov)"
  by (simp add: static_fits_def test_ext_def maxBoxes_def maxRamps_def maxAgents_def
      max_total_entities_def)

lemma test_sim_fresh:
  "0 < h + s \<Longrightarrow> h + s \<le> 16 \<Longrightarrow>
   fresh_tables (test_sim (test_cfg mh h ms s)) \<and>
   length (agents (test_sim (test_cfg mh h ms s))) = nat (h + s) \<and>
   rng (test_sim (test_cfg mh h ms s)) = \<lparr>rng_key = (0, 0), rng_count = 0\<rparr>"
  by (simp add: test_sim_def Sim_init_def test_cfg_def test_mem_def fresh_tables_def
      maxBoxes_def maxRamps_def maxAgents_def max_total_entities_def Let_def)

lemma test_fresh_facts:
  "fresh_tables test_fresh" "length (agents test_fresh) = 2"
  "rng test_fresh = \<lparr>rng_key = (0, 0), rng_count = 2\<rparr>"
  using test_sim_fresh [of 1 1 1 0] by (simp_all add: test_fresh_def fresh_tables_def)

lemma test_fresh_samples:
  "sampled_total (test_ext hit ov) test_fresh = 5"
  "sampled_elongated (test_ext hit ov) test_fresh = 4"
proof -
  show t: "sampled_total (test_ext hit ov) test_fresh = 5"
    by (simp add: sampled_total_def test_fresh_facts test_ext_def test_sampleI32_def)
  show "sampled_elongated (test_ext hit ov) test_fresh = 4"
    by (simp add: sampled_elongated_def t)
       (simp add: test_ext_def test_sampleI32_def test_fresh_facts rng_advance_def)
qed

text \<open>
  Claim C7, what the code does where it departs from the claim. The elongated
  count is drawn by \<open>sampleI32(3, total_num_boxes)\<close>, with the total as the upper end
  of a half-open range (the calls \<open>sampleI32(3, 10)\<close> for at most 9 boxes and
  \<open>sampleI32(minHiders, maxHiders + 1)\<close> pass the maximum plus one). For every sampler
  that keeps to a non-empty half-open range, and in a world as \<open>resetEnvironment\<close>
  leaves it with the team sizes inside the team tables: whenever the total
  exceeds 3, the total is at most 9 = \<open>maxBoxes\<close>, the elongated count is at least 3
  and strictly below the total, generation returns a world with the total as
  \<open>numActiveBoxes\<close>, the first \<open>num_elongated\<close> box slots hold live elongated boxes of
  size 8 by 1.5, the remaining slots hold live cubes of size 2 by 2, and the last
  slot always holds a cube: no episode with more than 3 boxes has only elongated
  boxes. When the total is 3 the range of the second draw is empty.
\<close>

theorem elongated_below_total:
  assumes "sampleI32_half_open X" "static_fits X" "fresh_tables ctx"
    and "0 \<le> nh" "nh \<le> 3" "0 \<le> ns" "ns \<le> 3" "nat nh + nat ns \<le> length (agents ctx)"
    and "3 < sampled_total X ctx"
  shows "sampled_total X ctx \<le> maxBoxes
       \<and> 3 \<le> sampled_elongated X ctx \<and> sampled_elongated X ctx < sampled_total X ctx
       \<and> sampled_elongated X ctx = sampleI32 X (rng_advance (rng ctx)) 3 (sampled_total X ctx)
       \<and> (\<exists>c. generateTrainingEnvironment X ctx nh ns = Inr c
             \<and> numActiveBoxes c = sampled_total X ctx
             \<and> (\<forall>i<nat (sampled_elongated X ctx).
                    is_obj c Box (boxes c ! i) \<and> boxSizes c ! i = (8, 1.5))
             \<and> (\<forall>i. nat (sampled_elongated X ctx) \<le> i \<and> i < nat (sampled_total X ctx) \<longrightarrow>
                    is_obj c Cube (boxes c ! i) \<and> boxSizes c ! i = (2, 2))
             \<and> is_obj c Cube (boxes c ! (nat (sampled_total X ctx) - 1)))"
proof -
  have ho: "a < b \<Longrightarrow> a \<le> sampleI32 X g a b \<and> sampleI32 X g a b < b" for g a b
    using assms(1) by (simp add: sampleI32_half_open_def)
  have t: "3 \<le> sampled_total X ctx" "sampled_total X ctx \<le> 9"
    using ho [where a = 3 and b = 10 and g = "rng ctx"] by (simp_all add: sampled_total_def)
  have e: "3 \<le> sampled_elongated X ctx" "sampled_elongated X ctx < sampled_total X ctx"
    using ho [OF assms(9), where g = "rng_advance (rng ctx)"] by (simp_all add: sampled_elongated_def)
  then have e': "sampled_elongated X ctx \<le> sampled_total X ctx" by simp
  have tb: "tables ctx = (3, 3, 9, 9, 2, 57, length (agents ctx))"
    and zero: "numHiders ctx = 0" "numSeekers ctx = 0" "numActiveAgents ctx = 0"
    using assms(3)
    by (simp_all add: fresh_tables_def tables_def maxBoxes_def maxRamps_def
        max_total_entities_def maxAgents_def)
  have walls: "length (static_walls X ctx) \<le> 45"
    using assms(2)
    by (simp add: static_fits_def static_walls_def maxBoxes_def maxRamps_def
        max_total_entities_def maxAgents_def)
  from generateTraining_ok [OF tb zero assms(4-8) t e(1) e' walls]
  obtain c where c: "generateTrainingEnvironment X ctx nh ns = Inr c"
    "numActiveBoxes c = sampled_total X ctx"
    "\<forall>i<nat (sampled_elongated X ctx). is_obj c Box (boxes c ! i) \<and> boxSizes c ! i = (8, 1.5)"
    "\<forall>i. nat (sampled_elongated X ctx) \<le> i \<and> i < nat (sampled_total X ctx) \<longrightarrow>
         is_obj c Cube (boxes c ! i) \<and> boxSizes c ! i = (2, 2)"
    by blast
  have "nat (sampled_elongated X ctx) \<le> nat (sampled_total X ctx) - 1
        \<and> nat (sampled_total X ctx) - 1 < nat (sampled_total X ctx)"
    using e t by linarith
  then have last: "is_obj c Cube (boxes c ! (nat (sampled_total X ctx) - 1))"
    using c(4) by blast
  show ?thesis
    using t e c last by (auto simp: maxBoxes_def sampled_elongated_def)
qed

lemma test_ext_half_open: "sampleI32_half_open (test_ext hit ov)"
  using test_ext_in_range [of hit ov]
  by (simp add: sampleI32_half_open_def sampleI32_in_range_def)

text \<open>
  With the test sampler the total is 5 and the second draw is from the range of 3
  and 4: it is 4, and slot 4 holds the cube.
\<close>

theorem elongated_below_total_witness:
  "sampleI32_half_open (test_ext None False) \<and> static_fits (test_ext None False)
   \<and> fresh_tables test_fresh
   \<and> sampled_total (test_ext None False) test_fresh = 5
   \<and> sampled_elongated (test_ext None False) test_fresh = 4
   \<and> (\<exists>c. generateTrainingEnvironment (test_ext None False) test_fresh 1 1 = Inr c
         \<and> numActiveBoxes c = 5
         \<and> is_obj c Box (boxes c ! 0) \<and> boxSizes c ! 0 = (8, 1.5)
         \<and> is_obj c Box (boxes c ! 3) \<and> boxSizes c ! 3 = (8, 1.5)
         \<and> is_obj c Cube (boxes c ! 4) \<and> boxSizes c ! 4 = (2, 2))"
proof -
  note t = test_fresh_samples(1) [of None False]
  note e = test_fresh_samples(2) [of None False]
  have n: "nat 1 + nat 1 \<le> length (agents test_fresh)"
    using test_fresh_facts(2) by simp
  have gt: "3 < sampled_total (test_ext None False) test_fresh" by (simp add: t)
  have "\<exists>c. generateTrainingEnvironment (test_ext None False) test_fresh 1 1 = Inr c
         \<and> numActiveBoxes c = 5
         \<and> (\<forall>i<4. is_obj c Box (boxes c ! i) \<and> boxSizes c ! i = (8, 1.5))
         \<and> (\<forall>i. 4 \<le> i \<and> i < 5 \<longrightarrow> is_obj c Cube (boxes c ! i) \<and> boxSizes c ! i = (2, 2))"
    using elongated_below_total [OF test_ext_half_open test_ext_fits test_fresh_facts(1) _ _ _ _ n gt]
    by (simp add: t e) blast
  then obtain c where c:
    "generateTrainingEnvironment (test_ext None False) test_fresh 1 1 = Inr c"
    "numActiveBoxes c = 5"
    "\<forall>i<4. is_obj c Box (boxes c ! i) \<and> boxSizes c ! i = (8, 1.5)"
    "\<forall>i. 4 \<le> i \<and> i < 5 \<longrightarrow> is_obj c Cube (boxes c ! i) \<and> boxSizes c ! i = (2, 2)"
    by blast
  have "is_obj c Box (boxes c ! 0) \<and> boxSizes c ! 0 = (8, 1.5)"
    "is_obj c Box (boxes c ! 3) \<and> boxSizes c ! 3 = (8, 1.5)"
    "is_obj c Cube (boxes c ! 4) \<and> boxSizes c ! 4 = (2, 2)"
    using c(3,4) by simp_all
  then show ?thesis
    using test_ext_half_open [of None False] test_ext_fits [of None False] test_fresh_facts(1)
      t e c(1,2)
    by simp
qed

lemma place_box_step:
  assumes "0 \<le> idx" "nat idx < length (boxes w)" "n < length (obstacles w)"
  shows "\<exists>w' p. placementLoop X w n obj (rng w) 0 = Some p
           \<and> place_box X obj sz idx (w, n) = Inr (w', Suc n)
           \<and> boxes w' ! nat idx = nextEntity w \<and> get_Position w' (nextEntity w) = fst p
           \<and> obstacles w' = (obstacles w)[n := nextEntity w]
           \<and> nextEntity w' = Suc (nextEntity w)"
proof -
  obtain pos rot ang j where "placementLoop X w n obj (rng w) 0 =
      Some (pos, rot, ang, rng_skip (3 * (j + 1)) (rng w), int j)"
    using placementLoop_Some [of X w n obj "rng w"] by blast
  then show ?thesis using assms
    by (simp add: place_box_def makeDynObject_default_def makeDynObject_def makeEntity_def
        push_entity_def bindE_def Let_def)
qed

lemma place_ramp_step:
  assumes "i < length (ramps w)" "n < length (obstacles w)"
  shows "\<exists>w' p. placementLoop X w n Ramp (rng w) 0 = Some p
           \<and> place_ramp X i (w, n) = Inr (w', Suc n)
           \<and> ramps w' ! i = nextEntity w \<and> get_Position w' (nextEntity w) = fst p
           \<and> obstacles w' = (obstacles w)[n := nextEntity w]
           \<and> nextEntity w' = Suc (nextEntity w)"
proof -
  obtain pos rot ang j where "placementLoop X w n Ramp (rng w) 0 =
      Some (pos, rot, ang, rng_skip (3 * (j + 1)) (rng w), int j)"
    using placementLoop_Some [of X w n Ramp "rng w"] by blast
  then show ?thesis using assms
    by (simp add: place_ramp_def makeDynObject_default_def makeDynObject_def makeEntity_def
        push_entity_def bindE_def Let_def)
qed

text \<open>
  Claim C8, as the code has it. The placement loop of every object returns:
  started with \<open>rejections = 0\<close> it makes \<open>j + 1\<close> sampling attempts (three samples
  each) with \<open>j \<le> max_rejections = 20\<close>, so at most 21 attempts per object. Every
  attempt before the accepted one overlapped one of the first \<open>n\<close> entries of
  \<open>all_entities\<close>; the accepted attempt overlaps none of them, or it is the 21st,
  taken unconditionally after 20 rejections.

  The body of the box loops and of the ramp loop, run with \<open>n\<close> entries in
  \<open>all_entities\<close>, creates the object as the next entity at the position the loop
  returns for these \<open>n\<close> entries and enters it as entry \<open>n\<close>, so the next object is
  checked against \<open>n + 1\<close> entries.

  In a world as \<open>resetEnvironment\<close> leaves it, with at most 3 hiders and at most 3
  seekers, generation returns a world with exactly the sampled number of boxes,
  \<open>maxRamps\<close> ramps and the given numbers of hiders and seekers, each a live entity
  of its own: the entities are created one after the other, the walls first, then
  the boxes, the ramps and the agents, and after the \<open>W\<close> walls entry \<open>W + i\<close> of
  \<open>all_entities\<close> is box \<open>i\<close> and entry \<open>W + total + i\<close> is ramp \<open>i\<close>. So the entries a
  box or ramp is checked against are the objects placed before it.
\<close>

theorem placement_bounded:
  assumes "sampleI32_in_range X" "static_fits X" "fresh_tables ctx"
    and "0 \<le> nh" "nh \<le> 3" "0 \<le> ns" "ns \<le> 3" "nat nh + nat ns \<le> length (agents ctx)"
  shows "(\<exists>j. int j \<le> max_rejections \<and> max_rejections = 20
            \<and> placementLoop X w n obj g 0 =
                Some (fst (pose_at X (rng_skip (3 * j) g)),
                      fst (snd (pose_at X (rng_skip (3 * j) g))),
                      snd (snd (pose_at X (rng_skip (3 * j) g))),
                      rng_skip (3 * (j + 1)) g, int j)
            \<and> (accepts X w n obj (rng_skip (3 * j) g) \<or> int j = max_rejections)
            \<and> (\<forall>i<j. \<not> accepts X w n obj (rng_skip (3 * i) g)))
       \<and> (0 \<le> idx \<and> nat idx < length (boxes w) \<and> n < length (obstacles w) \<longrightarrow>
            (\<exists>w' p. placementLoop X w n obj (rng w) 0 = Some p
               \<and> place_box X obj sz idx (w, n) = Inr (w', Suc n)
               \<and> boxes w' ! nat idx = nextEntity w \<and> get_Position w' (nextEntity w) = fst p
               \<and> obstacles w' = (obstacles w)[n := nextEntity w]
               \<and> nextEntity w' = Suc (nextEntity w)))
       \<and> (k < length (ramps w) \<and> n < length (obstacles w) \<longrightarrow>
            (\<exists>w' p. placementLoop X w n Ramp (rng w) 0 = Some p
               \<and> place_ramp X k (w, n) = Inr (w', Suc n)
               \<and> ramps w' ! k = nextEntity w \<and> get_Position w' (nextEntity w) = fst p
               \<and> obstacles w' = (obstacles w)[n := nextEntity w]
               \<and> nextEntity w' = Suc (nextEntity w)))
       \<and> (\<exists>c. generateTrainingEnvironment X ctx nh ns = Inr c
             \<and> numActiveBoxes c = sampled_total X ctx
             \<and> numActiveRamps c = maxRamps
             \<and> numHiders c = nh \<and> numSeekers c = ns \<and> numActiveAgents c = nh + ns
             \<and> (\<forall>i<nat (sampled_total X ctx).
                    (is_obj c Box (boxes c ! i) \<or> is_obj c Cube (boxes c ! i))
                  \<and> boxes c ! i = nextEntity ctx + length (static_walls X ctx) + i
                  \<and> obstacles c ! (length (static_walls X ctx) + i) = boxes c ! i)
             \<and> (\<forall>i<nat maxRamps.
                    is_obj c Ramp (ramps c ! i)
                  \<and> ramps c ! i = nextEntity ctx + length (static_walls X ctx) +
                                   nat (sampled_total X ctx) + i
                  \<and> obstacles c ! (length (static_walls X ctx) +
                                     nat (sampled_total X ctx) + i) = ramps c ! i)
             \<and> (\<forall>i<nat nh. activated c Hider (agents ctx ! i) (agents c ! i))
             \<and> (\<forall>i. nat nh \<le> i \<and> i < nat nh + nat ns \<longrightarrow>
                    activated c Seeker (agents ctx ! i) (agents c ! i))
             \<and> (\<forall>i<nat nh + nat ns. sim_e (agents c ! i) =
                    Some (nextEntity ctx + length (static_walls X ctx) +
                          nat (sampled_total X ctx) + 2 + i)))"
proof -
  define W where "W = length (static_walls X ctx)"
  define T where "T = nat (sampled_total X ctx)"
  define N where "N = nextEntity ctx"
  from generation_counts [OF assms]
  obtain c where c: "generateTrainingEnvironment X ctx nh ns = Inr c"
    "numActiveBoxes c = sampled_total X ctx" "numActiveRamps c = 2"
    "numHiders c = nh" "numSeekers c = ns" "numActiveAgents c = nh + ns"
    and el: "\<forall>i<nat (sampled_elongated X ctx). is_obj c Box (boxes c ! i) \<and> boxSizes c ! i = (8, 1.5)"
    and cu: "\<forall>i. nat (sampled_elongated X ctx) \<le> i \<and> i < nat (sampled_total X ctx) \<longrightarrow>
                is_obj c Cube (boxes c ! i) \<and> boxSizes c ! i = (2, 2)"
    and ra: "\<forall>i<2. is_obj c Ramp (ramps c ! i)"
    and hi: "\<forall>i<nat nh. activated c Hider (agents ctx ! i) (agents c ! i)"
    and se: "\<forall>i. nat nh \<le> i \<and> i < nat nh + nat ns \<longrightarrow>
                activated c Seeker (agents ctx ! i) (agents c ! i)"
    and bi: "\<forall>i<T. boxes c ! i = N + W + i"
    and ri: "\<forall>i<2. ramps c ! i = N + W + T + i"
    and ai: "\<forall>i<nat nh + nat ns. sim_e (agents c ! i) = Some (N + W + T + 2 + i)"
    and ob: "take (W + T + 2) (obstacles c) = [N..<N + W + T + 2]"
    unfolding W_def T_def N_def by blast
  have nth: "obstacles c ! k = N + k" if "k < W + T + 2" for k
  proof -
    have "obstacles c ! k = take (W + T + 2) (obstacles c) ! k" using that by simp
    also have "\<dots> = N + k" unfolding ob using that nth_upt [of N k "N + W + T + 2"] by linarith
    finally show ?thesis .
  qed
  have boxes: "(is_obj c Box (boxes c ! i) \<or> is_obj c Cube (boxes c ! i))
                \<and> boxes c ! i = N + W + i \<and> obstacles c ! (W + i) = boxes c ! i"
    if "i < T" for i
  proof -
    have "is_obj c Box (boxes c ! i) \<or> is_obj c Cube (boxes c ! i)"
      using el cu that by (cases "i < nat (sampled_elongated X ctx)") (auto simp: T_def)
    moreover have "obstacles c ! (W + i) = N + (W + i)" using that by (intro nth) simp
    ultimately show ?thesis using bi that by simp
  qed
  have ramps: "is_obj c Ramp (ramps c ! i) \<and> ramps c ! i = N + W + T + i
                \<and> obstacles c ! (W + T + i) = ramps c ! i"
    if "i < 2" for i
  proof -
    have "obstacles c ! (W + T + i) = N + (W + T + i)" using that by (intro nth) simp
    then show ?thesis using ra ri that by simp
  qed
  have mr: "nat maxRamps = 2" by (simp add: maxRamps_def)
  have c3: "numActiveRamps c = maxRamps" using c(3) by (simp add: maxRamps_def)
  have gen: "\<exists>c. generateTrainingEnvironment X ctx nh ns = Inr c
             \<and> numActiveBoxes c = sampled_total X ctx
             \<and> numActiveRamps c = maxRamps
             \<and> numHiders c = nh \<and> numSeekers c = ns \<and> numActiveAgents c = nh + ns
             \<and> (\<forall>i<T.
                    (is_obj c Box (boxes c ! i) \<or> is_obj c Cube (boxes c ! i))
                  \<and> boxes c ! i = N + W + i
                  \<and> obstacles c ! (W + i) = boxes c ! i)
             \<and> (\<forall>i<2.
                    is_obj c Ramp (ramps c ! i)
                  \<and> ramps c ! i = N + W + T + i
                  \<and> obstacles c ! (W + T + i) = ramps c ! i)
             \<and> (\<forall>i<nat nh. activated c Hider (agents ctx ! i) (agents c ! i))
             \<and> (\<forall>i. nat nh \<le> i \<and> i < nat nh + nat ns \<longrightarrow>
                    activated c Seeker (agents ctx ! i) (agents c ! i))
             \<and> (\<forall>i<nat nh + nat ns. sim_e (agents c ! i) = Some (N + W + T + 2 + i))"
    using c(1,2,4,5,6) c3 boxes ramps hi se ai by blast
  have lp: "\<exists>j. int j \<le> max_rejections \<and> max_rejections = 20
            \<and> placementLoop X w n obj g 0 =
                Some (fst (pose_at X (rng_skip (3 * j) g)),
                      fst (snd (pose_at X (rng_skip (3 * j) g))),
                      snd (snd (pose_at X (rng_skip (3 * j) g))),
                      rng_skip (3 * (j + 1)) g, int j)
            \<and> (accepts X w n obj (rng_skip (3 * j) g) \<or> int j = max_rejections)
            \<and> (\<forall>i<j. \<not> accepts X w n obj (rng_skip (3 * i) g))"
    using placementLoop_returns [of X w n obj g] by (auto simp: max_rejections_def)
  have bx: "0 \<le> idx \<and> nat idx < length (boxes w) \<and> n < length (obstacles w) \<longrightarrow>
            (\<exists>w' p. placementLoop X w n obj (rng w) 0 = Some p
               \<and> place_box X obj sz idx (w, n) = Inr (w', Suc n)
               \<and> boxes w' ! nat idx = nextEntity w \<and> get_Position w' (nextEntity w) = fst p
               \<and> obstacles w' = (obstacles w)[n := nextEntity w]
               \<and> nextEntity w' = Suc (nextEntity w))"
    using place_box_step [of idx w n X obj sz] by blast
  have rp: "k < length (ramps w) \<and> n < length (obstacles w) \<longrightarrow>
            (\<exists>w' p. placementLoop X w n Ramp (rng w) 0 = Some p
               \<and> place_ramp X k (w, n) = Inr (w', Suc n)
               \<and> ramps w' ! k = nextEntity w \<and> get_Position w' (nextEntity w) = fst p
               \<and> obstacles w' = (obstacles w)[n := nextEntity w]
               \<and> nextEntity w' = Suc (nextEntity w))"
    using place_ramp_step [of k w n X] by blast
  have gen': "(\<exists>c. generateTrainingEnvironment X ctx nh ns = Inr c
             \<and> numActiveBoxes c = sampled_total X ctx
             \<and> numActiveRamps c = maxRamps
             \<and> numHiders c = nh \<and> numSeekers c = ns \<and> numActiveAgents c = nh + ns
             \<and> (\<forall>i<nat (sampled_total X ctx).
                    (is_obj c Box (boxes c ! i) \<or> is_obj c Cube (boxes c ! i))
                  \<and> boxes c ! i = nextEntity ctx + length (static_walls X ctx) + i
                  \<and> obstacles c ! (length (static_walls X ctx) + i) = boxes c ! i)
             \<and> (\<forall>i<nat maxRamps.
                    is_obj c Ramp (ramps c ! i)
                  \<and> ramps c ! i = nextEntity ctx + length (static_walls X ctx) +
                                   nat (sampled_total X ctx) + i
                  \<and> obstacles c ! (length (static_walls X ctx) +
                                     nat (sampled_total X ctx) + i) = ramps c ! i)
             \<and> (\<forall>i<nat nh. activated c Hider (agents ctx ! i) (agents c ! i))
             \<and> (\<forall>i. nat nh \<le> i \<and> i < nat nh + nat ns \<longrightarrow>
                    activated c Seeker (agents ctx ! i) (agents c ! i))
             \<and> (\<forall>i<nat nh + nat ns. sim_e (agents c ! i) =
                    Some (nextEntity ctx + length (static_walls X ctx) +
                          nat (sampled_total X ctx) + 2 + i)))"
    using gen unfolding W_def T_def N_def mr by blast
  show ?thesis by (rule conjI [OF lp conjI [OF bx conjI [OF rp gen']]])
qed

lemma crowded_rejects: "\<not> accepts (test_ext hit True) crowded_world 1 obj g"
  by (simp add: accepts_def checkOverlap_def crowded_world_def test_ext_def)

text \<open>
  Claim C8 as stated (at most 20 sampling attempts per object) fails where every
  sampled pose overlaps the one obstacle: the loop returns with \<open>rejections = 20\<close>
  after drawing 63 samples, that is after 21 attempts.
\<close>

theorem placement_bounded_counterexample:
  "placementLoop (test_ext None True) crowded_world 1 Box \<lparr>rng_key = (0, 0), rng_count = 0\<rparr> 0 =
     Some ((- 18, - 18, 1), (1, 0, 0, 0), 0, \<lparr>rng_key = (0, 0), rng_count = 63\<rparr>, 20)"
proof -
  obtain j where j: "placementLoop (test_ext None True) crowded_world 1 Box
        \<lparr>rng_key = (0, 0), rng_count = 0\<rparr> 0 =
      Some (fst (pose_at (test_ext None True) (rng_skip (3 * j) \<lparr>rng_key = (0, 0), rng_count = 0\<rparr>)),
            fst (snd (pose_at (test_ext None True) (rng_skip (3 * j) \<lparr>rng_key = (0, 0), rng_count = 0\<rparr>))),
            snd (snd (pose_at (test_ext None True) (rng_skip (3 * j) \<lparr>rng_key = (0, 0), rng_count = 0\<rparr>))),
            rng_skip (3 * (j + 1)) \<lparr>rng_key = (0, 0), rng_count = 0\<rparr>, int j)"
    "accepts (test_ext None True) crowded_world 1 Box
       (rng_skip (3 * j) \<lparr>rng_key = (0, 0), rng_count = 0\<rparr>) \<or> int j = max_rejections"
    using placementLoop_returns [of "test_ext None True" crowded_world 1 Box
        "\<lparr>rng_key = (0, 0), rng_count = 0\<rparr>"] by blast
  have "j = 20" using j(2) crowded_rejects by (simp add: max_rejections_def)
  then show ?thesis
    using j(1) by (simp add: pose_at_def test_ext_def rng_skip_def bounds_def bounds_diff_def)
qed

lemma test_fresh_walls:
  "static_walls (test_ext hit ov) test_fresh = []" "nextEntity test_fresh = 0"
  by (simp_all add: static_walls_def test_ext_def test_fresh_def test_sim_def Sim_init_def
      test_cfg_def test_mem_def maxAgents_def Let_def)

lemma test_fresh_tables:
  "length (boxes test_fresh) = 9" "length (ramps test_fresh) = 2"
  "length (obstacles test_fresh) = 57"
  using test_fresh_facts(1)
  by (simp_all add: fresh_tables_def tables_def maxBoxes_def maxRamps_def max_total_entities_def
      maxAgents_def)

text \<open>
  In the constructed world, with no entry in \<open>all_entities\<close>: the first attempt is
  accepted (three samples drawn, no rejection), and the body of the box loop and
  of the ramp loop creates entity 0 at the accepted position and enters it as
  entry 0. Generation gives a world with 5 boxes, 2 ramps, one hider and one
  seeker: the entities 0 to 4 are the boxes, 5 and 6 the ramps, 7 the hider and 8
  the seeker.
\<close>

theorem placement_bounded_witness:
  "sampleI32_in_range (test_ext None False) \<and> static_fits (test_ext None False)
   \<and> fresh_tables test_fresh
   \<and> placementLoop (test_ext None False) test_fresh 0 Box \<lparr>rng_key = (0, 0), rng_count = 2\<rparr> 0 =
      Some ((- 18, - 18, 1), (1, 0, 0, 0), 0, \<lparr>rng_key = (0, 0), rng_count = 5\<rparr>, 0)
   \<and> (\<exists>w'. place_box (test_ext None False) Box (8, 3 / 2) 0 (test_fresh, 0) = Inr (w', 1)
         \<and> boxes w' ! 0 = 0 \<and> get_Position w' 0 = (- 18, - 18, 1)
         \<and> obstacles w' ! 0 = 0 \<and> nextEntity w' = 1)
   \<and> (\<exists>w'. place_ramp (test_ext None False) 0 (test_fresh, 0) = Inr (w', 1)
         \<and> ramps w' ! 0 = 0 \<and> obstacles w' ! 0 = 0 \<and> nextEntity w' = 1)
   \<and> (\<exists>c. generateTrainingEnvironment (test_ext None False) test_fresh 1 1 = Inr c
         \<and> numActiveBoxes c = 5 \<and> numActiveRamps c = 2
         \<and> numHiders c = 1 \<and> numSeekers c = 1 \<and> numActiveAgents c = 2
         \<and> boxes c ! 0 = 0 \<and> boxes c ! 4 = 4 \<and> obstacles c ! 4 = 4
         \<and> ramps c ! 0 = 5 \<and> ramps c ! 1 = 6 \<and> obstacles c ! 6 = 6
         \<and> is_obj c Ramp (ramps c ! 1)
         \<and> sim_e (agents c ! 0) = Some 7 \<and> sim_e (agents c ! 1) = Some 8)"
proof -
  have n: "nat 1 + nat 1 \<le> length (agents test_fresh)"
    using test_fresh_facts(2) by simp
  have acc: "accepts (test_ext None False) test_fresh 0 obj g" for obj g
    by (simp add: accepts_def checkOverlap_def)
  have z: "(0::int) \<le> 1" "(1::int) \<le> 3" by simp_all
  note T = placement_bounded [where X = "test_ext None False" and ctx = test_fresh
      and nh = 1 and ns = 1 and w = test_fresh and n = 0 and obj = Box and g = "\<lparr>rng_key = (0, 0), rng_count = 2\<rparr>"
      and idx = 0 and sz = "(8, 3 / 2)" and k = 0,
      OF test_ext_in_range test_ext_fits test_fresh_facts(1) z z n]
  note A = T [THEN conjunct1]
  note B = T [THEN conjunct2, THEN conjunct1, THEN mp, unfolded test_fresh_facts(3)]
  note C = T [THEN conjunct2, THEN conjunct2, THEN conjunct1, THEN mp,
      unfolded test_fresh_facts(3)]
  note D = T [THEN conjunct2, THEN conjunct2, THEN conjunct2,
      unfolded test_fresh_walls test_fresh_samples]
  \<comment> \<open>the loop\<close>
  from A obtain j where j:
    "placementLoop (test_ext None False) test_fresh 0 Box \<lparr>rng_key = (0, 0), rng_count = 2\<rparr> 0 =
      Some (fst (pose_at (test_ext None False) (rng_skip (3 * j) \<lparr>rng_key = (0, 0), rng_count = 2\<rparr>)),
            fst (snd (pose_at (test_ext None False) (rng_skip (3 * j) \<lparr>rng_key = (0, 0), rng_count = 2\<rparr>))),
            snd (snd (pose_at (test_ext None False) (rng_skip (3 * j) \<lparr>rng_key = (0, 0), rng_count = 2\<rparr>))),
            rng_skip (3 * (j + 1)) \<lparr>rng_key = (0, 0), rng_count = 2\<rparr>, int j)"
    "\<forall>i<j. \<not> accepts (test_ext None False) test_fresh 0 Box (rng_skip (3 * i) \<lparr>rng_key = (0, 0), rng_count = 2\<rparr>)"
    by auto
  have "j = 0" using j(2) acc by (cases j) auto
  then have lp: "placementLoop (test_ext None False) test_fresh 0 Box \<lparr>rng_key = (0, 0), rng_count = 2\<rparr> 0 =
      Some ((- 18, - 18, 1), (1, 0, 0, 0), 0, \<lparr>rng_key = (0, 0), rng_count = 5\<rparr>, 0)"
    using j(1) by (simp add: pose_at_def test_ext_def rng_skip_def bounds_def bounds_diff_def)
  \<comment> \<open>the body of the box loop\<close>
  have pb: "0 \<le> (0::int) \<and> nat 0 < length (boxes test_fresh)
            \<and> 0 < length (obstacles test_fresh)"
    by (simp add: test_fresh_tables)
  from B [OF pb] obtain w' p where b:
    "placementLoop (test_ext None False) test_fresh 0 Box \<lparr>rng_key = (0, 0), rng_count = 2\<rparr> 0 = Some p"
    "place_box (test_ext None False) Box (8, 3 / 2) 0 (test_fresh, 0) = Inr (w', Suc 0)"
    "boxes w' ! nat 0 = nextEntity test_fresh"
    "get_Position w' (nextEntity test_fresh) = fst p"
    "obstacles w' = (obstacles test_fresh)[0 := nextEntity test_fresh]"
    "nextEntity w' = Suc (nextEntity test_fresh)"
    by blast
  have "p = ((- 18, - 18, 1), (1, 0, 0, 0), 0, \<lparr>rng_key = (0, 0), rng_count = 5\<rparr>, 0)"
    using b(1) unfolding lp by simp
  then have bp: "fst p = (- 18, - 18, 1)" by simp
  have bw: "place_box (test_ext None False) Box (8, 3 / 2) 0 (test_fresh, 0) = Inr (w', 1)
         \<and> boxes w' ! 0 = 0 \<and> get_Position w' 0 = (- 18, - 18, 1)
         \<and> obstacles w' ! 0 = 0 \<and> nextEntity w' = 1"
    using b(2-6) bp by (simp add: test_fresh_walls(2) test_fresh_tables)
  \<comment> \<open>the body of the ramp loop\<close>
  have pr: "0 < length (ramps test_fresh) \<and> 0 < length (obstacles test_fresh)"
    by (simp add: test_fresh_tables)
  from C [OF pr] obtain v' q where r':
    "place_ramp (test_ext None False) 0 (test_fresh, 0) = Inr (v', Suc 0)"
    "ramps v' ! 0 = nextEntity test_fresh"
    "obstacles v' = (obstacles test_fresh)[0 := nextEntity test_fresh]"
    "nextEntity v' = Suc (nextEntity test_fresh)"
    by blast
  have rw: "place_ramp (test_ext None False) 0 (test_fresh, 0) = Inr (v', 1)
         \<and> ramps v' ! 0 = 0 \<and> obstacles v' ! 0 = 0 \<and> nextEntity v' = 1"
    using r' by (simp add: test_fresh_walls(2) test_fresh_tables)
  \<comment> \<open>generation\<close>
  from D obtain c where c: "generateTrainingEnvironment (test_ext None False) test_fresh 1 1 = Inr c"
      "numActiveBoxes c = 5" "numActiveRamps c = maxRamps"
      "numHiders c = 1" "numSeekers c = 1" "numActiveAgents c = 1 + 1"
    and b5: "\<forall>i<nat 5. (is_obj c Box (boxes c ! i) \<or> is_obj c Cube (boxes c ! i))
                  \<and> boxes c ! i = 0 + length ([] :: (Vector3 \<times> Quat \<times> Vector3) list) + i
                  \<and> obstacles c ! (length ([] :: (Vector3 \<times> Quat \<times> Vector3) list) + i) = boxes c ! i"
    and r: "\<forall>i<nat maxRamps. is_obj c Ramp (ramps c ! i)
                  \<and> ramps c ! i = 0 + length ([] :: (Vector3 \<times> Quat \<times> Vector3) list) + nat 5 + i
                  \<and> obstacles c ! (length ([] :: (Vector3 \<times> Quat \<times> Vector3) list) + nat 5 + i) = ramps c ! i"
    and a: "\<forall>i<nat 1 + nat 1. sim_e (agents c ! i) =
              Some (0 + length ([] :: (Vector3 \<times> Quat \<times> Vector3) list) + nat 5 + 2 + i)"
    by blast
  have c3: "numActiveRamps c = 2" using c(3) by (simp add: maxRamps_def)
  have c6: "numActiveAgents c = 2" using c(6) by simp
  have e: "boxes c ! 0 = 0" "boxes c ! 4 = 4" "obstacles c ! 4 = 4"
    using b5 [rule_format, of 0] b5 [rule_format, of 4] by simp_all
  have r0: "0 < nat maxRamps" "1 < nat maxRamps" by (simp_all add: maxRamps_def)
  have f: "ramps c ! 0 = 5" "ramps c ! 1 = 6" "obstacles c ! 6 = 6"
    using r [rule_format, OF r0(1)] r [rule_format, OF r0(2)] by simp_all
  have f': "is_obj c Ramp (ramps c ! 1)"
    using r [rule_format, OF r0(2)] by blast
  have g: "sim_e (agents c ! 0) = Some 7" "sim_e (agents c ! 1) = Some 8"
    using a [rule_format, of 0] a [rule_format, of 1] by simp_all
  have gen: "\<exists>c. generateTrainingEnvironment (test_ext None False) test_fresh 1 1 = Inr c
         \<and> numActiveBoxes c = 5 \<and> numActiveRamps c = 2
         \<and> numHiders c = 1 \<and> numSeekers c = 1 \<and> numActiveAgents c = 2
         \<and> boxes c ! 0 = 0 \<and> boxes c ! 4 = 4 \<and> obstacles c ! 4 = 4
         \<and> ramps c ! 0 = 5 \<and> ramps c ! 1 = 6 \<and> obstacles c ! 6 = 6
         \<and> is_obj c Ramp (ramps c ! 1)
         \<and> sim_e (agents c ! 0) = Some 7 \<and> sim_e (agents c ! 1) = Some 8"
    using c(1,2,4,5) c3 c6 e f f' g by blast
  show ?thesis
    using lp bw rw gen test_ext_in_range [of None False] test_ext_fits [of None False]
      test_fresh_facts(1)
    by blast
qed

text \<open>
  Claim C10. After procedural generation (in a world as \<open>resetEnvironment\<close> leaves
  it, with team sizes inside the team tables) \<open>numActiveRamps\<close> is
  \<open>maxRamps = 2\<close>, whatever the sampler returns, and both entries of the ramp
  table are live ramp entities.
\<close>

theorem ramps_fixed:
  assumes "sampleI32_in_range X" "static_fits X" "fresh_tables ctx"
    and "0 \<le> nh" "nh \<le> 3" "0 \<le> ns" "ns \<le> 3" "nat nh + nat ns \<le> length (agents ctx)"
  shows "\<exists>c. generateTrainingEnvironment X ctx nh ns = Inr c
           \<and> numActiveRamps c = maxRamps \<and> maxRamps = 2
           \<and> length (ramps c) = 2
           \<and> is_obj c Ramp (ramps c ! 0) \<and> is_obj c Ramp (ramps c ! 1)"
proof -
  from generation_counts [OF assms]
  obtain c where c: "generateTrainingEnvironment X ctx nh ns = Inr c"
    "tables c = tables ctx" "numActiveRamps c = 2" "\<forall>i<2. is_obj c Ramp (ramps c ! i)"
    by blast
  have "length (ramps c) = 2"
    using c(2) assms(3) by (simp add: tables_def fresh_tables_def maxRamps_def)
  moreover have "is_obj c Ramp (ramps c ! 0)" "is_obj c Ramp (ramps c ! 1)"
    using c(4) by simp_all
  ultimately show ?thesis using c(1,3) by (simp add: maxRamps_def)
qed

theorem ramps_fixed_witness:
  "sampleI32_in_range (test_ext None True) \<and> static_fits (test_ext None True)
   \<and> fresh_tables test_fresh
   \<and> (\<exists>c. generateTrainingEnvironment (test_ext None True) test_fresh 1 0 = Inr c
         \<and> numActiveRamps c = 2
         \<and> is_obj c Ramp (ramps c ! 0) \<and> is_obj c Ramp (ramps c ! 1))"
proof -
  have n: "nat 1 + nat 0 \<le> length (agents test_fresh)"
    using test_fresh_facts(2) by simp
  from ramps_fixed [OF test_ext_in_range test_ext_fits test_fresh_facts(1) _ _ _ _ n,
      of None True]
  show ?thesis
    using test_ext_in_range [of None True] test_ext_fits [of None True] test_fresh_facts(1)
    by auto
qed

lemma generateTraining_split:
  "generateTrainingEnvironment X ctx nh ns = bindE (objects_part X ctx) (agents_part X nh ns)"
  by (simp add: generateTrainingEnvironment_def objects_part_def agents_part_def Let_def
      bindE_def split: sum.splits)

lemma forE_append: "forE (xs @ ys) f s = bindE (forE xs f s) (forE ys f)"
  by (induction xs arbitrary: s) (simp_all add: bindE_def split: sum.splits)

lemma objects_part_ok:
  assumes "sampleI32_in_range X" "static_fits X" "fresh_tables ctx"
  shows "\<exists>st. objects_part X ctx = Inr st \<and> tables (fst st) = tables ctx
           \<and> numHiders (fst st) = 0 \<and> numSeekers (fst st) = 0
           \<and> numActiveAgents (fst st) = 0"
proof -
  have "nat 0 + nat 0 \<le> length (agents ctx)" by simp
  from generation_counts [OF assms _ _ _ _ this]
  obtain c where c: "generateTrainingEnvironment X ctx 0 0 = Inr c" "tables c = tables ctx"
    "numHiders c = 0" "numSeekers c = 0" "numActiveAgents c = 0 + 0"
    by auto
  obtain st where st: "objects_part X ctx = Inr st"
    using c(1) unfolding generateTraining_split by (cases "objects_part X ctx") (auto simp: bindE_def)
  have "agents_part X 0 0 st = Inr c"
    using c(1) st by (simp add: generateTraining_split bindE_def)
  then have "tables c = tables (fst st) \<and> numHiders c = numHiders (fst st) \<and>
     numSeekers c = numSeekers (fst st) \<and> numActiveAgents c = numActiveAgents (fst st)"
    by (auto simp: agents_part_def bindE_def Let_def makePlane_def makeDynObject_def
        makeEntity_def push_entity_def tables_def split: if_splits)
  then show ?thesis using st c by auto
qed

lemma hider_overflow:
  assumes "numHiders ctx = 3" "length (hiders ctx) = 3"
    "0 \<le> numActiveAgents ctx" "nat (numActiveAgents ctx) < length (agents ctx)"
  shows "place_agent X Hider n i ctx = Inl TableOverflow"
proof -
  obtain pos rot ang j where "placementLoop X ctx n Agent (rng ctx) 0 =
      Some (pos, rot, ang, rng_skip (3 * (j + 1)) (rng ctx), int j)"
    using placementLoop_Some [of X ctx n Agent "rng ctx"] by blast
  then show ?thesis using assms
    by (simp add: place_agent_def makeDynAgent_def makeAgent_def makeEntity_def
        bindE_def Let_def)
qed

lemma generation_overflow:
  assumes "sampleI32_in_range X" "static_fits X" "fresh_tables ctx"
    and "3 < nh" "nat nh \<le> length (agents ctx)"
  shows "generateTrainingEnvironment X ctx nh ns = Inl TableOverflow"
proof -
  from objects_part_ok [OF assms(1-3)]
  obtain st where st: "objects_part X ctx = Inr st" "tables (fst st) = tables ctx"
    "numHiders (fst st) = 0" "numSeekers (fst st) = 0" "numActiveAgents (fst st) = 0"
    by blast
  have len: "length (hiders (fst st)) = 3" "length (agents (fst st)) = length (agents ctx)"
    using st(2) assms(3) by (simp_all add: tables_def fresh_tables_def)
  have "\<exists>c. forE [0..<3] (place_agent X Hider (snd st)) (fst st) = Inr c
           \<and> agent_frame c = agent_frame (fst st) \<and> grows (fst st) c
           \<and> numActiveAgents c = numActiveAgents (fst st) + int 3
           \<and> numHiders c = numHiders (fst st) + (if Hider = Hider then int 3 else 0)
           \<and> numSeekers c = numSeekers (fst st) + (if Hider = Seeker then int 3 else 0)
           \<and> (\<forall>i. i < nat (numActiveAgents (fst st)) \<or>
                   nat (numActiveAgents (fst st)) + 3 \<le> i \<longrightarrow>
                  agents c ! i = agents (fst st) ! i)
           \<and> (\<forall>i<3. activated c Hider (agents (fst st) ! (nat (numActiveAgents (fst st)) + i))
                         (agents c ! (nat (numActiveAgents (fst st)) + i)))
           \<and> nextEntity c = nextEntity (fst st) + 3
           \<and> (\<forall>i<3. sim_e (agents c ! (nat (numActiveAgents (fst st)) + i)) =
                     Some (nextEntity (fst st) + i))"
    using st(3,4,5) len assms(4,5) by (intro agent_loop_ok) simp_all
  then obtain c where c: "forE [0..<3] (place_agent X Hider (snd st)) (fst st) = Inr c"
    "agent_frame c = agent_frame (fst st)" "numActiveAgents c = 3" "numHiders c = 3"
    using st(3,5) by auto
  note f = agent_frame_facts [OF c(2)]
  have ov: "place_agent X Hider (snd st) 3 c = Inl TableOverflow"
    using c(3,4) f len assms(4,5) by (intro hider_overflow) simp_all
  have "[0..<nat nh] = [0..<3] @ [3..<nat nh]"
    using assms(4) upt_add_eq_append [of 0 3 "nat nh - 3"] by simp
  moreover have "[3..<nat nh] = 3 # [Suc 3..<nat nh]"
    using assms(4) by (simp add: upt_conv_Cons)
  ultimately have "forE [0..<nat nh] (place_agent X Hider (snd st)) (fst st) = Inl TableOverflow"
    using c(1) ov by (simp add: forE_append bindE_def)
  then show ?thesis
    using st(1) by (simp add: generateTraining_split bindE_def agents_part_def)
qed

lemma destroyAgent_shape:
  "\<exists>a j. destroyAgent e ctx = ctx\<lparr>alive := a, joints := j\<rparr>"
proof (cases "get_GrabData ctx e")
  case None
  have "destroyAgent e ctx = ctx\<lparr>alive := alive ctx - {e}, joints := joints ctx\<rparr>"
    using None by (simp add: destroyAgent_def)
  then show ?thesis by blast
next
  case (Some c)
  have "destroyAgent e ctx =
          ctx\<lparr>alive := alive ctx - {c} - {e}, joints := (joints ctx)(c := None)\<rparr>"
    using Some by (simp add: destroyAgent_def destroyEntity_def)
  then show ?thesis by blast
qed

lemma fold_destroyAgent_shape:
  "\<exists>a j. fold destroyAgent es ctx = ctx\<lparr>alive := a, joints := j\<rparr>"
proof (induction es arbitrary: ctx)
  case Nil
  have "ctx = ctx\<lparr>alive := alive ctx, joints := joints ctx\<rparr>" by simp
  then show ?case by (metis fold_simps(1))
next
  case (Cons e es)
  obtain a j where 1: "destroyAgent e ctx = ctx\<lparr>alive := a, joints := j\<rparr>"
    using destroyAgent_shape by blast
  obtain a' j' where 2: "fold destroyAgent es (ctx\<lparr>alive := a, joints := j\<rparr>) =
      (ctx\<lparr>alive := a, joints := j\<rparr>)\<lparr>alive := a', joints := j'\<rparr>"
    using Cons.IH by blast
  have "fold destroyAgent (e # es) ctx = ctx\<lparr>alive := a', joints := j'\<rparr>"
    using 1 2 by simp
  then show ?case by blast
qed

lemma resetEnvironment_facts:
  "tables (resetEnvironment X ctx) = tables ctx
   \<and> numHiders (resetEnvironment X ctx) = 0 \<and> numSeekers (resetEnvironment X ctx) = 0
   \<and> numActiveAgents (resetEnvironment X ctx) = 0
   \<and> curEpisodeStep (resetEnvironment X ctx) = 0
   \<and> agents (resetEnvironment X ctx) = agents ctx
   \<and> config_of (resetEnvironment X ctx) = config_of ctx
   \<and> resetLevel (resetEnvironment X ctx) = resetLevel ctx
   \<and> rng_count (rng (resetEnvironment X ctx)) = 0
   \<and> rng (resetEnvironment X ctx) = rng (initEpisodeRNG X ctx)
   \<and> curWorldEpisode (resetEnvironment X ctx) = curWorldEpisode (initEpisodeRNG X ctx)"
proof -
  define c2 where "c2 = ctx\<lparr>curEpisodeStep := 0,
      alive := alive ctx - set (take (nat (numObstacles ctx)) (obstacles ctx)),
      numObstacles := 0, numActiveBoxes := 0, numActiveRamps := 0\<rparr>"
  obtain a j where 1: "fold destroyAgent (take (nat (numHiders c2)) (hiders c2)) c2 =
      c2\<lparr>alive := a, joints := j\<rparr>"
    using fold_destroyAgent_shape by blast
  define c3 where "c3 = c2\<lparr>alive := a, joints := j, numHiders := 0\<rparr>"
  obtain a' j' where 2: "fold destroyAgent (take (nat (numSeekers c3)) (seekers c3)) c3 =
      c3\<lparr>alive := a', joints := j'\<rparr>"
    using fold_destroyAgent_shape by blast
  have "resetEnvironment X ctx =
          initEpisodeRNG X (c3\<lparr>alive := a', joints := j', numSeekers := 0, numActiveAgents := 0\<rparr>)"
    using 1 2 by (simp add: resetEnvironment_def Let_def c2_def c3_def)
  then show ?thesis
    by (simp add: initEpisodeRNG_def Let_def c3_def c2_def tables_def config_of_def)
qed

lemma deactivate_fold:
  "\<exists>rows. fold deactivate_slot ks ctx = ctx\<lparr>agents := rows\<rparr>
      \<and> length rows = length (agents ctx)
      \<and> (\<forall>i. rows ! i = (if i \<in> set ks \<and> i < length (agents ctx)
                           then (agents ctx ! i)\<lparr>sim_e := None, mask := 0\<rparr>
                           else agents ctx ! i))"
proof (induction ks arbitrary: ctx)
  case Nil
  have "ctx = ctx\<lparr>agents := agents ctx\<rparr>" by simp
  then show ?case by (intro exI [of _ "agents ctx"]) simp
next
  case (Cons k ks)
  define c1 where "c1 = deactivate_slot k ctx"
  have c1: "c1 = ctx\<lparr>agents := (agents ctx)[k := (agents ctx ! k)\<lparr>sim_e := None, mask := 0\<rparr>]\<rparr>"
    by (simp add: c1_def deactivate_slot_def)
  obtain rows where rows: "fold deactivate_slot ks c1 = c1\<lparr>agents := rows\<rparr>"
    "length rows = length (agents c1)"
    "\<forall>i. rows ! i = (if i \<in> set ks \<and> i < length (agents c1)
                       then (agents c1 ! i)\<lparr>sim_e := None, mask := 0\<rparr>
                       else agents c1 ! i)"
    using Cons.IH [of c1] by blast
  have "fold deactivate_slot (k # ks) ctx = ctx\<lparr>agents := rows\<rparr>"
    using rows(1) by (simp add: c1_def [symmetric]) (simp add: c1)
  moreover have "length rows = length (agents ctx)" using rows(2) by (simp add: c1)
  moreover have "rows ! i = (if i \<in> set (k # ks) \<and> i < length (agents ctx)
                       then (agents ctx ! i)\<lparr>sim_e := None, mask := 0\<rparr>
                       else agents ctx ! i)" for i
    using rows(3) by (cases "i = k") (auto simp: c1 list_update_beyond)
  ultimately show ?case by blast
qed

lemma generateEnvironment_training:
  assumes "sampleI32_in_range X" "static_fits X" "fresh_tables ctx"
    and "0 \<le> nh" "nh \<le> 3" "0 \<le> ns" "ns \<le> 3" "nat nh + nat ns \<le> length (agents ctx)"
    and "length (agents ctx) = nat (maxAgentsPerWorld ctx)"
  shows "\<exists>c. generateEnvironment X ctx 1 nh ns = Inr c
           \<and> tables c = tables ctx
           \<and> numActiveBoxes c = sampled_total X ctx \<and> numActiveRamps c = 2
           \<and> numHiders c = nh \<and> numSeekers c = ns \<and> numActiveAgents c = nh + ns
           \<and> curEpisodeStep c = curEpisodeStep ctx
           \<and> config_of c = config_of ctx \<and> resetLevel c = resetLevel ctx
           \<and> (\<forall>i<nat nh + nat ns. sim_e (agents c ! i) \<noteq> None \<and> mask (agents c ! i) = 1
                  \<and> action (agents c ! i) = neutral_action)
           \<and> (\<forall>i<nat nh. agent_type (agents c ! i) = Hider)
           \<and> (\<forall>i. nat nh \<le> i \<and> i < nat nh + nat ns \<longrightarrow> agent_type (agents c ! i) = Seeker)
           \<and> (\<forall>i. nat nh + nat ns \<le> i \<and> i < length (agents ctx) \<longrightarrow>
                  sim_e (agents c ! i) = None \<and> mask (agents c ! i) = 0)
           \<and> map done_v (agents c) = map done_v (agents ctx)
           \<and> map reward_v (agents c) = map reward_v (agents ctx)
           \<and> map box_obs (agents c) = map box_obs (agents ctx)
           \<and> curWorldEpisode c = curWorldEpisode ctx
           \<and> (\<forall>i<3. boxSizes c ! i = (8, 1.5))"
proof -
  from generation_counts [OF assms(1-8)]
  obtain c0 where c0: "generateTrainingEnvironment X ctx nh ns = Inr c0"
    "tables c0 = tables ctx" "numActiveBoxes c0 = sampled_total X ctx" "numActiveRamps c0 = 2"
    "numHiders c0 = nh" "numSeekers c0 = ns" "numActiveAgents c0 = nh + ns"
    "curEpisodeStep c0 = curEpisodeStep ctx" "maxAgentsPerWorld c0 = maxAgentsPerWorld ctx"
    "config_of c0 = config_of ctx \<and> resetLevel c0 = resetLevel ctx"
    "\<forall>i<nat nh. activated c0 Hider (agents ctx ! i) (agents c0 ! i)"
    "\<forall>i. nat nh \<le> i \<and> i < nat nh + nat ns \<longrightarrow>
         activated c0 Seeker (agents ctx ! i) (agents c0 ! i)"
    "\<forall>i. nat nh + nat ns \<le> i \<longrightarrow> agents c0 ! i = agents ctx ! i"
    "curWorldEpisode c0 = curWorldEpisode ctx"
    "\<forall>i<nat (sampled_elongated X ctx).
        is_obj c0 Box (boxes c0 ! i) \<and> boxSizes c0 ! i = (8, 1.5)"
    by blast
  note cfg0 = c0(10)
  define ks where "ks = [nat (numActiveAgents c0)..<nat (maxAgentsPerWorld c0)]"
  have len0: "length (agents c0) = length (agents ctx)" using c0(2) by (simp add: tables_def)
  have ks: "set ks = {i. nat nh + nat ns \<le> i \<and> i < length (agents ctx)}"
    using c0(7,9) assms(4,6,9) by (auto simp: ks_def nat_add_distrib)
  obtain rows where rows: "fold deactivate_slot ks c0 = c0\<lparr>agents := rows\<rparr>"
    "length rows = length (agents c0)"
    "\<forall>i. rows ! i = (if i \<in> set ks \<and> i < length (agents c0)
                       then (agents c0 ! i)\<lparr>sim_e := None, mask := 0\<rparr>
                       else agents c0 ! i)"
    using deactivate_fold [of ks c0] by blast
  define c where "c = c0\<lparr>agents := rows\<rparr>"
  have res: "generateEnvironment X ctx 1 nh ns = Inr c"
    using c0(1) rows(1) by (simp add: generateEnvironment_def bindE_def ks_def c_def)
  have act: "sim_e (rows ! i) \<noteq> None \<and> mask (rows ! i) = 1 \<and>
             action (rows ! i) = neutral_action \<and>
             agent_type (rows ! i) = (if i < nat nh then Hider else Seeker) \<and>
             done_v (rows ! i) = done_v (agents ctx ! i) \<and>
             reward_v (rows ! i) = reward_v (agents ctx ! i) \<and>
             box_obs (rows ! i) = box_obs (agents ctx ! i)"
    if "i < nat nh + nat ns" for i
  proof -
    have r: "rows ! i = agents c0 ! i" using rows(3) ks that by simp
    show ?thesis
    proof (cases "i < nat nh")
      case True
      then have "activated c0 Hider (agents ctx ! i) (agents c0 ! i)" using c0(11) by simp
      then show ?thesis using True r by (auto simp: activated_def)
    next
      case False
      then have "activated c0 Seeker (agents ctx ! i) (agents c0 ! i)"
        using c0(12) that by simp
      then show ?thesis using False r by (auto simp: activated_def)
    qed
  qed
  have inact: "sim_e (rows ! i) = None \<and> mask (rows ! i) = 0 \<and>
             done_v (rows ! i) = done_v (agents ctx ! i) \<and>
             reward_v (rows ! i) = reward_v (agents ctx ! i) \<and>
             box_obs (rows ! i) = box_obs (agents ctx ! i)"
    if "nat nh + nat ns \<le> i" "i < length (agents ctx)" for i
    using rows(3) ks that c0(13) len0 by simp
  have fr: "done_v (rows ! i) = done_v (agents ctx ! i) \<and>
             reward_v (rows ! i) = reward_v (agents ctx ! i) \<and>
             box_obs (rows ! i) = box_obs (agents ctx ! i)"
    if "i < length (agents ctx)" for i
    using act [of i] inact [of i] that by (cases "i < nat nh + nat ns") auto
  have maps: "map done_v rows = map done_v (agents ctx)"
    "map reward_v rows = map reward_v (agents ctx)"
    "map box_obs rows = map box_obs (agents ctx)"
    using fr rows(2) len0 by (auto intro!: nth_equalityI)
  have el: "\<forall>i<3. boxSizes c0 ! i = (8, 1.5)"
    using c0(15) in_range_counts(3) [OF assms(1), of ctx] by simp
  show ?thesis
    using res c0(2-8) cfg0 act inact maps rows(2) c0(14) el
    by (intro exI [of _ c]) (simp add: c_def tables_def config_of_def)
qed

lemma resetSystem_training:
  assumes "sampleI32_in_range X" "static_fits X" "wf_world ctx"
    and "(\<not> ignoreEpisodeLength ctx \<and> curEpisodeStep ctx = episodeLen - 1) \<or> resetLevel ctx = 1"
  shows "\<exists>c. resetSystem X ctx = Inr c
           \<and> wf_world c \<and> config_of c = config_of ctx
           \<and> curEpisodeStep c = 0 \<and> resetLevel c = 0 \<and> hiderTeamReward c = 1
           \<and> numActiveRamps c = 2 \<and> 3 \<le> numActiveBoxes c \<and> numActiveBoxes c \<le> 9
           \<and> minHiders ctx \<le> numHiders c \<and> numHiders c \<le> maxHiders ctx
           \<and> minSeekers ctx \<le> numSeekers c \<and> numSeekers c \<le> maxSeekers ctx
           \<and> numActiveAgents c = numHiders c + numSeekers c
           \<and> (\<forall>i<nat (numActiveAgents c). sim_e (agents c ! i) \<noteq> None \<and> mask (agents c ! i) = 1
                  \<and> action (agents c ! i) = neutral_action)
           \<and> (\<forall>i. nat (numActiveAgents c) \<le> i \<and> i < length (agents c) \<longrightarrow>
                  sim_e (agents c ! i) = None \<and> mask (agents c ! i) = 0)
           \<and> map done_v (agents c) = map done_v (agents ctx)
           \<and> map reward_v (agents c) = map reward_v (agents ctx)
           \<and> map box_obs (agents c) = map box_obs (agents ctx)
           \<and> curWorldEpisode c = curWorldEpisode (initEpisodeRNG X ctx)
           \<and> numHiders c =
               sampleI32 X (rng (initEpisodeRNG X ctx)) (minHiders ctx) (maxHiders ctx + 1)
           \<and> numSeekers c =
               sampleI32 X (rng_advance (rng (initEpisodeRNG X ctx)))
                 (minSeekers ctx) (maxSeekers ctx + 1)
           \<and> (\<forall>i<3. boxSizes c ! i = (8, 1.5))"
proof -
  define c1 where "c1 = (resetEnvironment X ctx)\<lparr>resetLevel := 0\<rparr>"
  define nh where "nh = sampleI32 X (rng c1) (minHiders c1) (maxHiders c1 + 1)"
  define ns where "ns = sampleI32 X (rng_advance (rng c1)) (minSeekers c1) (maxSeekers c1 + 1)"
  define c2 where "c2 = c1\<lparr>rng := rng_advance (rng_advance (rng c1))\<rparr>"
  note re = resetEnvironment_facts [of X ctx]
  have wf: "length (hiders ctx) = 3" "length (seekers ctx) = 3"
    "length (boxes ctx) = nat maxBoxes" "length (boxSizes ctx) = nat maxBoxes"
    "length (ramps ctx) = nat maxRamps" "length (obstacles ctx) = nat max_total_entities"
    "length (agents ctx) = nat (maxAgentsPerWorld ctx)"
    "maxAgentsPerWorld ctx = maxHiders ctx + maxSeekers ctx"
    "0 \<le> minHiders ctx" "minHiders ctx \<le> maxHiders ctx" "maxHiders ctx \<le> 3"
    "0 \<le> minSeekers ctx" "minSeekers ctx \<le> maxSeekers ctx" "maxSeekers ctx \<le> 3"
    using assms(3) by (simp_all add: wf_world_def)
  have cfg1: "config_of c2 = config_of ctx" "agents c2 = agents ctx" "tables c2 = tables ctx"
    "curEpisodeStep c2 = 0" "resetLevel c2 = 0"
    "numHiders c2 = 0" "numSeekers c2 = 0" "numActiveAgents c2 = 0"
    "config_of c1 = config_of ctx"
    using re by (simp_all add: c2_def c1_def config_of_def tables_def)
  have rng: "minHiders c1 = minHiders ctx" "maxHiders c1 = maxHiders ctx"
    "minSeekers c1 = minSeekers ctx" "maxSeekers c1 = maxSeekers ctx"
    "maxAgentsPerWorld c2 = maxAgentsPerWorld ctx"
    using cfg1(1,9) by (simp_all add: config_of_def)
  have nh: "minHiders ctx \<le> nh" "nh \<le> maxHiders ctx"
    using in_rangeD1 [OF assms(1), of "minHiders ctx" "maxHiders ctx + 1" "rng c1"] wf(10)
    by (simp_all add: nh_def rng)
  have ns: "minSeekers ctx \<le> ns" "ns \<le> maxSeekers ctx"
    using in_rangeD1 [OF assms(1), of "minSeekers ctx" "maxSeekers ctx + 1"
        "rng_advance (rng c1)"] wf(13)
    by (simp_all add: ns_def rng)
  have fresh: "fresh_tables c2"
    using cfg1(3,6,7,8) wf(1-6) by (simp add: fresh_tables_def tables_def)
  have bnd: "0 \<le> nh" "nh \<le> 3" "0 \<le> ns" "ns \<le> 3" "nat nh + nat ns \<le> length (agents c2)"
    "length (agents c2) = nat (maxAgentsPerWorld c2)"
    using nh ns wf cfg1(2) rng(5) by simp_all
  from generateEnvironment_training [OF assms(1,2) fresh bnd]
  obtain c where c: "generateEnvironment X c2 1 nh ns = Inr c"
    "tables c = tables c2" "numActiveBoxes c = sampled_total X c2" "numActiveRamps c = 2"
    "numHiders c = nh" "numSeekers c = ns" "numActiveAgents c = nh + ns"
    "curEpisodeStep c = curEpisodeStep c2"
    "config_of c = config_of c2" "resetLevel c = resetLevel c2"
    "\<forall>i<nat nh + nat ns. sim_e (agents c ! i) \<noteq> None \<and> mask (agents c ! i) = 1
                  \<and> action (agents c ! i) = neutral_action"
    "\<forall>i. nat nh + nat ns \<le> i \<and> i < length (agents c2) \<longrightarrow>
                  sim_e (agents c ! i) = None \<and> mask (agents c ! i) = 0"
    "map done_v (agents c) = map done_v (agents c2)"
    "map reward_v (agents c) = map reward_v (agents c2)"
    "map box_obs (agents c) = map box_obs (agents c2)"
    "curWorldEpisode c = curWorldEpisode c2"
    "\<forall>i<3. boxSizes c ! i = (8, 1.5)"
    by blast
  define c' where "c' = c\<lparr>hiderTeamReward := 1\<rparr>"
  have res: "resetSystem X ctx = Inr c'"
    using assms(4) c(1)
    by (auto simp: resetSystem_def Let_def bindE_def c1_def [symmetric] nh_def [symmetric]
        ns_def [symmetric] c2_def [symmetric] c'_def)
  have tb: "tables c' = tables ctx" using c(2) cfg1(3) by (simp add: c'_def tables_def)
  have cf: "config_of c' = config_of ctx" using c(9) cfg1(1) by (simp add: c'_def config_of_def)
  have wf': "wf_world c'"
    using tb cf assms(3) by (simp add: wf_world_def tables_def config_of_def)
  have nn: "nat (numActiveAgents c') = nat nh + nat ns"
    using c(7) bnd by (simp add: c'_def nat_add_distrib)
  have len: "length (agents c') = length (agents c2)"
    using tb cfg1(3) by (simp add: tables_def)
  have boxes: "3 \<le> numActiveBoxes c' \<and> numActiveBoxes c' \<le> 9"
    using c(3) in_range_counts(1,2) [OF assms(1), of c2] by (simp add: c'_def)
  have smp: "curWorldEpisode c' = curWorldEpisode (initEpisodeRNG X ctx)"
    "numHiders c' = sampleI32 X (rng (initEpisodeRNG X ctx)) (minHiders ctx) (maxHiders ctx + 1)"
    "numSeekers c' = sampleI32 X (rng_advance (rng (initEpisodeRNG X ctx)))
                       (minSeekers ctx) (maxSeekers ctx + 1)"
    "\<forall>i<3. boxSizes c' ! i = (8, 1.5)"
    using c(5,6,16,17) re rng(1-4)
    by (simp_all add: c'_def c2_def c1_def nh_def ns_def)
  show ?thesis
    using res wf' cf c(4-8,10-15) cfg1(2,4,5) nh ns boxes smp
    by (intro exI [of _ c']) (simp add: nn len, simp add: c'_def)
qed

lemma resetSystem_overflow:
  assumes "sampleI32_in_range X" "static_fits X"
    and "length (hiders ctx) = 3" "length (seekers ctx) = 3"
    "length (boxes ctx) = nat maxBoxes" "length (boxSizes ctx) = nat maxBoxes"
    "length (ramps ctx) = nat maxRamps" "length (obstacles ctx) = nat max_total_entities"
    and "(\<not> ignoreEpisodeLength ctx \<and> curEpisodeStep ctx = episodeLen - 1) \<or> resetLevel ctx = 1"
    and "3 < minHiders ctx" "minHiders ctx \<le> maxHiders ctx"
    "nat (maxHiders ctx) \<le> length (agents ctx)"
  shows "resetSystem X ctx = Inl TableOverflow"
proof -
  define c1 where "c1 = (resetEnvironment X ctx)\<lparr>resetLevel := 0\<rparr>"
  define nh where "nh = sampleI32 X (rng c1) (minHiders c1) (maxHiders c1 + 1)"
  define ns where "ns = sampleI32 X (rng_advance (rng c1)) (minSeekers c1) (maxSeekers c1 + 1)"
  define c2 where "c2 = c1\<lparr>rng := rng_advance (rng_advance (rng c1))\<rparr>"
  note re = resetEnvironment_facts [of X ctx]
  have cfg1: "agents c2 = agents ctx" "tables c2 = tables ctx"
    "numHiders c2 = 0" "numSeekers c2 = 0" "numActiveAgents c2 = 0"
    "config_of c1 = config_of ctx"
    using re by (simp_all add: c2_def c1_def config_of_def tables_def)
  have rng: "minHiders c1 = minHiders ctx" "maxHiders c1 = maxHiders ctx"
    using cfg1(6) by (simp_all add: config_of_def)
  have nh: "minHiders ctx \<le> nh" "nh \<le> maxHiders ctx"
    using in_rangeD1 [OF assms(1), of "minHiders ctx" "maxHiders ctx + 1" "rng c1"] assms(11)
    by (simp_all add: nh_def rng)
  have fresh: "fresh_tables c2"
    using cfg1(2-5) assms(3-8) by (simp add: fresh_tables_def tables_def)
  have "generateTrainingEnvironment X c2 nh ns = Inl TableOverflow"
    using nh assms(10,12) cfg1(1)
    by (intro generation_overflow [OF assms(1,2) fresh]) simp_all
  then show ?thesis
    using assms(9)
    by (auto simp: resetSystem_def Let_def bindE_def c1_def [symmetric] nh_def [symmetric]
        ns_def [symmetric] c2_def [symmetric] generateEnvironment_def)
qed

text \<open>
  Claim C9 against the code. The constructor rejects a configuration exactly when
  the total \<open>maxHiders + maxSeekers\<close> exceeds \<open>maxAgents = 16\<close> or is not positive;
  it does not compare a team range with the team tables. The configuration with
  4 hiders and 1 seeker is accepted (the total 5 is within 16), the constructed
  world has \<open>maxHiders = 4\<close> over a hider table of 3 entries, and the first reset
  of the init graph writes past the end of that table.
\<close>

theorem capacity_unchecked:
  "(Sim_init cfg idx mem rows = Inl AssertFailed) =
     (\<not> (cfg_maxHiders cfg + cfg_maxSeekers cfg \<le> maxAgents \<and>
         0 < cfg_maxHiders cfg + cfg_maxSeekers cfg))
   \<and> Sim_init (test_cfg 4 4 1 1) 0 test_mem (\<lambda>i. test_row) = Inr (test_sim (test_cfg 4 4 1 1))
   \<and> maxHiders (test_sim (test_cfg 4 4 1 1)) = 4
   \<and> length (hiders (test_sim (test_cfg 4 4 1 1))) = 3
   \<and> init_graph (test_ext hit ov) (test_sim (test_cfg 4 4 1 1)) = Inl TableOverflow"
proof -
  have a: "(Sim_init cfg idx mem rows = Inl AssertFailed) =
     (\<not> (cfg_maxHiders cfg + cfg_maxSeekers cfg \<le> maxAgents \<and>
         0 < cfg_maxHiders cfg + cfg_maxSeekers cfg))"
    by (simp add: Sim_init_def Let_def)
  have b: "Sim_init (test_cfg 4 4 1 1) 0 test_mem (\<lambda>i. test_row) =
             Inr (test_sim (test_cfg 4 4 1 1))"
    by (simp add: test_sim_def Sim_init_def test_cfg_def maxAgents_def Let_def)
  have f: "fresh_tables (test_sim (test_cfg 4 4 1 1))"
    "length (agents (test_sim (test_cfg 4 4 1 1))) = 5"
    using test_sim_fresh [of 4 1 4 1] by simp_all
  have g: "resetLevel (test_sim (test_cfg 4 4 1 1)) = 1"
    "minHiders (test_sim (test_cfg 4 4 1 1)) = 4" "maxHiders (test_sim (test_cfg 4 4 1 1)) = 4"
    by (simp_all add: test_sim_def Sim_init_def test_cfg_def maxAgents_def Let_def)
  have "resetSystem (test_ext hit ov) (test_sim (test_cfg 4 4 1 1)) = Inl TableOverflow"
    using f g
    by (intro resetSystem_overflow [OF test_ext_in_range test_ext_fits])
       (simp_all add: fresh_tables_def)
  then have c: "init_graph (test_ext hit ov) (test_sim (test_cfg 4 4 1 1)) = Inl TableOverflow"
    by (simp add: init_graph_def bindE_def)
  show ?thesis using a b c f g by (simp add: fresh_tables_def)
qed

section \<open>The task graph: what a tick leaves alone, and what it writes\<close>

subsection \<open>A system run over all rows\<close>

lemma fold_rows:
  assumes A1: "\<And>c i row. agents (fst (f c i row)) = agents c"
    and Qf: "\<And>c i row. Q (fst (f c i row)) = Q c"
    and Qa: "\<And>c a. Q (c\<lparr>agents := a\<rparr>) = Q c"
    and dep: "\<And>c i row. Q c = Q ctx \<Longrightarrow> g (snd (f c i row)) = h i row"
    and inv: "Q c = Q ctx" "length (agents c) = n" "a \<le> n"
      "\<forall>j. a \<le> j \<and> j < n \<longrightarrow> agents c ! j = agents ctx ! j"
      "\<forall>j<a. g (agents c ! j) = h j (agents ctx ! j)"
  shows "Q (fold (run_row f) [a..<n] c) = Q ctx
       \<and> length (agents (fold (run_row f) [a..<n] c)) = n
       \<and> (\<forall>j<n. g (agents (fold (run_row f) [a..<n] c) ! j) = h j (agents ctx ! j))"
  using inv
proof (induction "n - a" arbitrary: a c)
  case 0
  then show ?case by simp
next
  case (Suc d)
  then have lt: "a < n" by simp
  define c1 where "c1 = run_row f a c"
  have ag: "agents c1 = (agents c)[a := snd (f c a (agents c ! a))]"
    by (simp add: c1_def run_row_def Let_def A1)
  have q1: "Q c1 = Q ctx"
    using Suc.prems(1) by (simp add: c1_def run_row_def Let_def Qa Qf)
  have l1: "length (agents c1) = n" using Suc.prems(2) ag by simp
  have r1: "\<forall>j. Suc a \<le> j \<and> j < n \<longrightarrow> agents c1 ! j = agents ctx ! j"
    using Suc.prems(4) ag by simp
  have "g (agents c1 ! a) = h a (agents ctx ! a)"
    using ag lt Suc.prems(2,4) dep [OF Suc.prems(1), of a "agents c ! a"] by simp
  then have g1: "\<forall>j<Suc a. g (agents c1 ! j) = h j (agents ctx ! j)"
    using Suc.prems(5) ag by (auto simp: less_Suc_eq)
  have "d = n - Suc a" using Suc.hyps(2) by simp
  from Suc.hyps(1) [OF this q1 l1 _ r1 g1] lt
  show ?case by (simp add: upt_conv_Cons c1_def)
qed

lemma forAgents_rows:
  assumes A1: "\<And>c i row. agents (fst (f c i row)) = agents c"
    and Qf: "\<And>c i row. Q (fst (f c i row)) = Q c"
    and Qa: "\<And>c a. Q (c\<lparr>agents := a\<rparr>) = Q c"
    and dep: "\<And>c i row. Q c = Q ctx \<Longrightarrow> g (snd (f c i row)) = h i row"
  shows "Q (forAgents f ctx) = Q ctx
       \<and> length (agents (forAgents f ctx)) = length (agents ctx)
       \<and> (\<forall>j<length (agents ctx). g (agents (forAgents f ctx) ! j) = h j (agents ctx ! j))"
  unfolding forAgents_def
  by (rule fold_rows [where f = f and Q = Q and g = g and h = h, OF A1 Qf Qa dep]) simp_all

lemma fold_rows_gen:
  assumes L: "\<And>c i row. length (agents (fst (f c i row))) = length (agents c)"
    and G: "\<And>c i row j. j < length (agents c) \<Longrightarrow>
              g (agents (fst (f c i row)) ! j) = g (agents c ! j)"
    and Qf: "\<And>c i row. Q (fst (f c i row)) = Q c"
    and Qa: "\<And>c a. Q (c\<lparr>agents := a\<rparr>) = Q c"
    and dep: "\<And>c i row. Q c = Q ctx \<Longrightarrow> g (snd (f c i row)) = h i (g row)"
    and inv: "Q c = Q ctx" "length (agents c) = n" "a \<le> n"
      "\<forall>j. a \<le> j \<and> j < n \<longrightarrow> g (agents c ! j) = g (agents ctx ! j)"
      "\<forall>j<a. g (agents c ! j) = h j (g (agents ctx ! j))"
  shows "Q (fold (run_row f) [a..<n] c) = Q ctx
       \<and> length (agents (fold (run_row f) [a..<n] c)) = n
       \<and> (\<forall>j<n. g (agents (fold (run_row f) [a..<n] c) ! j) = h j (g (agents ctx ! j)))"
  using inv
proof (induction "n - a" arbitrary: a c)
  case 0
  then show ?case by simp
next
  case (Suc d)
  then have lt: "a < n" by simp
  define r where "r = f c a (agents c ! a)"
  define c1 where "c1 = run_row f a c"
  have ag: "agents c1 = (agents (fst r))[a := snd r]"
    by (simp add: c1_def run_row_def Let_def r_def)
  have lr: "length (agents (fst r)) = n" using L Suc.prems(2) by (simp add: r_def)
  have q1: "Q c1 = Q ctx"
    using Suc.prems(1) by (simp add: c1_def run_row_def Let_def Qa Qf)
  have l1: "length (agents c1) = n" using lr ag by simp
  have keep: "g (agents c1 ! j) = g (agents c ! j)" if "j < n" "j \<noteq> a" for j
  proof -
    have "g (agents (fst r) ! j) = g (agents c ! j)"
      unfolding r_def using that Suc.prems(2) by (intro G) simp
    then show ?thesis using ag that by simp
  qed
  have r1: "\<forall>j. Suc a \<le> j \<and> j < n \<longrightarrow> g (agents c1 ! j) = g (agents ctx ! j)"
    using Suc.prems(4) keep by simp
  have "g (agents c1 ! a) = g (snd r)" using ag lt lr by simp
  also have "\<dots> = h a (g (agents c ! a))" unfolding r_def by (rule dep [OF Suc.prems(1)])
  also have "\<dots> = h a (g (agents ctx ! a))" using Suc.prems(4) lt by simp
  finally have "g (agents c1 ! a) = h a (g (agents ctx ! a))" .
  then have g1: "\<forall>j<Suc a. g (agents c1 ! j) = h j (g (agents ctx ! j))"
    using Suc.prems(5) keep lt by (auto simp: less_Suc_eq)
  have "d = n - Suc a" using Suc.hyps(2) by simp
  from Suc.hyps(1) [OF this q1 l1 _ r1 g1] lt
  show ?case by (simp add: upt_conv_Cons c1_def)
qed

lemma forAgents_rows_gen:
  assumes L: "\<And>c i row. length (agents (fst (f c i row))) = length (agents c)"
    and G: "\<And>c i row j. j < length (agents c) \<Longrightarrow>
              g (agents (fst (f c i row)) ! j) = g (agents c ! j)"
    and Qf: "\<And>c i row. Q (fst (f c i row)) = Q c"
    and Qa: "\<And>c a. Q (c\<lparr>agents := a\<rparr>) = Q c"
    and dep: "\<And>c i row. Q c = Q ctx \<Longrightarrow> g (snd (f c i row)) = h i (g row)"
  shows "Q (forAgents f ctx) = Q ctx
       \<and> length (agents (forAgents f ctx)) = length (agents ctx)
       \<and> (\<forall>j<length (agents ctx).
            g (agents (forAgents f ctx) ! j) = h j (g (agents ctx ! j)))"
  unfolding forAgents_def
  by (rule fold_rows_gen [where f = f and Q = Q and g = g and h = h, OF L G Qf Qa dep])
     simp_all

lemma core_agents [simp]: "core (c\<lparr>agents := a\<rparr>) = core c"
  by (simp add: core_def config_of_def)

lemma movement_row_facts:
  "agents (fst (movement_row X c i row)) = agents c"
  "core (fst (movement_row X c i row)) = core c"
  "snd (movement_row X c i row) = row"
  by (simp_all add: movement_row_def movementSystem_def Let_def core_def config_of_def
      split: option.splits)

lemma lock_block_frame:
  "agents (lock_block X c e ty) = agents c" "core (lock_block X c e ty) = core c"
  by (simp_all add: lock_block_def Let_def core_def config_of_def split: option.splits prod.splits)

lemma grab_block_frame:
  "agents (grab_block X c e) = agents c" "core (grab_block X c e) = core c"
  by (simp_all add: grab_block_def destroyEntity_def makeFixedJoint_def Let_def core_def
      config_of_def split: option.splits prod.splits)

lemma action_row_facts:
  "agents (fst (action_row X c i row)) = agents c"
  "core (fst (action_row X c i row)) = core c"
  "status (snd (action_row X c i row)) = status row"
  by (simp_all add: action_row_def actionSystem_def Let_def status_def lock_block_frame
      grab_block_frame split: option.splits)

lemma rewards_row_facts:
  "fst (rewards_row c i row) = c"
  "sim_e (snd (rewards_row c i row)) = sim_e row"
  "agent_type (snd (rewards_row c i row)) = agent_type row"
  "mask (snd (rewards_row c i row)) = mask row"
  "done_v (snd (rewards_row c i row)) = done_next (curEpisodeStep c) (sim_e row) (done_v row)"
  "curEpisodeStep c < numPrepSteps - 1 \<Longrightarrow> sim_e row \<noteq> None \<Longrightarrow>
     reward_v (snd (rewards_row c i row)) = 0"
  by (auto simp: rewards_row_def outputRewardsDonesSystem_def Let_def done_next_def
      numPrepSteps_def episodeLen_def split: option.splits)

lemma observations_row_facts:
  "fst (observations_row X c i row) = c"
  "status (snd (observations_row X c i row)) = status row"
  by (simp_all add: observations_row_def Let_def status_def)

lemma other_cols_simps [simp]:
  "sim_e (other_cols r) = sim_e r" "prep_counter (other_cols r) = prep_counter r"
  "action (other_cols r) = action r" "agent_type (other_cols r) = agent_type r"
  "mask (other_cols r) = mask r" "agent_obs (other_cols r) = agent_obs r"
  "box_obs (other_cols r) = box_obs r" "ramp_obs (other_cols r) = ramp_obs r"
  "agent_vis (other_cols r) = agent_vis r" "ramp_vis (other_cols r) = ramp_vis r"
  "reward_v (other_cols r) = reward_v r" "done_v (other_cols r) = done_v r"
  "status (other_cols r) = status r"
  by (simp_all add: other_cols_def status_def)

lemma store_past_rows:
  "length (fold (store_past i) ps rows) = length rows
   \<and> (\<forall>j<length rows. other_cols (fold (store_past i) ps rows ! j) = other_cols (rows ! j))"
proof (induction ps arbitrary: rows)
  case Nil
  show ?case by simp
next
  case (Cons p ps)
  have 1: "length (store_past i p rows) = length rows"
    by (simp add: store_past_def Let_def)
  have 2: "other_cols (store_past i p rows ! j) = other_cols (rows ! j)" if "j < length rows" for j
    using that by (simp add: store_past_def Let_def nth_list_update other_cols_def)
  show ?case using Cons [of "store_past i p rows"] 1 2 by simp
qed

lemma computeVisibilitySystem_world:
  "agents (fst (computeVisibilitySystem X c i se ty a b r)) = agents c"
  "core (fst (computeVisibilitySystem X c i se ty a b r)) = core c"
  "\<not> gpu_mode X \<Longrightarrow> snd (snd (snd (snd (computeVisibilitySystem X c i se ty a b r)))) = []"
  by (simp_all add: computeVisibilitySystem_def Let_def core_def config_of_def
      split: option.splits)

lemma visibility_row_facts:
  "length (agents (fst (visibility_row X c i row))) = length (agents c)"
  "core (fst (visibility_row X c i row)) = core c"
  "j < length (agents c) \<Longrightarrow>
     other_cols (agents (fst (visibility_row X c i row)) ! j) = other_cols (agents c ! j)"
  "status (snd (visibility_row X c i row)) = status row"
  "\<not> gpu_mode X \<Longrightarrow> agents (fst (visibility_row X c i row)) = agents c"
  using store_past_rows [of i _ "agents c"]
  by (simp_all add: visibility_row_def Let_def computeVisibilitySystem_world status_def)

lemma node_frame:
  assumes "\<And>c i row. agents (fst (f c i row)) = agents c"
    and "\<And>c i row. core (fst (f c i row)) = core c"
    and "\<And>c i row. status (snd (f c i row)) = status row"
  shows "core (forAgents f ctx) = core ctx
       \<and> length (agents (forAgents f ctx)) = length (agents ctx)
       \<and> (\<forall>j<length (agents ctx). status (agents (forAgents f ctx) ! j) = status (agents ctx ! j))"
  by (rule forAgents_rows [where Q = core and g = status and h = "\<lambda>i row. status row"])
     (simp_all add: assms)

lemma movement_node:
  "core (forAgents (movement_row X) ctx) = core ctx
   \<and> length (agents (forAgents (movement_row X) ctx)) = length (agents ctx)
   \<and> (\<forall>j<length (agents ctx).
        status (agents (forAgents (movement_row X) ctx) ! j) = status (agents ctx ! j))"
  by (rule node_frame) (simp_all add: movement_row_facts)

lemma action_node:
  "core (forAgents (action_row X) ctx) = core ctx
   \<and> length (agents (forAgents (action_row X) ctx)) = length (agents ctx)
   \<and> (\<forall>j<length (agents ctx).
        status (agents (forAgents (action_row X) ctx) ! j) = status (agents ctx ! j))"
  by (rule node_frame) (simp_all add: action_row_facts)

lemma observations_node:
  "core (forAgents (observations_row X) ctx) = core ctx
   \<and> length (agents (forAgents (observations_row X) ctx)) = length (agents ctx)
   \<and> (\<forall>j<length (agents ctx).
        status (agents (forAgents (observations_row X) ctx) ! j) = status (agents ctx ! j))"
  by (rule node_frame) (simp_all add: observations_row_facts)

lemma visibility_node:
  "core (forAgents (visibility_row X) ctx) = core ctx
   \<and> length (agents (forAgents (visibility_row X) ctx)) = length (agents ctx)
   \<and> (\<forall>j<length (agents ctx).
        status (agents (forAgents (visibility_row X) ctx) ! j) = status (agents ctx ! j))"
proof (rule forAgents_rows_gen [where Q = core and g = status and h = "\<lambda>i s. s"
      and f = "visibility_row X" and ctx = ctx])
  fix c :: Engine and i :: nat and row :: AgentInterface and j :: nat
  assume "j < length (agents c)"
  from visibility_row_facts(3) [OF this, of X i row]
  have "status (other_cols (agents (fst (visibility_row X c i row)) ! j)) =
        status (other_cols (agents c ! j))" by simp
  then show "status (agents (fst (visibility_row X c i row)) ! j) = status (agents c ! j)"
    by simp
qed (simp_all add: visibility_row_facts)

lemma physics_node_facts:
  "core (physics_node X ctx) = core ctx" "agents (physics_node X ctx) = agents ctx"
  by (simp_all add: physics_node_def core_def config_of_def)

lemma rewards_node:
  "core (forAgents rewards_row ctx) = core ctx
   \<and> length (agents (forAgents rewards_row ctx)) = length (agents ctx)
   \<and> (\<forall>j<length (agents ctx).
        (sim_e (agents (forAgents rewards_row ctx) ! j),
         agent_type (agents (forAgents rewards_row ctx) ! j),
         mask (agents (forAgents rewards_row ctx) ! j),
         done_v (agents (forAgents rewards_row ctx) ! j)) =
        (sim_e (agents ctx ! j), agent_type (agents ctx ! j), mask (agents ctx ! j),
         done_next (curEpisodeStep ctx) (sim_e (agents ctx ! j)) (done_v (agents ctx ! j))))"
proof (rule forAgents_rows [where Q = core
      and g = "\<lambda>r. (sim_e r, agent_type r, mask r, done_v r)"
      and h = "\<lambda>i row. (sim_e row, agent_type row, mask row,
                         done_next (curEpisodeStep ctx) (sim_e row) (done_v row))"])
  fix c i row
  show "agents (fst (rewards_row c i row)) = agents c" by (simp add: rewards_row_facts)
  show "core (fst (rewards_row c i row)) = core c" by (simp add: rewards_row_facts)
  show "core (c\<lparr>agents := a\<rparr>) = core c" for a by simp
  assume "core c = core ctx"
  then have "curEpisodeStep c = curEpisodeStep ctx" by (simp add: core_def)
  then show "(sim_e (snd (rewards_row c i row)), agent_type (snd (rewards_row c i row)),
        mask (snd (rewards_row c i row)), done_v (snd (rewards_row c i row))) =
       (sim_e row, agent_type row, mask row,
        done_next (curEpisodeStep ctx) (sim_e row) (done_v row))"
    by (simp add: rewards_row_facts)
qed

lemma rewards_node_zero:
  assumes "curEpisodeStep ctx < numPrepSteps - 1"
  shows "\<forall>j<length (agents ctx). sim_e (agents ctx ! j) \<noteq> None \<longrightarrow>
           reward_v (agents (forAgents rewards_row ctx) ! j) = 0"
proof -
  have "core (forAgents rewards_row ctx) = core ctx
       \<and> length (agents (forAgents rewards_row ctx)) = length (agents ctx)
       \<and> (\<forall>j<length (agents ctx).
            (sim_e (agents (forAgents rewards_row ctx) ! j) \<noteq> None \<longrightarrow>
             reward_v (agents (forAgents rewards_row ctx) ! j) = 0) = True)"
  proof (rule forAgents_rows [where Q = core
      and g = "\<lambda>r. sim_e r \<noteq> None \<longrightarrow> reward_v r = 0" and h = "\<lambda>i row. True"])
    fix c i row
    show "agents (fst (rewards_row c i row)) = agents c" by (simp add: rewards_row_facts)
    show "core (fst (rewards_row c i row)) = core c" by (simp add: rewards_row_facts)
    show "core (c\<lparr>agents := a\<rparr>) = core c" for a by simp
    assume "core c = core ctx"
    then have "curEpisodeStep c < numPrepSteps - 1" using assms by (simp add: core_def)
    then show "(sim_e (snd (rewards_row c i row)) \<noteq> None \<longrightarrow>
        reward_v (snd (rewards_row c i row)) = 0) = True"
      using rewards_row_facts(6) [of c row i] by (simp add: rewards_row_facts(2))
  qed
  then show ?thesis using rewards_node [of ctx] by simp
qed

subsection \<open>One tick\<close>

lemma host_write_facts:
  "core (host_write acts lvl ctx) =
     core (ctx\<lparr>resetLevel := (case lvl of None \<Rightarrow> resetLevel ctx | Some l \<Rightarrow> l)\<rparr>)"
  "length (agents (host_write acts lvl ctx)) = length (agents ctx)"
  "j < length (agents ctx) \<Longrightarrow> status (agents (host_write acts lvl ctx) ! j) = status (agents ctx ! j)"
  by (simp_all add: host_write_def core_def config_of_def status_def)

lemma before_reset:
  fixes X acts lvl ctx
  defines "P \<equiv> rewardsAndDonesTasks (processActionsAndPhysicsTasks X (host_write acts lvl ctx))"
  shows "core P = core (ctx\<lparr>resetLevel := (case lvl of None \<Rightarrow> resetLevel ctx | Some l \<Rightarrow> l)\<rparr>)
       \<and> length (agents P) = length (agents ctx)
       \<and> (\<forall>j<length (agents ctx).
            sim_e (agents P ! j) = sim_e (agents ctx ! j)
          \<and> agent_type (agents P ! j) = agent_type (agents ctx ! j)
          \<and> mask (agents P ! j) = mask (agents ctx ! j)
          \<and> done_v (agents P ! j) =
              done_next (curEpisodeStep ctx) (sim_e (agents ctx ! j)) (done_v (agents ctx ! j))
          \<and> (curEpisodeStep ctx < numPrepSteps - 1 \<and> sim_e (agents ctx ! j) \<noteq> None \<longrightarrow>
               reward_v (agents P ! j) = 0))"
proof -
  define c0 where "c0 = host_write acts lvl ctx"
  define c1 where "c1 = forAgents (movement_row X) c0"
  define c2 where "c2 = forAgents (action_row X) c1"
  define c3 where "c3 = physics_node X c2"
  have P: "P = forAgents rewards_row c3"
    by (simp add: P_def rewardsAndDonesTasks_def processActionsAndPhysicsTasks_def
        c0_def c1_def c2_def c3_def)
  note h = host_write_facts [where acts = acts and lvl = lvl and ctx = ctx, folded c0_def]
  note m = movement_node [of X c0, folded c1_def]
  note a = action_node [of X c1, folded c2_def]
  note p = physics_node_facts [of X c2, folded c3_def]
  note r = rewards_node [of c3, folded P]
  have len: "length (agents c3) = length (agents ctx)"
    using h(2) m a p(2) by simp
  have core3: "core c3 = core (ctx\<lparr>resetLevel := (case lvl of None \<Rightarrow> resetLevel ctx | Some l \<Rightarrow> l)\<rparr>)"
    using h(1) m a p(1) by simp
  then have step3: "curEpisodeStep c3 = curEpisodeStep ctx" by (simp add: core_def)
  have st: "status (agents c3 ! j) = status (agents ctx ! j)" if "j < length (agents ctx)" for j
  proof -
    have "status (agents c3 ! j) = status (agents c2 ! j)" using p(2) by simp
    also have "\<dots> = status (agents c1 ! j)" using a that h(2) m by simp
    also have "\<dots> = status (agents c0 ! j)" using m that h(2) by simp
    also have "\<dots> = status (agents ctx ! j)" using h(3) that by simp
    finally show ?thesis .
  qed
  have z: "curEpisodeStep ctx < numPrepSteps - 1 \<Longrightarrow> j < length (agents ctx) \<Longrightarrow>
      sim_e (agents ctx ! j) \<noteq> None \<Longrightarrow> reward_v (agents P ! j) = 0" for j
    using rewards_node_zero [of c3, folded P] step3 len st [of j] by (simp add: status_def)
  show ?thesis
  proof (intro conjI allI impI)
    show "core P = core (ctx\<lparr>resetLevel := (case lvl of None \<Rightarrow> resetLevel ctx | Some l \<Rightarrow> l)\<rparr>)"
      using r core3 by simp
    show "length (agents P) = length (agents ctx)" using r len by simp
  next
    fix j assume j: "j < length (agents ctx)"
    then have j3: "j < length (agents c3)" using len by simp
    from r j3 have e: "(sim_e (agents P ! j), agent_type (agents P ! j), mask (agents P ! j),
        done_v (agents P ! j)) =
        (sim_e (agents c3 ! j), agent_type (agents c3 ! j), mask (agents c3 ! j),
         done_next (curEpisodeStep c3) (sim_e (agents c3 ! j)) (done_v (agents c3 ! j)))"
      by blast
    from st [OF j] have s: "sim_e (agents c3 ! j) = sim_e (agents ctx ! j)"
      "agent_type (agents c3 ! j) = agent_type (agents ctx ! j)"
      "mask (agents c3 ! j) = mask (agents ctx ! j)"
      "done_v (agents c3 ! j) = done_v (agents ctx ! j)"
      by (simp_all add: status_def)
    show "sim_e (agents P ! j) = sim_e (agents ctx ! j)" using e s by simp
    show "agent_type (agents P ! j) = agent_type (agents ctx ! j)" using e s by simp
    show "mask (agents P ! j) = mask (agents ctx ! j)" using e s by simp
    show "done_v (agents P ! j) =
        done_next (curEpisodeStep ctx) (sim_e (agents ctx ! j)) (done_v (agents ctx ! j))"
      using e s step3 by simp
  next
    fix j assume "j < length (agents ctx)"
      "curEpisodeStep ctx < numPrepSteps - 1 \<and> sim_e (agents ctx ! j) \<noteq> None"
    then show "reward_v (agents P ! j) = 0" using z by simp
  qed
qed

lemma observationsTasks_facts:
  "core (observationsTasks X c) = core c
   \<and> length (agents (observationsTasks X c)) = length (agents c)
   \<and> (\<forall>j<length (agents c). status (agents (observationsTasks X c) ! j) = status (agents c ! j))"
proof -
  define c1 where "c1 = forAgents (observations_row X) c"
  note o = observations_node [of X c, folded c1_def]
  note v = visibility_node [of X c1]
  have "observationsTasks X c = forAgents (visibility_row X) c1"
    by (simp add: observationsTasks_def c1_def)
  then show ?thesis using o v by simp
qed

lemma wf_world_core:
  assumes "wf_world ctx" "core c = core (ctx\<lparr>curEpisodeStep := s, resetLevel := l\<rparr>)"
    "length (agents c) = length (agents ctx)"
  shows "wf_world c"
  using assms by (simp add: wf_world_def core_def config_of_def)

lemma tick_no_reset:
  assumes r0: "resetLevel ctx = 0"
    and nat_r: "ignoreEpisodeLength ctx \<or> curEpisodeStep ctx \<noteq> episodeLen - 1"
  shows "\<exists>c. step_graph X (host_write acts None ctx) = Inr c
           \<and> core c = core (ctx\<lparr>curEpisodeStep := curEpisodeStep ctx + 1\<rparr>)
           \<and> length (agents c) = length (agents ctx)
           \<and> (\<forall>j<length (agents ctx).
                sim_e (agents c ! j) = sim_e (agents ctx ! j)
              \<and> agent_type (agents c ! j) = agent_type (agents ctx ! j)
              \<and> mask (agents c ! j) = mask (agents ctx ! j)
              \<and> done_v (agents c ! j) =
                  done_next (curEpisodeStep ctx) (sim_e (agents ctx ! j)) (done_v (agents ctx ! j))
              \<and> (curEpisodeStep ctx < numPrepSteps - 1 \<and> sim_e (agents ctx ! j) \<noteq> None \<longrightarrow>
                   reward_v (agents c ! j) = 0))"
proof -
  define P where "P = rewardsAndDonesTasks (processActionsAndPhysicsTasks X (host_write acts None ctx))"
  define c4 where "c4 = P\<lparr>curEpisodeStep := curEpisodeStep P + 1, hiderTeamReward := 1\<rparr>"
  define c where "c = observationsTasks X c4"
  note b = before_reset [of X acts None ctx, folded P_def]
  from b have coreP: "core P = core ctx" by simp
  then have eqs: "curEpisodeStep P = curEpisodeStep ctx" "resetLevel P = 0"
    "ignoreEpisodeLength P = ignoreEpisodeLength ctx"
    using r0 by (simp_all add: core_def config_of_def)
  have rs: "resetSystem X P = Inr c4"
    using eqs nat_r by (auto simp: resetSystem_def c4_def bindE_def Let_def)
  have sg: "step_graph X (host_write acts None ctx) = Inr c"
    using rs by (simp add: step_graph_def P_def [symmetric] c_def bindE_def)
  note o = observationsTasks_facts [of X c4, folded c_def]
  have a4: "agents c4 = agents P" by (simp add: c4_def)
  have core4: "core c4 = core (ctx\<lparr>curEpisodeStep := curEpisodeStep ctx + 1\<rparr>)"
    using coreP by (simp add: c4_def core_def config_of_def)
  have lenP: "length (agents P) = length (agents ctx)" using b by simp
  have st: "status (agents c ! j) = status (agents P ! j)" if "j < length (agents ctx)" for j
    using o a4 lenP that by simp
  show ?thesis
  proof (intro exI [of _ c] conjI allI impI)
    show "step_graph X (host_write acts None ctx) = Inr c" by (rule sg)
    show "core c = core (ctx\<lparr>curEpisodeStep := curEpisodeStep ctx + 1\<rparr>)" using o core4 by simp
    show "length (agents c) = length (agents ctx)" using o a4 lenP by simp
  next
    fix j assume j: "j < length (agents ctx)"
    note s = st [OF j, unfolded status_def, simplified]
    show "sim_e (agents c ! j) = sim_e (agents ctx ! j)" using s b j by simp
    show "agent_type (agents c ! j) = agent_type (agents ctx ! j)" using s b j by simp
    show "mask (agents c ! j) = mask (agents ctx ! j)" using s b j by simp
    show "done_v (agents c ! j) =
        done_next (curEpisodeStep ctx) (sim_e (agents ctx ! j)) (done_v (agents ctx ! j))"
      using s b j by simp
  next
    fix j assume j: "j < length (agents ctx)"
      and "curEpisodeStep ctx < numPrepSteps - 1 \<and> sim_e (agents ctx ! j) \<noteq> None"
    then show "reward_v (agents c ! j) = 0"
      using st [OF j, unfolded status_def, simplified] b by simp
  qed
qed

lemma run_ticks_snoc:
  "run_ticks X (inps @ [inp]) w =
     (case run_ticks X inps w of Inl e \<Rightarrow> Inl e
      | Inr c \<Rightarrow> step_graph X (host_write (fst inp) (snd inp) c))"
  by (induction inps arbitrary: w) (simp_all split: sum.splits)

lemma episode_prefix:
  assumes w: "resetLevel w = 0" "curEpisodeStep w = 0"
  shows "(\<forall>inp\<in>set inps. snd inp = None) \<Longrightarrow> int (length inps) \<le> episodeLen - 1 \<Longrightarrow>
         \<exists>c. run_ticks X inps w = Inr c
           \<and> core c = core (w\<lparr>curEpisodeStep := int (length inps)\<rparr>)
           \<and> length (agents c) = length (agents w)
           \<and> (\<forall>j<length (agents w).
                sim_e (agents c ! j) = sim_e (agents w ! j)
              \<and> (inps \<noteq> [] \<and> sim_e (agents w ! j) \<noteq> None \<longrightarrow>
                   done_v (agents c ! j) = 0
                 \<and> (int (length inps) \<le> numPrepSteps - 1 \<longrightarrow> reward_v (agents c ! j) = 0)))"
proof (induction inps rule: rev_induct)
  case Nil
  show ?case using w by (simp add: core_def config_of_def)
next
  case (snoc inp inps)
  let ?n = "int (length inps)"
  from snoc.prems have n: "?n \<le> episodeLen - 2" and none: "snd inp = None"
    and pre: "\<forall>inp\<in>set inps. snd inp = None" "?n \<le> episodeLen - 1"
    by simp_all
  from snoc.IH [OF pre] obtain c where
    run: "run_ticks X inps w = Inr c"
    and core: "core c = core (w\<lparr>curEpisodeStep := ?n\<rparr>)"
    and len: "length (agents c) = length (agents w)"
    and rows: "\<forall>j<length (agents w).
                sim_e (agents c ! j) = sim_e (agents w ! j)
              \<and> (inps \<noteq> [] \<and> sim_e (agents w ! j) \<noteq> None \<longrightarrow>
                   done_v (agents c ! j) = 0
                 \<and> (?n \<le> numPrepSteps - 1 \<longrightarrow> reward_v (agents c ! j) = 0))"
    by blast
  from core w have cs: "curEpisodeStep c = ?n" "resetLevel c = 0"
    by (simp_all add: core_def)
  have nr: "ignoreEpisodeLength c \<or> curEpisodeStep c \<noteq> episodeLen - 1" using cs n by simp
  from tick_no_reset [OF cs(2) nr, of X "fst inp"] obtain c' where
    sg: "step_graph X (host_write (fst inp) None c) = Inr c'"
    and core': "core c' = core (c\<lparr>curEpisodeStep := curEpisodeStep c + 1\<rparr>)"
    and len': "length (agents c') = length (agents c)"
    and rows': "\<forall>j<length (agents c).
                sim_e (agents c' ! j) = sim_e (agents c ! j)
              \<and> done_v (agents c' ! j) =
                  done_next (curEpisodeStep c) (sim_e (agents c ! j)) (done_v (agents c ! j))
              \<and> (curEpisodeStep c < numPrepSteps - 1 \<and> sim_e (agents c ! j) \<noteq> None \<longrightarrow>
                   reward_v (agents c' ! j) = 0)"
    by blast
  show ?case
  proof (intro exI [of _ c'] conjI allI impI)
    show "run_ticks X (inps @ [inp]) w = Inr c'"
      using run sg none by (simp add: run_ticks_snoc)
    show "core c' = core (w\<lparr>curEpisodeStep := int (length (inps @ [inp]))\<rparr>)"
      using core' core cs by (simp add: core_def config_of_def)
    show "length (agents c') = length (agents w)" using len len' by simp
  next
    fix j assume j: "j < length (agents w)"
    show "sim_e (agents c' ! j) = sim_e (agents w ! j)" using rows rows' j len by simp
  next
    fix j assume j: "j < length (agents w)"
      and a: "inps @ [inp] \<noteq> [] \<and> sim_e (agents w ! j) \<noteq> None"
    have se: "sim_e (agents c ! j) = sim_e (agents w ! j)" using rows j by simp
    have dn: "done_v (agents c' ! j) = done_next ?n (sim_e (agents w ! j)) (done_v (agents c ! j))"
      using rows' j len se cs by simp
    show "done_v (agents c' ! j) = 0"
    proof (cases "inps = []")
      case True then show ?thesis using dn a by (simp add: done_next_def)
    next
      case False
      then have "done_v (agents c ! j) = 0" using rows j a by simp
      moreover have "?n \<noteq> episodeLen - 1" using n by simp
      ultimately show ?thesis using dn a by (simp add: done_next_def)
    qed
  next
    fix j assume j: "j < length (agents w)"
      and a: "inps @ [inp] \<noteq> [] \<and> sim_e (agents w ! j) \<noteq> None"
      and p: "int (length (inps @ [inp])) \<le> numPrepSteps - 1"
    have se: "sim_e (agents c ! j) = sim_e (agents w ! j)" using rows j by simp
    have "curEpisodeStep c < numPrepSteps - 1" using p cs by simp
    then show "reward_v (agents c' ! j) = 0" using rows' j len se a by simp
  qed
qed

lemma initEpisodeRNG_cong:
  assumes "config_of a = config_of b" "curWorldEpisode a = curWorldEpisode b"
  shows "rng (initEpisodeRNG X a) = rng (initEpisodeRNG X b)"
    "curWorldEpisode (initEpisodeRNG X a) = curWorldEpisode (initEpisodeRNG X b)"
  using assms by (simp_all add: initEpisodeRNG_def Let_def config_of_def)

lemma records_frame:
  assumes "\<And>c i row. agents (fst (f c i row)) = agents c"
    and "\<And>c i row. core (fst (f c i row)) = core c"
    and "\<And>c i row. records (snd (f c i row)) = records row"
  shows "\<forall>j<length (agents ctx). records (agents (forAgents f ctx) ! j) = records (agents ctx ! j)"
  using forAgents_rows [where Q = core and g = records and h = "\<lambda>i row. records row"
      and f = f and ctx = ctx]
  by (simp add: assms)

lemma records_rows:
  "records (snd (movement_row X c i row)) = records row"
  "records (snd (action_row X c i row)) = records row"
  "records (snd (rewards_row c i row)) = records row"
  by (simp_all add: movement_row_def action_row_def rewards_row_def Let_def records_def)

lemma before_reset_records:
  fixes X acts lvl ctx
  defines "P \<equiv> rewardsAndDonesTasks (processActionsAndPhysicsTasks X (host_write acts lvl ctx))"
  assumes j: "j < length (agents ctx)"
  shows "records (agents P ! j) = records (agents ctx ! j)"
proof -
  define c0 where "c0 = host_write acts lvl ctx"
  define c1 where "c1 = forAgents (movement_row X) c0"
  define c2 where "c2 = forAgents (action_row X) c1"
  define c3 where "c3 = physics_node X c2"
  have P: "P = forAgents rewards_row c3"
    by (simp add: P_def rewardsAndDonesTasks_def processActionsAndPhysicsTasks_def
        c0_def c1_def c2_def c3_def)
  have l0: "length (agents c0) = length (agents ctx)" by (simp add: c0_def host_write_def)
  have l1: "length (agents c1) = length (agents ctx)"
    using movement_node [of X c0] l0 by (simp add: c1_def)
  have l2: "length (agents c2) = length (agents ctx)"
    using action_node [of X c1] l1 by (simp add: c2_def)
  have a3: "agents c3 = agents c2" by (simp add: c3_def physics_node_facts)
  have "records (agents P ! j) = records (agents c3 ! j)"
    unfolding P using j l2 a3
    by (intro records_frame [rule_format]) (simp_all add: rewards_row_facts records_rows)
  also have "\<dots> = records (agents c1 ! j)"
    unfolding a3 c2_def using j l1
    by (intro records_frame [rule_format]) (simp_all add: action_row_facts records_rows)
  also have "\<dots> = records (agents c0 ! j)"
    unfolding c1_def using j l0
    by (intro records_frame [rule_format]) (simp_all add: movement_row_facts records_rows)
  also have "\<dots> = records (agents ctx ! j)"
    using j by (simp add: c0_def host_write_def records_def)
  finally show ?thesis .
qed

subsection \<open>The observation stage\<close>

lemma fold_update_nth:
  assumes "\<And>i xs. f i xs = xs[i := v i]"
  shows "length (fold f [0..<n] xs) = length xs
       \<and> (\<forall>b<length xs. fold f [0..<n] xs ! b = (if b < n then v b else xs ! b))"
proof (induction n)
  case 0
  show ?case by simp
next
  case (Suc n)
  then show ?case by (auto simp: assms nth_list_update less_Suc_eq)
qed

lemma box_obs_fold:
  assumes "b < length obs" "b < nat maxBoxes"
  shows "length (fold (box_obs_step X ctx p r) [0..<nat maxBoxes] obs) = length obs"
    "numActiveBoxes ctx \<le> int b \<Longrightarrow>
       fold (box_obs_step X ctx p r) [0..<nat maxBoxes] obs ! b = zero_BoxObservation"
    "int b < numActiveBoxes ctx \<Longrightarrow>
       bo_boxSize (fold (box_obs_step X ctx p r) [0..<nat maxBoxes] obs ! b) = boxSizes ctx ! b"
proof -
  define v where "v i = box_obs_step X ctx p r i obs ! i" for i
  note f = fold_update_nth [where f = "box_obs_step X ctx p r" and n = "nat maxBoxes"
      and xs = obs and v = "\<lambda>i. (if int i \<ge> numActiveBoxes ctx then zero_BoxObservation
        else \<lparr>bo_pos = xy (rotateVec X (quat_inv X r) (vsub (get_Position ctx (boxes ctx ! i)) p)),
              bo_vel = xy (rotateVec X (quat_inv X r) (fst (get_Velocity ctx (boxes ctx ! i)))),
              bo_boxSize = boxSizes ctx ! i,
              bo_boxRotation = relative_yaw X (quat_mul X r
                 (quat_inv X (get_Rotation ctx (boxes ctx ! i))))\<rparr>)"]
  have e: "\<And>i xs. box_obs_step X ctx p r i xs = xs[i := (if int i \<ge> numActiveBoxes ctx
        then zero_BoxObservation
        else \<lparr>bo_pos = xy (rotateVec X (quat_inv X r) (vsub (get_Position ctx (boxes ctx ! i)) p)),
              bo_vel = xy (rotateVec X (quat_inv X r) (fst (get_Velocity ctx (boxes ctx ! i)))),
              bo_boxSize = boxSizes ctx ! i,
              bo_boxRotation = relative_yaw X (quat_mul X r
                 (quat_inv X (get_Rotation ctx (boxes ctx ! i))))\<rparr>)]"
    by (simp add: box_obs_step_def Let_def)
  note g = f [OF e]
  show "length (fold (box_obs_step X ctx p r) [0..<nat maxBoxes] obs) = length obs"
    using g by simp
  show "numActiveBoxes ctx \<le> int b \<Longrightarrow>
       fold (box_obs_step X ctx p r) [0..<nat maxBoxes] obs ! b = zero_BoxObservation"
    using g assms by simp
  show "int b < numActiveBoxes ctx \<Longrightarrow>
       bo_boxSize (fold (box_obs_step X ctx p r) [0..<nat maxBoxes] obs ! b) = boxSizes ctx ! b"
    using g assms by simp
qed

lemma ramp_obs_fold:
  assumes "b < length obs" "b < nat maxRamps"
  shows "length (fold (ramp_obs_step X ctx p r) [0..<nat maxRamps] obs) = length obs"
    "numActiveRamps ctx \<le> int b \<Longrightarrow>
       fold (ramp_obs_step X ctx p r) [0..<nat maxRamps] obs ! b = zero_RampObservation"
proof -
  have e: "\<And>i xs. ramp_obs_step X ctx p r i xs = xs[i := (if int i \<ge> numActiveRamps ctx
        then zero_RampObservation
        else \<lparr>ro_pos = xy (rotateVec X (quat_inv X r) (vsub (get_Position ctx (ramps ctx ! i)) p)),
              ro_vel = xy (rotateVec X (quat_inv X r) (fst (get_Velocity ctx (ramps ctx ! i)))),
              ro_rampRotation = relative_yaw X (quat_mul X r
                 (quat_inv X (get_Rotation ctx (ramps ctx ! i))))\<rparr>)]"
    by (simp add: ramp_obs_step_def Let_def)
  note g = fold_update_nth [where f = "ramp_obs_step X ctx p r" and n = "nat maxRamps"
      and xs = obs, OF e]
  show "length (fold (ramp_obs_step X ctx p r) [0..<nat maxRamps] obs) = length obs"
    using g by simp
  show "numActiveRamps ctx \<le> int b \<Longrightarrow>
       fold (ramp_obs_step X ctx p r) [0..<nat maxRamps] obs ! b = zero_RampObservation"
    using g assms by simp
qed

lemma obs_fold_len:
  "length (fold (box_obs_step X ctx p r) [0..<n] obs) = length obs"
  "length (fold (ramp_obs_step X ctx p r) [0..<n] robs) = length robs"
  by (induction n) (simp_all add: box_obs_step_def ramp_obs_step_def Let_def)

text \<open>Row-level facts.\<close>

lemma observations_row_inactive:
  "sim_e row = None \<Longrightarrow> snd (observations_row X c i row) = row"
  by (simp add: observations_row_def collectObservationsSystem_def)

lemma visibility_row_inactive:
  "sim_e row = None \<Longrightarrow> snd (visibility_row X c i row) = row"
  by (simp add: visibility_row_def computeVisibilitySystem_def)

lemma observations_row_active:
  assumes "sim_e row \<noteq> None"
  shows "sim_e (snd (observations_row X c i row)) = sim_e row"
    "length (box_obs (snd (observations_row X c i row))) = length (box_obs row)"
    "length (ramp_obs (snd (observations_row X c i row))) = length (ramp_obs row)"
    "box_vis (snd (observations_row X c i row)) = box_vis row"
    "ramp_vis (snd (observations_row X c i row)) = ramp_vis row"
    "b < length (box_obs row) \<Longrightarrow> b < nat maxBoxes \<Longrightarrow> numActiveBoxes c \<le> int b \<Longrightarrow>
       box_obs (snd (observations_row X c i row)) ! b = zero_BoxObservation"
    "b < length (box_obs row) \<Longrightarrow> b < nat maxBoxes \<Longrightarrow> int b < numActiveBoxes c \<Longrightarrow>
       bo_boxSize (box_obs (snd (observations_row X c i row)) ! b) = boxSizes c ! b"
    "b < length (ramp_obs row) \<Longrightarrow> b < nat maxRamps \<Longrightarrow> numActiveRamps c \<le> int b \<Longrightarrow>
       ramp_obs (snd (observations_row X c i row)) ! b = zero_RampObservation"
  using assms
  by (auto simp: observations_row_def collectObservationsSystem_def Let_def box_obs_fold
      ramp_obs_fold obs_fold_len)

lemma visibility_row_obs:
  "sim_e (snd (visibility_row X c i row)) = sim_e row"
  "agent_obs (snd (visibility_row X c i row)) = agent_obs row"
  "box_obs (snd (visibility_row X c i row)) = box_obs row"
  "ramp_obs (snd (visibility_row X c i row)) = ramp_obs row"
  by (simp_all add: visibility_row_def Let_def)

lemma node_pred:
  assumes "\<And>c i row. agents (fst (f c i row)) = agents c"
    and "\<And>c i row. core (fst (f c i row)) = core c"
    and "\<And>c i row. core c = core ctx \<Longrightarrow> G (snd (f c i row))"
    and "j < length (agents ctx)"
  shows "G (agents (forAgents f ctx) ! j)"
  using forAgents_rows [where Q = core and g = G and h = "\<lambda>i row. True" and f = f and ctx = ctx]
  by (simp add: assms)

lemma node_keep:
  assumes "\<And>c i row. agents (fst (f c i row)) = agents c"
    and "\<And>c i row. core (fst (f c i row)) = core c"
    and "\<And>c i row. g (snd (f c i row)) = g row"
    and "j < length (agents ctx)"
  shows "g (agents (forAgents f ctx) ! j) = g (agents ctx ! j)"
  using forAgents_rows [where Q = core and g = g and h = "\<lambda>i row. g row" and f = f and ctx = ctx]
  by (simp add: assms)

lemma node_keep_gen:
  assumes "\<And>c i row. length (agents (fst (f c i row))) = length (agents c)"
    and "\<And>c i row j. j < length (agents c) \<Longrightarrow>
           other_cols (agents (fst (f c i row)) ! j) = other_cols (agents c ! j)"
    and "\<And>c i row. core (fst (f c i row)) = core c"
    and "\<And>c i row. g (other_cols (snd (f c i row))) = g (other_cols row)"
    and "j < length (agents ctx)"
  shows "g (other_cols (agents (forAgents f ctx) ! j)) = g (other_cols (agents ctx ! j))"
  using forAgents_rows_gen [where Q = core and g = "\<lambda>r. g (other_cols r)" and h = "\<lambda>i x. x"
      and f = f and ctx = ctx]
  by (simp add: assms)

lemma observations_row_keep:
  "sim_e (snd (observations_row X c i row)) = sim_e row"
  "length (box_obs (snd (observations_row X c i row))) = length (box_obs row)"
  "length (ramp_obs (snd (observations_row X c i row))) = length (ramp_obs row)"
  "box_vis (snd (observations_row X c i row)) = box_vis row"
  "ramp_vis (snd (observations_row X c i row)) = ramp_vis row"
  by (cases "sim_e row"; simp add: observations_row_inactive observations_row_active)+

lemma obs_row_inactive_keep:
  "(if sim_e (snd (observations_row X c i row)) = None
    then Some (snd (observations_row X c i row)) else None) =
   (if sim_e row = None then Some row else None)"
  by (cases "sim_e row") (simp_all add: observations_row_inactive observations_row_keep)

lemma vis_row_inactive_keep:
  "(if sim_e (snd (visibility_row X c i row)) = None
    then Some (snd (visibility_row X c i row)) else None) =
   (if sim_e row = None then Some row else None)"
  by (cases "sim_e row") (simp_all add: visibility_row_inactive visibility_row_obs)

lemma obs_row_boxes:
  "sim_e (snd (observations_row X c i row)) \<noteq> None \<and>
   b < length (box_obs (snd (observations_row X c i row))) \<and> b < nat maxBoxes \<longrightarrow>
     (numActiveBoxes c \<le> int b \<longrightarrow>
        box_obs (snd (observations_row X c i row)) ! b = zero_BoxObservation) \<and>
     (int b < numActiveBoxes c \<longrightarrow>
        bo_boxSize (box_obs (snd (observations_row X c i row)) ! b) = boxSizes c ! b)"
  using observations_row_active(6,7) [of row b c X i]
  by (simp add: observations_row_keep)

lemma vis_row_inactive_other:
  "(if sim_e (other_cols (snd (visibility_row X c i row))) = None
    then Some (other_cols (snd (visibility_row X c i row))) else None) =
   (if sim_e (other_cols row) = None then Some (other_cols row) else None)"
  by (cases "sim_e row") (simp_all add: visibility_row_inactive visibility_row_obs)

lemma observationsTasks_rows:
  fixes X ctx
  defines "c' \<equiv> observationsTasks X ctx"
  assumes j: "j < length (agents ctx)"
  shows "sim_e (agents ctx ! j) = None \<Longrightarrow>
       other_cols (agents c' ! j) = other_cols (agents ctx ! j)"
    "\<not> gpu_mode X \<Longrightarrow> sim_e (agents ctx ! j) = None \<Longrightarrow> agents c' ! j = agents ctx ! j"
    "sim_e (agents ctx ! j) \<noteq> None \<Longrightarrow> b < length (box_obs (agents ctx ! j)) \<Longrightarrow>
       b < nat maxBoxes \<Longrightarrow> int b < numActiveBoxes ctx \<Longrightarrow>
       bo_boxSize (box_obs (agents c' ! j) ! b) = boxSizes ctx ! b"
proof -
  define c1 where "c1 = forAgents (observations_row X) ctx"
  have c': "c' = forAgents (visibility_row X) c1"
    by (simp add: c'_def observationsTasks_def c1_def)
  note o = observations_node [of X ctx, folded c1_def]
  have l1: "length (agents c1) = length (agents ctx)" and core1: "core c1 = core ctx"
    using o by simp_all
  have j1: "j < length (agents c1)" using j l1 by simp
  have oa: "\<And>c i row. agents (fst (observations_row X c i row)) = agents c"
    and oc: "\<And>c i row. core (fst (observations_row X c i row)) = core c"
    by (simp_all add: observations_row_facts)
  have vl: "\<And>c i row. length (agents (fst (visibility_row X c i row))) = length (agents c)"
    and vo: "\<And>c i row j. j < length (agents c) \<Longrightarrow>
               other_cols (agents (fst (visibility_row X c i row)) ! j) = other_cols (agents c ! j)"
    and vc: "\<And>c i row. core (fst (visibility_row X c i row)) = core c"
    by (simp_all add: visibility_row_facts)
  \<comment> \<open>the observation node\<close>
  have k1: "(if sim_e (agents c1 ! j) = None then Some (agents c1 ! j) else None) =
            (if sim_e (agents ctx ! j) = None then Some (agents ctx ! j) else None)"
    unfolding c1_def
    by (rule node_keep [where f = "observations_row X" and ctx = ctx
          and g = "\<lambda>r. if sim_e r = None then Some r else None", OF oa oc obs_row_inactive_keep j])
  have k2: "(sim_e (agents c1 ! j), length (box_obs (agents c1 ! j))) =
            (sim_e (agents ctx ! j), length (box_obs (agents ctx ! j)))"
    unfolding c1_def
    by (rule node_keep [where f = "observations_row X" and ctx = ctx
          and g = "\<lambda>r. (sim_e r, length (box_obs r))", OF oa oc _ j])
       (simp add: observations_row_keep)
  have p1: "sim_e (agents c1 ! j) \<noteq> None \<and> b < length (box_obs (agents c1 ! j)) \<and>
            b < nat maxBoxes \<longrightarrow>
             (numActiveBoxes ctx \<le> int b \<longrightarrow> box_obs (agents c1 ! j) ! b = zero_BoxObservation) \<and>
             (int b < numActiveBoxes ctx \<longrightarrow>
                bo_boxSize (box_obs (agents c1 ! j) ! b) = boxSizes ctx ! b)"
    unfolding c1_def
  proof (rule node_pred [where f = "observations_row X" and ctx = ctx
          and G = "\<lambda>r. sim_e r \<noteq> None \<and> b < length (box_obs r) \<and> b < nat maxBoxes \<longrightarrow>
             (numActiveBoxes ctx \<le> int b \<longrightarrow> box_obs r ! b = zero_BoxObservation) \<and>
             (int b < numActiveBoxes ctx \<longrightarrow> bo_boxSize (box_obs r ! b) = boxSizes ctx ! b)",
          OF oa oc _ j])
    fix c i row assume "core c = core ctx"
    then have e: "numActiveBoxes ctx = numActiveBoxes c" "boxSizes ctx = boxSizes c"
      by (simp_all add: core_def)
    show "sim_e (snd (observations_row X c i row)) \<noteq> None \<and>
          b < length (box_obs (snd (observations_row X c i row))) \<and> b < nat maxBoxes \<longrightarrow>
          (numActiveBoxes ctx \<le> int b \<longrightarrow>
             box_obs (snd (observations_row X c i row)) ! b = zero_BoxObservation) \<and>
          (int b < numActiveBoxes ctx \<longrightarrow>
             bo_boxSize (box_obs (snd (observations_row X c i row)) ! b) = boxSizes ctx ! b)"
      unfolding e by (rule obs_row_boxes)
  qed
  \<comment> \<open>the visibility node\<close>
  have k3: "(if sim_e (other_cols (agents c' ! j)) = None
             then Some (other_cols (agents c' ! j)) else None) =
            (if sim_e (other_cols (agents c1 ! j)) = None
             then Some (other_cols (agents c1 ! j)) else None)"
    unfolding c'
    by (rule node_keep_gen [where f = "visibility_row X" and ctx = c1
          and g = "\<lambda>r. if sim_e r = None then Some r else None",
          OF vl vo vc vis_row_inactive_other j1])
  have k4: "(sim_e (other_cols (agents c' ! j)), box_obs (other_cols (agents c' ! j))) =
            (sim_e (other_cols (agents c1 ! j)), box_obs (other_cols (agents c1 ! j)))"
    unfolding c'
  proof (rule node_keep_gen [where f = "visibility_row X" and ctx = c1
          and g = "\<lambda>r. (sim_e r, box_obs r)", OF vl vo vc _ j1])
    fix c :: Engine and i :: nat and row :: AgentInterface
    have "sim_e (snd (visibility_row X c i row)) = sim_e row"
      "box_obs (snd (visibility_row X c i row)) = box_obs row"
      by (simp_all add: visibility_row_obs)
    then show "(sim_e (other_cols (snd (visibility_row X c i row))),
           box_obs (other_cols (snd (visibility_row X c i row)))) =
          (sim_e (other_cols row), box_obs (other_cols row))"
      by simp
  qed
  show "sim_e (agents ctx ! j) = None \<Longrightarrow>
       other_cols (agents c' ! j) = other_cols (agents ctx ! j)"
    using k1 k3 by (simp split: if_splits)
  show "\<not> gpu_mode X \<Longrightarrow> sim_e (agents ctx ! j) = None \<Longrightarrow> agents c' ! j = agents ctx ! j"
  proof -
    assume ng: "\<not> gpu_mode X" and n: "sim_e (agents ctx ! j) = None"
    have va: "\<And>c i row. agents (fst (visibility_row X c i row)) = agents c"
      using ng by (simp add: visibility_row_facts(5))
    have "(if sim_e (agents c' ! j) = None then Some (agents c' ! j) else None) =
          (if sim_e (agents c1 ! j) = None then Some (agents c1 ! j) else None)"
      unfolding c'
      by (rule node_keep [where f = "visibility_row X" and ctx = c1
            and g = "\<lambda>r. if sim_e r = None then Some r else None",
            OF va vc vis_row_inactive_keep j1])
    then show ?thesis using k1 n by (simp split: if_splits)
  qed
  show "sim_e (agents ctx ! j) \<noteq> None \<Longrightarrow> b < length (box_obs (agents ctx ! j)) \<Longrightarrow>
       b < nat maxBoxes \<Longrightarrow> int b < numActiveBoxes ctx \<Longrightarrow>
       bo_boxSize (box_obs (agents c' ! j) ! b) = boxSizes ctx ! b"
    using k2 k4 p1 by simp
qed

subsection \<open>A tick that regenerates the world\<close>

lemma reset_then_observe:
  assumes X: "sampleI32_in_range X" "static_fits X" and wf: "wf_world P"
    and lv: "(\<not> ignoreEpisodeLength P \<and> curEpisodeStep P = episodeLen - 1) \<or> resetLevel P = 1"
  shows "\<exists>c. bindE (resetSystem X P) (\<lambda>c. Inr (observationsTasks X c)) = Inr c
           \<and> wf_world c \<and> config_of c = config_of P
           \<and> curEpisodeStep c = 0 \<and> resetLevel c = 0
           \<and> curWorldEpisode c = curWorldEpisode (initEpisodeRNG X P)
           \<and> numActiveAgents c =
                sampleI32 X (rng (initEpisodeRNG X P)) (minHiders P) (maxHiders P + 1) +
                sampleI32 X (rng_advance (rng (initEpisodeRNG X P))) (minSeekers P)
                  (maxSeekers P + 1)
           \<and> minHiders P + minSeekers P \<le> numActiveAgents c
           \<and> length (agents c) = length (agents P)
           \<and> (\<forall>i<length (agents P).
                done_v (agents c ! i) = done_v (agents P ! i)
              \<and> (i < nat (numActiveAgents c) \<longrightarrow>
                   sim_e (agents c ! i) \<noteq> None \<and> mask (agents c ! i) = 1
                 \<and> (\<forall>b<3. b < length (box_obs (agents P ! i)) \<longrightarrow>
                        bo_boxSize (box_obs (agents c ! i) ! b) = (8, 1.5)))
              \<and> (nat (numActiveAgents c) \<le> i \<longrightarrow>
                   sim_e (agents c ! i) = None \<and> mask (agents c ! i) = 0
                 \<and> box_obs (agents c ! i) = box_obs (agents P ! i)))"
proof -
  from resetSystem_training [OF X wf lv] obtain c4 where
    rs: "resetSystem X P = Inr c4" and wf4: "wf_world c4" and cf4: "config_of c4 = config_of P"
    and s4: "curEpisodeStep c4 = 0" "resetLevel c4 = 0"
    and nb: "3 \<le> numActiveBoxes c4"
    and rg: "minHiders P \<le> numHiders c4" "minSeekers P \<le> numSeekers c4"
    and na: "numActiveAgents c4 = numHiders c4 + numSeekers c4"
    and act: "\<forall>i<nat (numActiveAgents c4). sim_e (agents c4 ! i) \<noteq> None \<and> mask (agents c4 ! i) = 1
                  \<and> action (agents c4 ! i) = neutral_action"
    and inact: "\<forall>i. nat (numActiveAgents c4) \<le> i \<and> i < length (agents c4) \<longrightarrow>
                  sim_e (agents c4 ! i) = None \<and> mask (agents c4 ! i) = 0"
    and d4: "map done_v (agents c4) = map done_v (agents P)"
    and b4: "map box_obs (agents c4) = map box_obs (agents P)"
    and we: "curWorldEpisode c4 = curWorldEpisode (initEpisodeRNG X P)"
    and nh: "numHiders c4 =
               sampleI32 X (rng (initEpisodeRNG X P)) (minHiders P) (maxHiders P + 1)"
    and ns: "numSeekers c4 =
               sampleI32 X (rng_advance (rng (initEpisodeRNG X P))) (minSeekers P) (maxSeekers P + 1)"
    and bs: "\<forall>i<3. boxSizes c4 ! i = (8, 1.5)"
    by blast
  define c where "c = observationsTasks X c4"
  note o = observationsTasks_facts [of X c4, folded c_def]
  have corec: "core c = core c4" using o by simp
  have len4: "length (agents c4) = length (agents P)" using d4 by (metis length_map)
  have lenc: "length (agents c) = length (agents P)" using o len4 by simp
  have nac: "numActiveAgents c = numActiveAgents c4" using corec by (simp add: core_def)
  have rows: "done_v (agents c ! i) = done_v (agents P ! i)
              \<and> (i < nat (numActiveAgents c) \<longrightarrow>
                   sim_e (agents c ! i) \<noteq> None \<and> mask (agents c ! i) = 1
                 \<and> (\<forall>b<3. b < length (box_obs (agents P ! i)) \<longrightarrow>
                        bo_boxSize (box_obs (agents c ! i) ! b) = (8, 1.5)))
              \<and> (nat (numActiveAgents c) \<le> i \<longrightarrow>
                   sim_e (agents c ! i) = None \<and> mask (agents c ! i) = 0
                 \<and> box_obs (agents c ! i) = box_obs (agents P ! i))"
    if i: "i < length (agents P)" for i
  proof -
    have i4: "i < length (agents c4)" using i len4 by simp
    have st: "status (agents c ! i) = status (agents c4 ! i)" using o i4 by simp
    have d: "done_v (agents c4 ! i) = done_v (agents P ! i)"
      using d4 i i4 by (metis nth_map)
    have bo: "box_obs (agents c4 ! i) = box_obs (agents P ! i)"
      using b4 i i4 by (metis nth_map)
    have 1: "done_v (agents c ! i) = done_v (agents P ! i)"
      using st d by (simp add: status_def)
    have 2: "sim_e (agents c ! i) \<noteq> None \<and> mask (agents c ! i) = 1
                 \<and> (\<forall>b<3. b < length (box_obs (agents P ! i)) \<longrightarrow>
                        bo_boxSize (box_obs (agents c ! i) ! b) = (8, 1.5))"
      if a: "i < nat (numActiveAgents c)"
    proof -
      have s: "sim_e (agents c4 ! i) \<noteq> None" "mask (agents c4 ! i) = 1"
        using act a nac by simp_all
      have "bo_boxSize (box_obs (agents c ! i) ! b) = (8, 1.5)"
        if "b < 3" "b < length (box_obs (agents P ! i))" for b
      proof -
        have "bo_boxSize (box_obs (agents c ! i) ! b) = boxSizes c4 ! b"
          unfolding c_def using s(1) that nb bo
          by (intro observationsTasks_rows(3) [OF i4]) (simp_all add: maxBoxes_def)
        then show ?thesis using bs that by simp
      qed
      then show ?thesis using s st by (simp add: status_def)
    qed
    have 3: "sim_e (agents c ! i) = None \<and> mask (agents c ! i) = 0
                 \<and> box_obs (agents c ! i) = box_obs (agents P ! i)"
      if a: "nat (numActiveAgents c) \<le> i"
    proof -
      have s: "sim_e (agents c4 ! i) = None" "mask (agents c4 ! i) = 0"
        using inact a nac i4 by simp_all
      have e: "other_cols (agents c ! i) = other_cols (agents c4 ! i)"
        unfolding c_def by (rule observationsTasks_rows(1) [OF i4 s(1)])
      have "sim_e (agents c ! i) = sim_e (agents c4 ! i)" "mask (agents c ! i) = mask (agents c4 ! i)"
        "box_obs (agents c ! i) = box_obs (agents c4 ! i)"
        using arg_cong [OF e, of sim_e] arg_cong [OF e, of mask] arg_cong [OF e, of box_obs]
        by simp_all
      then show ?thesis using s bo by simp
    qed
    show ?thesis using 1 2 3 by blast
  qed
  show ?thesis
  proof (intro exI [of _ c] conjI)
    show "bindE (resetSystem X P) (\<lambda>c. Inr (observationsTasks X c)) = Inr c"
      using rs by (simp add: bindE_def c_def)
    show "wf_world c" using wf4 corec o by (simp add: wf_world_def core_def config_of_def)
    show "config_of c = config_of P" using corec cf4 by (simp add: core_def)
    show "curEpisodeStep c = 0" using corec s4 by (simp add: core_def)
    show "resetLevel c = 0" using corec s4 by (simp add: core_def)
    show "curWorldEpisode c = curWorldEpisode (initEpisodeRNG X P)"
      using corec we by (simp add: core_def)
    show "numActiveAgents c =
                sampleI32 X (rng (initEpisodeRNG X P)) (minHiders P) (maxHiders P + 1) +
                sampleI32 X (rng_advance (rng (initEpisodeRNG X P))) (minSeekers P)
                  (maxSeekers P + 1)"
      using nac na nh ns by simp
    show "minHiders P + minSeekers P \<le> numActiveAgents c" using nac na rg by simp
    show "length (agents c) = length (agents P)" by (rule lenc)
    show "\<forall>i<length (agents P).
                done_v (agents c ! i) = done_v (agents P ! i)
              \<and> (i < nat (numActiveAgents c) \<longrightarrow>
                   sim_e (agents c ! i) \<noteq> None \<and> mask (agents c ! i) = 1
                 \<and> (\<forall>b<3. b < length (box_obs (agents P ! i)) \<longrightarrow>
                        bo_boxSize (box_obs (agents c ! i) ! b) = (8, 1.5)))
              \<and> (nat (numActiveAgents c) \<le> i \<longrightarrow>
                   sim_e (agents c ! i) = None \<and> mask (agents c ! i) = 0
                 \<and> box_obs (agents c ! i) = box_obs (agents P ! i))"
      using rows by blast
  qed
qed

lemma tick_reset_full:
  assumes X: "sampleI32_in_range X" "static_fits X" and wf: "wf_world ctx"
    and lv: "(\<not> ignoreEpisodeLength ctx \<and> curEpisodeStep ctx = episodeLen - 1)
             \<or> (case lvl of None \<Rightarrow> resetLevel ctx | Some l \<Rightarrow> l) = 1"
  shows "\<exists>c. step_graph X (host_write acts lvl ctx) = Inr c
           \<and> wf_world c \<and> config_of c = config_of ctx
           \<and> curEpisodeStep c = 0 \<and> resetLevel c = 0
           \<and> curWorldEpisode c = curWorldEpisode (initEpisodeRNG X ctx)
           \<and> numActiveAgents c =
                sampleI32 X (rng (initEpisodeRNG X ctx)) (minHiders ctx) (maxHiders ctx + 1) +
                sampleI32 X (rng_advance (rng (initEpisodeRNG X ctx))) (minSeekers ctx)
                  (maxSeekers ctx + 1)
           \<and> minHiders ctx + minSeekers ctx \<le> numActiveAgents c
           \<and> length (agents c) = length (agents ctx)
           \<and> (\<forall>i<length (agents ctx).
                done_v (agents c ! i) =
                  done_next (curEpisodeStep ctx) (sim_e (agents ctx ! i)) (done_v (agents ctx ! i))
              \<and> (i < nat (numActiveAgents c) \<longrightarrow>
                   sim_e (agents c ! i) \<noteq> None \<and> mask (agents c ! i) = 1
                 \<and> (\<forall>b<3. b < length (box_obs (agents ctx ! i)) \<longrightarrow>
                        bo_boxSize (box_obs (agents c ! i) ! b) = (8, 1.5)))
              \<and> (nat (numActiveAgents c) \<le> i \<longrightarrow>
                   sim_e (agents c ! i) = None \<and> mask (agents c ! i) = 0
                 \<and> box_obs (agents c ! i) = box_obs (agents ctx ! i)))"
proof -
  define P where "P = rewardsAndDonesTasks (processActionsAndPhysicsTasks X (host_write acts lvl ctx))"
  note b = before_reset [of X acts lvl ctx, folded P_def]
  from b have coreP:
    "core P = core (ctx\<lparr>resetLevel := (case lvl of None \<Rightarrow> resetLevel ctx | Some l \<Rightarrow> l)\<rparr>)"
    by simp
  have lenP: "length (agents P) = length (agents ctx)" using b by simp
  have cfP: "config_of P = config_of ctx" and weP: "curWorldEpisode P = curWorldEpisode ctx"
    using coreP by (simp_all add: core_def config_of_def)
  have mm: "minHiders P = minHiders ctx" "maxHiders P = maxHiders ctx"
    "minSeekers P = minSeekers ctx" "maxSeekers P = maxSeekers ctx"
    using cfP by (simp_all add: config_of_def)
  have wfP: "wf_world P"
    using wf coreP lenP by (simp add: wf_world_def core_def config_of_def)
  have lvP: "(\<not> ignoreEpisodeLength P \<and> curEpisodeStep P = episodeLen - 1) \<or> resetLevel P = 1"
    using lv coreP by (simp add: core_def config_of_def)
  note ie = initEpisodeRNG_cong [OF cfP weP, of X]
  have bx: "box_obs (agents P ! i) = box_obs (agents ctx ! i)" if "i < length (agents ctx)" for i
    using before_reset_records [OF that, of X acts lvl, folded P_def] by (simp add: records_def)
  from reset_then_observe [OF X wfP lvP, unfolded ie mm cfP lenP] obtain c where
    c: "bindE (resetSystem X P) (\<lambda>c. Inr (observationsTasks X c)) = Inr c"
    "wf_world c" "config_of c = config_of ctx" "curEpisodeStep c = 0" "resetLevel c = 0"
    "curWorldEpisode c = curWorldEpisode (initEpisodeRNG X ctx)"
    "numActiveAgents c =
       sampleI32 X (rng (initEpisodeRNG X ctx)) (minHiders ctx) (maxHiders ctx + 1) +
       sampleI32 X (rng_advance (rng (initEpisodeRNG X ctx))) (minSeekers ctx) (maxSeekers ctx + 1)"
    "minHiders ctx + minSeekers ctx \<le> numActiveAgents c"
    "length (agents c) = length (agents ctx)"
    and rows: "\<forall>i<length (agents ctx).
                done_v (agents c ! i) = done_v (agents P ! i)
              \<and> (i < nat (numActiveAgents c) \<longrightarrow>
                   sim_e (agents c ! i) \<noteq> None \<and> mask (agents c ! i) = 1
                 \<and> (\<forall>b<3. b < length (box_obs (agents P ! i)) \<longrightarrow>
                        bo_boxSize (box_obs (agents c ! i) ! b) = (8, 1.5)))
              \<and> (nat (numActiveAgents c) \<le> i \<longrightarrow>
                   sim_e (agents c ! i) = None \<and> mask (agents c ! i) = 0
                 \<and> box_obs (agents c ! i) = box_obs (agents P ! i))"
    by blast
  have sg: "step_graph X (host_write acts lvl ctx) = Inr c"
    using c(1) by (simp add: step_graph_def P_def [symmetric])
  have r: "done_v (agents c ! i) =
                  done_next (curEpisodeStep ctx) (sim_e (agents ctx ! i)) (done_v (agents ctx ! i))
              \<and> (i < nat (numActiveAgents c) \<longrightarrow>
                   sim_e (agents c ! i) \<noteq> None \<and> mask (agents c ! i) = 1
                 \<and> (\<forall>b<3. b < length (box_obs (agents ctx ! i)) \<longrightarrow>
                        bo_boxSize (box_obs (agents c ! i) ! b) = (8, 1.5)))
              \<and> (nat (numActiveAgents c) \<le> i \<longrightarrow>
                   sim_e (agents c ! i) = None \<and> mask (agents c ! i) = 0
                 \<and> box_obs (agents c ! i) = box_obs (agents ctx ! i))"
    if i: "i < length (agents ctx)" for i
    using rows [rule_format, OF i] bx [OF i] b i by simp
  show ?thesis
    using sg c(2-9) r by (intro exI [of _ c]) simp
qed

lemma init_graph_ok:
  assumes X: "sampleI32_in_range X" "static_fits X" and wf: "wf_world w0"
    and lv: "resetLevel w0 = 1"
  shows "\<exists>c. init_graph X w0 = Inr c
           \<and> wf_world c \<and> config_of c = config_of w0
           \<and> curEpisodeStep c = 0 \<and> resetLevel c = 0
           \<and> curWorldEpisode c = curWorldEpisode (initEpisodeRNG X w0)
           \<and> numActiveAgents c =
                sampleI32 X (rng (initEpisodeRNG X w0)) (minHiders w0) (maxHiders w0 + 1) +
                sampleI32 X (rng_advance (rng (initEpisodeRNG X w0))) (minSeekers w0)
                  (maxSeekers w0 + 1)
           \<and> minHiders w0 + minSeekers w0 \<le> numActiveAgents c
           \<and> length (agents c) = length (agents w0)
           \<and> (\<forall>i<length (agents w0).
                done_v (agents c ! i) = done_v (agents w0 ! i)
              \<and> (i < nat (numActiveAgents c) \<longrightarrow>
                   sim_e (agents c ! i) \<noteq> None \<and> mask (agents c ! i) = 1
                 \<and> (\<forall>b<3. b < length (box_obs (agents w0 ! i)) \<longrightarrow>
                        bo_boxSize (box_obs (agents c ! i) ! b) = (8, 1.5)))
              \<and> (nat (numActiveAgents c) \<le> i \<longrightarrow>
                   sim_e (agents c ! i) = None \<and> mask (agents c ! i) = 0
                 \<and> box_obs (agents c ! i) = box_obs (agents w0 ! i)))"
  unfolding init_graph_def
  by (rule reset_then_observe [OF X wf]) (simp add: lv)

section \<open>Episodes: done flags and rewards\<close>

lemma episode_run:
  assumes X: "sampleI32_in_range X" "static_fits X" and wf: "wf_world w"
    and ni: "\<not> ignoreEpisodeLength w" and s0: "curEpisodeStep w = 0" and r0: "resetLevel w = 0"
    and none: "\<forall>inp\<in>set inps. snd inp = None" and len: "int (length inps) = episodeLen + 1"
  shows "int k \<le> episodeLen - 2 \<Longrightarrow>
         \<exists>c. run_ticks X (take (Suc k) inps) w = Inr c
           \<and> length (agents c) = length (agents w)
           \<and> (\<forall>j<length (agents w).
                sim_e (agents c ! j) = sim_e (agents w ! j)
              \<and> (sim_e (agents w ! j) \<noteq> None \<longrightarrow>
                   done_v (agents c ! j) = 0
                 \<and> (int k \<le> numPrepSteps - 2 \<longrightarrow> reward_v (agents c ! j) = 0)))"
    "\<exists>c. run_ticks X (take (nat episodeLen) inps) w = Inr c
           \<and> wf_world c \<and> config_of c = config_of w
           \<and> curEpisodeStep c = 0 \<and> resetLevel c = 0
           \<and> length (agents c) = length (agents w)
           \<and> (\<forall>j<length (agents w). sim_e (agents w ! j) \<noteq> None \<longrightarrow> done_v (agents c ! j) = 1)
           \<and> (\<forall>i<nat (minHiders w + minSeekers w). sim_e (agents c ! i) \<noteq> None)"
    "\<exists>c. run_ticks X inps w = Inr c
           \<and> length (agents c) = length (agents w)
           \<and> (\<forall>j<length (agents c). sim_e (agents c ! j) \<noteq> None \<longrightarrow> done_v (agents c ! j) = 0)
           \<and> (\<forall>i<nat (minHiders w + minSeekers w). sim_e (agents c ! i) \<noteq> None)"
proof -
  have L: "length inps = 241" using len by (simp add: episodeLen_def)
  have pre: "\<forall>inp\<in>set (take n inps). snd inp = None" for n
    using none by (meson in_set_takeD)
  {
    assume k: "int k \<le> episodeLen - 2"
    then have lk: "length (take (Suc k) inps) = Suc k" using L by (simp add: episodeLen_def)
    have "int (length (take (Suc k) inps)) \<le> episodeLen - 1" using k lk by simp
    from episode_prefix [OF r0 s0 pre this, of X] lk
    have "\<exists>c. run_ticks X (take (Suc k) inps) w = Inr c
           \<and> length (agents c) = length (agents w)
           \<and> (\<forall>j<length (agents w).
                sim_e (agents c ! j) = sim_e (agents w ! j)
              \<and> (inps \<noteq> [] \<and> sim_e (agents w ! j) \<noteq> None \<longrightarrow>
                   done_v (agents c ! j) = 0
                 \<and> (int k \<le> numPrepSteps - 2 \<longrightarrow> reward_v (agents c ! j) = 0)))"
      by (auto simp: numPrepSteps_def)
    moreover have "inps \<noteq> []" using L by auto
    ultimately show "\<exists>c. run_ticks X (take (Suc k) inps) w = Inr c
           \<and> length (agents c) = length (agents w)
           \<and> (\<forall>j<length (agents w).
                sim_e (agents c ! j) = sim_e (agents w ! j)
              \<and> (sim_e (agents w ! j) \<noteq> None \<longrightarrow>
                   done_v (agents c ! j) = 0
                 \<and> (int k \<le> numPrepSteps - 2 \<longrightarrow> reward_v (agents c ! j) = 0)))"
      by (auto simp: numPrepSteps_def)
  }
  \<comment> \<open>the state before the last tick of the episode\<close>
  have l239: "length (take 239 inps) = 239" using L by simp
  have "int (length (take 239 inps)) \<le> episodeLen - 1" using l239 by (simp add: episodeLen_def)
  from episode_prefix [OF r0 s0 pre this, of X] l239
  obtain c239 where c239: "run_ticks X (take 239 inps) w = Inr c239"
    "core c239 = core (w\<lparr>curEpisodeStep := 239\<rparr>)" "length (agents c239) = length (agents w)"
    "\<forall>j<length (agents w). sim_e (agents c239 ! j) = sim_e (agents w ! j)"
    by auto
  have wf239: "wf_world c239"
    using wf c239(2,3) by (simp add: wf_world_def core_def config_of_def)
  have e239: "curEpisodeStep c239 = episodeLen - 1" "\<not> ignoreEpisodeLength c239"
    "config_of c239 = config_of w"
    using c239(2) ni by (simp_all add: core_def config_of_def episodeLen_def)
  have mm: "minHiders c239 = minHiders w" "minSeekers c239 = minSeekers w"
    "maxHiders c239 = maxHiders w" "maxSeekers c239 = maxSeekers w"
    "maxAgentsPerWorld c239 = maxAgentsPerWorld w"
    using e239(3) by (simp_all add: config_of_def)
  have t240: "take (nat episodeLen) inps = take 239 inps @ [inps ! 239]"
    using L by (simp add: episodeLen_def take_Suc_conv_app_nth [of 239 inps, symmetric])
  have n239: "snd (inps ! 239) = None" using none L by simp
  from tick_reset_full [OF X wf239, of None "fst (inps ! 239)"] e239(1,2)
  obtain c240 where c240: "step_graph X (host_write (fst (inps ! 239)) None c239) = Inr c240"
    "wf_world c240" "config_of c240 = config_of c239" "curEpisodeStep c240 = 0"
    "resetLevel c240 = 0" "minHiders c239 + minSeekers c239 \<le> numActiveAgents c240"
    "length (agents c240) = length (agents c239)"
    and rows240: "\<forall>i<length (agents c239).
                done_v (agents c240 ! i) =
                  done_next (curEpisodeStep c239) (sim_e (agents c239 ! i))
                    (done_v (agents c239 ! i))
              \<and> (i < nat (numActiveAgents c240) \<longrightarrow> sim_e (agents c240 ! i) \<noteq> None)"
    by auto
  have run240: "run_ticks X (take (nat episodeLen) inps) w = Inr c240"
    using c239(1) c240(1) n239 by (simp add: t240 run_ticks_snoc)
  have lw: "nat (minHiders w + minSeekers w) \<le> length (agents w)"
    using wf by (auto simp: wf_world_def)
  have act240: "\<forall>i<nat (minHiders w + minSeekers w). sim_e (agents c240 ! i) \<noteq> None"
    using rows240 c240(6) mm c239(3) lw by auto
  have done240: "\<forall>j<length (agents w). sim_e (agents w ! j) \<noteq> None \<longrightarrow> done_v (agents c240 ! j) = 1"
    using rows240 c239(3,4) e239(1) by (auto simp: done_next_def episodeLen_def)
  show "\<exists>c. run_ticks X (take (nat episodeLen) inps) w = Inr c
           \<and> wf_world c \<and> config_of c = config_of w
           \<and> curEpisodeStep c = 0 \<and> resetLevel c = 0
           \<and> length (agents c) = length (agents w)
           \<and> (\<forall>j<length (agents w). sim_e (agents w ! j) \<noteq> None \<longrightarrow> done_v (agents c ! j) = 1)
           \<and> (\<forall>i<nat (minHiders w + minSeekers w). sim_e (agents c ! i) \<noteq> None)"
    using run240 c240(2-5,7) c239(3) e239(3) done240 act240
    by (intro exI [of _ c240]) simp
  \<comment> \<open>the first tick of the next episode\<close>
  have tall: "inps = take (nat episodeLen) inps @ [inps ! 240]"
    using L by (simp add: episodeLen_def take_Suc_conv_app_nth [of 240 inps, symmetric])
  have n240: "snd (inps ! 240) = None" using none L by simp
  have nr: "ignoreEpisodeLength c240 \<or> curEpisodeStep c240 \<noteq> episodeLen - 1"
    using c240(4) by (simp add: episodeLen_def)
  from tick_no_reset [OF c240(5) nr, of X "fst (inps ! 240)"]
  obtain c241 where c241: "step_graph X (host_write (fst (inps ! 240)) None c240) = Inr c241"
    "length (agents c241) = length (agents c240)"
    and rows241: "\<forall>j<length (agents c240).
                sim_e (agents c241 ! j) = sim_e (agents c240 ! j)
              \<and> done_v (agents c241 ! j) =
                  done_next (curEpisodeStep c240) (sim_e (agents c240 ! j))
                    (done_v (agents c240 ! j))"
    by blast
  have run241: "run_ticks X inps w = Inr c241"
    using run240 c241(1) n240 by (subst tall) (simp add: run_ticks_snoc)
  have d241: "\<forall>j<length (agents c241). sim_e (agents c241 ! j) \<noteq> None \<longrightarrow>
      done_v (agents c241 ! j) = 0"
    using rows241 c241(2) c240(4) by (auto simp: done_next_def)
  have act241: "\<forall>i<nat (minHiders w + minSeekers w). sim_e (agents c241 ! i) \<noteq> None"
    using rows241 act240 lw c240(7) c239(3) by auto
  show "\<exists>c. run_ticks X inps w = Inr c
           \<and> length (agents c) = length (agents w)
           \<and> (\<forall>j<length (agents c). sim_e (agents c ! j) \<noteq> None \<longrightarrow> done_v (agents c ! j) = 0)
           \<and> (\<forall>i<nat (minHiders w + minSeekers w). sim_e (agents c ! i) \<noteq> None)"
    using run241 c241(2) c240(7) c239(3) d241 act241
    by (intro exI [of _ c241]) simp
qed

lemma test_sim_facts:
  "wf_world (test_sim (test_cfg 1 1 0 1))"
  "resetLevel (test_sim (test_cfg 1 1 0 1)) = 1"
  "config_of (test_sim (test_cfg 1 1 0 1)) = (False, False, (0, 0), 0, 1, 1, 0, 1, 2, 0, (0, 0))"
  "curWorldEpisode (test_sim (test_cfg 1 1 0 1)) = 0"
  "agents (test_sim (test_cfg 1 1 0 1)) = [test_row, test_row]"
  by (simp_all add: test_sim_def Sim_init_def test_cfg_def test_mem_def wf_world_def
      config_of_def maxBoxes_def maxRamps_def maxAgents_def max_total_entities_def Let_def
      upt_conv_Cons)

text \<open>
  Claim C6. A world at tick 0 of an episode, with no reset requested and the
  episode length in force, is run for \<open>L + 1 = 241\<close> ticks; the host writes any
  actions and requests no reset. The run does not stop. After each of the ticks
  \<open>0\<close> to \<open>L - 2 = 238\<close> every agent (every row with a backing entity) has done
  flag 0, and after each of the ticks \<open>0\<close> to \<open>P - 2 = 94\<close> it has reward 0. After
  tick \<open>L - 1 = 239\<close> the done flag of every agent of the episode is 1 and the world
  has been regenerated (the step counter is back at 0). After the next tick, tick
  0 of the next episode, every agent of that episode has done flag 0.
\<close>

theorem episode_done_reward:
  assumes "sampleI32_in_range X" "static_fits X" "wf_world w"
    and "\<not> ignoreEpisodeLength w" "curEpisodeStep w = 0" "resetLevel w = 0"
    and "\<forall>inp\<in>set inps. snd inp = None" "int (length inps) = episodeLen + 1"
  shows "(\<forall>k. int k \<le> episodeLen - 2 \<longrightarrow>
            (\<exists>c. run_ticks X (take (Suc k) inps) w = Inr c
               \<and> (\<forall>j<length (agents c). sim_e (agents c ! j) \<noteq> None \<longrightarrow>
                      done_v (agents c ! j) = 0
                    \<and> (int k \<le> numPrepSteps - 2 \<longrightarrow> reward_v (agents c ! j) = 0))))
       \<and> (\<exists>c. run_ticks X (take (nat episodeLen) inps) w = Inr c
               \<and> curEpisodeStep c = 0
               \<and> (\<forall>j<length (agents w). sim_e (agents w ! j) \<noteq> None \<longrightarrow>
                      done_v (agents c ! j) = 1))
       \<and> (\<exists>c. run_ticks X inps w = Inr c
               \<and> (\<forall>j<length (agents c). sim_e (agents c ! j) \<noteq> None \<longrightarrow>
                      done_v (agents c ! j) = 0))"
proof (intro conjI allI impI)
  fix k assume k: "int k \<le> episodeLen - 2"
  from episode_run(1) [OF assms k] obtain c where
    c: "run_ticks X (take (Suc k) inps) w = Inr c" "length (agents c) = length (agents w)"
    "\<forall>j<length (agents w).
        sim_e (agents c ! j) = sim_e (agents w ! j)
      \<and> (sim_e (agents w ! j) \<noteq> None \<longrightarrow>
           done_v (agents c ! j) = 0
         \<and> (int k \<le> numPrepSteps - 2 \<longrightarrow> reward_v (agents c ! j) = 0))"
    by blast
  show "\<exists>c. run_ticks X (take (Suc k) inps) w = Inr c
               \<and> (\<forall>j<length (agents c). sim_e (agents c ! j) \<noteq> None \<longrightarrow>
                      done_v (agents c ! j) = 0
                    \<and> (int k \<le> numPrepSteps - 2 \<longrightarrow> reward_v (agents c ! j) = 0))"
    using c by (intro exI [of _ c]) simp
next
  show "\<exists>c. run_ticks X (take (nat episodeLen) inps) w = Inr c
               \<and> curEpisodeStep c = 0
               \<and> (\<forall>j<length (agents w). sim_e (agents w ! j) \<noteq> None \<longrightarrow>
                      done_v (agents c ! j) = 1)"
    using episode_run(2) [OF assms] by blast
next
  show "\<exists>c. run_ticks X inps w = Inr c
               \<and> (\<forall>j<length (agents c). sim_e (agents c ! j) \<noteq> None \<longrightarrow>
                      done_v (agents c ! j) = 0)"
    using episode_run(3) [OF assms] by blast
qed

text \<open>
  The run from the world that the init graph generates for one hider and at most
  one seeker: the hider of row 0 after the ticks 94, 239 and 240.
\<close>

theorem episode_done_reward_witness:
  "\<exists>w. init_graph (test_ext None False) (test_sim (test_cfg 1 1 0 1)) = Inr w
      \<and> sim_e (agents w ! 0) \<noteq> None
      \<and> (\<exists>c. run_ticks (test_ext None False) (replicate 95 ([], None)) w = Inr c
            \<and> sim_e (agents c ! 0) \<noteq> None
            \<and> done_v (agents c ! 0) = 0 \<and> reward_v (agents c ! 0) = 0)
      \<and> (\<exists>c. run_ticks (test_ext None False) (replicate 240 ([], None)) w = Inr c
            \<and> curEpisodeStep c = 0 \<and> done_v (agents c ! 0) = 1)
      \<and> (\<exists>c. run_ticks (test_ext None False) (replicate 241 ([], None)) w = Inr c
            \<and> sim_e (agents c ! 0) \<noteq> None \<and> done_v (agents c ! 0) = 0)"
proof -
  let ?X = "test_ext None False"
  let ?w0 = "test_sim (test_cfg 1 1 0 1)"
  let ?inps = "replicate 241 ([] :: Action list, None :: int option)"
  from init_graph_ok [OF test_ext_in_range test_ext_fits test_sim_facts(1,2), of None False]
  obtain w where w: "init_graph ?X ?w0 = Inr w" "wf_world w" "config_of w = config_of ?w0"
    "curEpisodeStep w = 0" "resetLevel w = 0"
    "minHiders ?w0 + minSeekers ?w0 \<le> numActiveAgents w"
    "length (agents w) = length (agents ?w0)"
    and rows: "\<forall>i<length (agents ?w0). i < nat (numActiveAgents w) \<longrightarrow> sim_e (agents w ! i) \<noteq> None"
    by blast
  have "config_of w = (False, False, (0, 0), 0, 1, 1, 0, 1, 2, 0, (0, 0))"
    using w(3) test_sim_facts(3) by simp
  then have cf: "\<not> ignoreEpisodeLength w" "minHiders w = 1" "minSeekers w = 0"
    by (simp_all add: config_of_def)
  have m0: "minHiders ?w0 = 1" "minSeekers ?w0 = 0"
    using test_sim_facts(3) by (simp_all add: config_of_def)
  have lw: "length (agents w) = 2" using w(7) by (simp add: test_sim_facts(5))
  have a0: "sim_e (agents w ! 0) \<noteq> None"
    using rows w(6) m0 by (simp add: test_sim_facts(5))
  have none: "\<forall>inp\<in>set ?inps. snd inp = None" by simp
  have len: "int (length ?inps) = episodeLen + 1" by (simp add: episodeLen_def)
  note hyp = test_ext_in_range [of None False] test_ext_fits [of None False] w(2) cf(1) w(4,5)
    none len
  note T = episode_done_reward [OF hyp]
  have k: "int 94 \<le> episodeLen - 2" by (simp add: episodeLen_def)
  \<comment> \<open>tick 94\<close>
  from T k obtain c1 where c1: "run_ticks ?X (take (Suc 94) ?inps) w = Inr c1"
    "\<forall>j<length (agents c1). sim_e (agents c1 ! j) \<noteq> None \<longrightarrow>
        done_v (agents c1 ! j) = 0 \<and> (int 94 \<le> numPrepSteps - 2 \<longrightarrow> reward_v (agents c1 ! j) = 0)"
    by blast
  from episode_run(1) [OF hyp k] c1(1)
  have s1: "length (agents c1) = length (agents w)" "sim_e (agents c1 ! 0) = sim_e (agents w ! 0)"
    using lw by auto
  have p1: "run_ticks ?X (replicate 95 ([], None)) w = Inr c1 \<and> sim_e (agents c1 ! 0) \<noteq> None
            \<and> done_v (agents c1 ! 0) = 0 \<and> reward_v (agents c1 ! 0) = 0"
    using c1 s1 a0 lw by (simp add: numPrepSteps_def)
  \<comment> \<open>tick 239\<close>
  from T obtain c2 where c2: "run_ticks ?X (take (nat episodeLen) ?inps) w = Inr c2"
    "curEpisodeStep c2 = 0"
    "\<forall>j<length (agents w). sim_e (agents w ! j) \<noteq> None \<longrightarrow> done_v (agents c2 ! j) = 1"
    by blast
  have p2: "run_ticks ?X (replicate 240 ([], None)) w = Inr c2 \<and> curEpisodeStep c2 = 0
            \<and> done_v (agents c2 ! 0) = 1"
    using c2 a0 lw by (simp add: episodeLen_def)
  \<comment> \<open>tick 0 of the next episode\<close>
  from T obtain c3 where c3: "run_ticks ?X ?inps w = Inr c3"
    "\<forall>j<length (agents c3). sim_e (agents c3 ! j) \<noteq> None \<longrightarrow> done_v (agents c3 ! j) = 0"
    by blast
  from episode_run(3) [OF hyp] c3(1)
  have s3: "length (agents c3) = length (agents w)" "sim_e (agents c3 ! 0) \<noteq> None"
    using cf(2,3) by auto
  have p3: "run_ticks ?X ?inps w = Inr c3 \<and> sim_e (agents c3 ! 0) \<noteq> None
            \<and> done_v (agents c3 ! 0) = 0"
    using c3 s3 lw by simp
  show ?thesis using w(1) a0 p1 p2 p3 by blast
qed

section \<open>Inactive slots\<close>

lemma test_rng:
  assumes "config_of w = (False, False, (0, 0), 0, 1, 1, 0, 1, 2, 0, (0, 0))"
  shows "rng (initEpisodeRNG (test_ext hit ov) w) = \<lparr>rng_key = (curWorldEpisode w, 0), rng_count = 0\<rparr>"
    "curWorldEpisode (initEpisodeRNG (test_ext hit ov) w) = (curWorldEpisode w + 1) mod 2 ^ 32"
  using assms by (simp_all add: initEpisodeRNG_def Let_def config_of_def test_ext_def)

lemma test_bounds:
  assumes "config_of w = (False, False, (0, 0), 0, 1, 1, 0, 1, 2, 0, (0, 0))"
  shows "minHiders w = 1" "maxHiders w = 1" "minSeekers w = 0" "maxSeekers w = 1"
  using assms by (simp_all add: config_of_def)

lemma episodes_run:
  "\<exists>w c. init_graph (test_ext None False) (test_sim (test_cfg 1 1 0 1)) = Inr w
     \<and> sim_e (agents w ! 1) \<noteq> None
     \<and> run_ticks (test_ext None False) [([], Some 1)] w = Inr c
     \<and> sim_e (agents c ! 1) = None \<and> mask (agents c ! 1) = 0
     \<and> bo_boxSize (box_obs (agents c ! 1) ! 0) = (8, 3 / 2)"
proof -
  let ?X = "test_ext None False"
  let ?w0 = "test_sim (test_cfg 1 1 0 1)"
  note r0 = test_rng [OF test_sim_facts(3), of None False] test_bounds [OF test_sim_facts(3)]
  have s0: "sampleI32 ?X (rng (initEpisodeRNG ?X ?w0)) (minHiders ?w0) (maxHiders ?w0 + 1) +
            sampleI32 ?X (rng_advance (rng (initEpisodeRNG ?X ?w0))) (minSeekers ?w0)
              (maxSeekers ?w0 + 1) = 2"
    unfolding r0 test_sim_facts(4)
    by (simp add: test_ext_def test_sampleI32_def rng_advance_def)
  from init_graph_ok [OF test_ext_in_range test_ext_fits test_sim_facts(1,2), of None False,
      unfolded s0]
  obtain w where w: "init_graph ?X ?w0 = Inr w" "wf_world w" "config_of w = config_of ?w0"
    "curWorldEpisode w = curWorldEpisode (initEpisodeRNG ?X ?w0)"
    "numActiveAgents w = 2" "length (agents w) = length (agents ?w0)"
    and rows: "\<forall>i<length (agents ?w0).
        (i < nat (numActiveAgents w) \<longrightarrow>
           sim_e (agents w ! i) \<noteq> None
         \<and> (\<forall>b<3. b < length (box_obs (agents ?w0 ! i)) \<longrightarrow>
                bo_boxSize (box_obs (agents w ! i) ! b) = (8, 1.5)))"
    by blast
  have lw: "length (agents w) = 2" using w(6) by (simp add: test_sim_facts(5))
  have a1: "sim_e (agents w ! 1) \<noteq> None" "bo_boxSize (box_obs (agents w ! 1) ! 0) = (8, 1.5)"
    using rows w(5) by (simp_all add: test_sim_facts(5) test_row_def)
  have cfw: "config_of w = (False, False, (0, 0), 0, 1, 1, 0, 1, 2, 0, (0, 0))"
    using w(3) test_sim_facts(3) by simp
  have we: "curWorldEpisode w = 1" using w(4) r0(2) test_sim_facts(4) by simp
  note r1 = test_rng [OF cfw, of None False] test_bounds [OF cfw]
  have s1: "sampleI32 ?X (rng (initEpisodeRNG ?X w)) (minHiders w) (maxHiders w + 1) +
            sampleI32 ?X (rng_advance (rng (initEpisodeRNG ?X w))) (minSeekers w)
              (maxSeekers w + 1) = 1"
    unfolding r1 we
    by (simp add: test_ext_def test_sampleI32_def rng_advance_def)
  have lv: "(\<not> ignoreEpisodeLength w \<and> curEpisodeStep w = episodeLen - 1)
             \<or> (case Some 1 of None \<Rightarrow> resetLevel w | Some l \<Rightarrow> l) = 1"
    by simp
  from tick_reset_full [OF test_ext_in_range test_ext_fits w(2) lv, of None False "[]",
      unfolded s1]
  obtain c where c: "step_graph ?X (host_write [] (Some 1) w) = Inr c" "numActiveAgents c = 1"
    and crow: "\<forall>i<length (agents w).
        (nat (numActiveAgents c) \<le> i \<longrightarrow>
           sim_e (agents c ! i) = None \<and> mask (agents c ! i) = 0
         \<and> box_obs (agents c ! i) = box_obs (agents w ! i))"
    by blast
  have c1: "sim_e (agents c ! 1) = None" "mask (agents c ! 1) = 0"
    "box_obs (agents c ! 1) = box_obs (agents w ! 1)"
    using crow c(2) lw by simp_all
  have "run_ticks ?X [([], Some 1)] w = Inr c" using c(1) by simp
  then show ?thesis using w(1) a1 c1 by auto
qed

text \<open>
  Claim C2 as stated (every inactive slot has zero records at every tick) fails on
  a run from zeroed rows: in the first episode row 1 is the seeker and the
  observation system writes the size of the elongated box 0 into its record; the
  host requests a reset, the next episode has no seeker, and row 1, now without a
  backing entity and with mask 0, still holds that box size.
\<close>

theorem inactive_slot_stale:
  "init_graph (test_ext None False) (test_sim (test_cfg 1 1 0 1)) = Inr episode0
   \<and> sim_e (agents episode0 ! 1) \<noteq> None
   \<and> run_ticks (test_ext None False) [([], Some 1)] episode0 = Inr episode1
   \<and> sim_e (agents episode1 ! 1) = None \<and> mask (agents episode1 ! 1) = 0
   \<and> bo_boxSize (box_obs (agents episode1 ! 1) ! 0) = (8, 3 / 2)"
proof -
  from episodes_run obtain w c where
    r: "init_graph (test_ext None False) (test_sim (test_cfg 1 1 0 1)) = Inr w"
    "sim_e (agents w ! 1) \<noteq> None"
    "run_ticks (test_ext None False) [([], Some 1)] w = Inr c"
    "sim_e (agents c ! 1) = None" "mask (agents c ! 1) = 0"
    "bo_boxSize (box_obs (agents c ! 1) ! 0) = (8, 3 / 2)"
    by blast
  have 0: "episode0 = w" using r(1) by (simp add: episode0_def world_of_def)
  have 1: "episode1 = c" using r(3) unfolding episode1_def 0 by (simp add: world_of_def)
  show ?thesis unfolding 0 1 using r by simp
qed

text \<open>
  Claim C2, as the code has it. The observation stage that ends every tick and the
  init graph (\<open>collectObservationsSystem\<close>, then \<open>computeVisibilitySystem\<close>, over all
  rows) skips an inactive slot (no backing entity): the slot is inactive after the
  stage as before, and its agent, box and ramp observation records and its agent
  and ramp visibility masks are what they were before the stage. In a build
  without \<open>MADRONA_GPU_MODE\<close> so are its box visibility masks.
\<close>

theorem inactive_slot_kept:
  assumes "j < length (agents ctx)" "sim_e (agents ctx ! j) = None"
  shows "sim_e (agents (observationsTasks X ctx) ! j) = None
       \<and> mask (agents (observationsTasks X ctx) ! j) = mask (agents ctx ! j)
       \<and> agent_obs (agents (observationsTasks X ctx) ! j) = agent_obs (agents ctx ! j)
       \<and> box_obs (agents (observationsTasks X ctx) ! j) = box_obs (agents ctx ! j)
       \<and> ramp_obs (agents (observationsTasks X ctx) ! j) = ramp_obs (agents ctx ! j)
       \<and> agent_vis (agents (observationsTasks X ctx) ! j) = agent_vis (agents ctx ! j)
       \<and> ramp_vis (agents (observationsTasks X ctx) ! j) = ramp_vis (agents ctx ! j)
       \<and> (\<not> gpu_mode X \<longrightarrow>
            box_vis (agents (observationsTasks X ctx) ! j) = box_vis (agents ctx ! j))"
proof -
  have e: "other_cols (agents (observationsTasks X ctx) ! j) = other_cols (agents ctx ! j)"
    using observationsTasks_rows(1) [OF assms, of X] by simp
  have "box_vis (agents (observationsTasks X ctx) ! j) = box_vis (agents ctx ! j)"
    if "\<not> gpu_mode X"
    using observationsTasks_rows(2) [OF assms(1) that assms(2)] by simp
  then show ?thesis
    using assms(2) arg_cong [OF e, of sim_e] arg_cong [OF e, of mask]
      arg_cong [OF e, of agent_obs] arg_cong [OF e, of box_obs] arg_cong [OF e, of ramp_obs]
      arg_cong [OF e, of agent_vis] arg_cong [OF e, of ramp_vis]
    by simp
qed

lemma stale_world_facts:
  "length (agents stale_world) = 2"
  "sim_e (agents stale_world ! 0) = Some 0" "sim_e (agents stale_world ! 1) = None"
  "bo_boxSize (box_obs (agents stale_world ! 1) ! 0) = (8, 3 / 2)"
  "box_vis (agents stale_world ! 1) = replicate 9 1"
  by (simp_all add: stale_world_def test_world_def test_mem_def test_row_def)

text \<open>
  In a world whose row 0 is an agent and whose row 1 is an inactive slot with the
  record and the masks of an earlier episode, row 1 holds the size of the elongated
  box and the nine box masks 1 after the stage of the CPU build.
\<close>

theorem inactive_slot_kept_witness:
  "1 < length (agents stale_world) \<and> sim_e (agents stale_world ! 1) = None
   \<and> \<not> gpu_mode (test_ext None False)
   \<and> sim_e (agents (observationsTasks (test_ext None False) stale_world) ! 1) = None
   \<and> bo_boxSize (box_obs (agents (observationsTasks (test_ext None False) stale_world) ! 1) ! 0)
       = (8, 3 / 2)
   \<and> box_vis (agents (observationsTasks (test_ext None False) stale_world) ! 1) = replicate 9 1"
proof -
  have j: "1 < length (agents stale_world)" using stale_world_facts(1) by simp
  have g: "\<not> gpu_mode (test_ext None False)" by (simp add: test_ext_def)
  note a = inactive_slot_kept [OF j stale_world_facts(3), of "test_ext None False"]
  show ?thesis using a j g stale_world_facts(3,4,5) by simp
qed

text \<open>
  The same world in a build with \<open>MADRONA_GPU_MODE\<close>: the box lanes of the agent of
  row 0 store zeros at the indices 16 and 17 of its box array, which are the box
  masks 7 and 8 of the inactive row 1.
\<close>

lemma gpu_box_lanes:
  "box_vis (agents (observationsTasks test_gpu stale_world) ! 1) = [1, 1, 1, 1, 1, 1, 1, 0, 0]"
  by code_simp

end
